theory Spec2Isabelle
  imports Complex_Main
begin

section \<open>Text classifiers of the finch repository: glue code around the graph framework\<close>

text \<open>
  The two classes \<^verbatim>\<open>RNNTextClassifier\<close> (file \<^verbatim>\<open>rnn_attn_text_clf.py\<close>) and
  \<^verbatim>\<open>Conv1DClassifier\<close> (file \<^verbatim>\<open>conv_1d_text_clf.py\<close>) are embedded method by method.
  Python floats are idealised as the reals (rounding, overflow and NaN are not modelled),
  Python integers are \<open>int\<close>, sequences are lists, and an exception is a value of
  \<open>py_error\<close>: those the Python code itself raises, and those the framework raises on what
  the classes hand to it (\<^verbatim>\<open>ValueError\<close> for a shape it refuses while the graph is built,
  \<^verbatim>\<open>TypeError\<close> for a fed value that does not fit its placeholder,
  \<^verbatim>\<open>InvalidArgumentError\<close> for an operation that fails while the graph runs).
\<close>

subsection \<open>Exceptions\<close>

datatype py_error =
    ValueError | ZeroDivisionError | UnboundLocalError | AttributeError
  | TypeError | InvalidArgumentError

subsection \<open>Minibatch slicing: \<^verbatim>\<open>gen_batch\<close> (identical in both classes)\<close>

text \<open>
  \<^verbatim>\<open>range(start, stop, step)\<close> for a positive step, as the loop
  \<^verbatim>\<open>i = start; while i < stop: yield i; i += step\<close>.
\<close>

function range_from :: "nat \<Rightarrow> nat \<Rightarrow> nat \<Rightarrow> nat list" where
  "range_from i n step = (if 0 < step \<and> i < n then i # range_from (i + step) n step else [])"
  by pat_completeness auto
termination
  by (relation "measure (\<lambda>(i, n, step). n - i)") auto

declare range_from.simps [simp del]

text \<open>
  \<^verbatim>\<open>for i in range(0, len(arr), batch_size): yield arr[i : i+batch_size]\<close>.
  A zero step makes \<^verbatim>\<open>range\<close> raise \<^verbatim>\<open>ValueError\<close>; a negative step
  gives the empty range, since the stop \<^verbatim>\<open>len(arr)\<close> is not below the start 0.
\<close>

definition gen_batch :: "'a list \<Rightarrow> int \<Rightarrow> py_error + 'a list list" where
  "gen_batch arr batch_size =
     (if batch_size = 0 then Inl ValueError
      else if batch_size < 0 then Inr []
      else Inr (map (\<lambda>i. take (nat batch_size) (drop i arr))
                    (range_from 0 (length arr) (nat batch_size))))"

subsection \<open>Learning-rate schedule: \<^verbatim>\<open>decrease_lr\<close>\<close>

text \<open>
  \<^verbatim>\<open>decay_rate = math.log(min_lr/max_lr) / (-n_epoch*len_X/batch_size)\<close> and
  \<^verbatim>\<open>lr = max_lr*math.exp(-decay_rate*global_step)\<close>. The unary minus binds first, the
  product is an integer, and \<^verbatim>\<open>/\<close> is true division, which raises
  \<^verbatim>\<open>ZeroDivisionError\<close> on a zero divisor. The two classes differ in the constants only.
\<close>

definition exp_decay :: "real \<Rightarrow> real \<Rightarrow> real \<Rightarrow> int \<Rightarrow> int \<Rightarrow> int \<Rightarrow> py_error + real" where
  "exp_decay max_lr min_lr global_step n_epoch len_X batch_size =
     (if batch_size = 0 then Inl ZeroDivisionError
      else let steps = real_of_int (- n_epoch * len_X) / real_of_int batch_size in
        if steps = 0 then Inl ZeroDivisionError
        else let decay_rate = ln (min_lr / max_lr) / steps
             in Inr (max_lr * exp (- decay_rate * global_step)))"

definition rnn_decrease_lr :: "bool \<Rightarrow> real \<Rightarrow> int \<Rightarrow> int \<Rightarrow> int \<Rightarrow> py_error + real" where
  "rnn_decrease_lr en_exp_decay global_step n_epoch len_X batch_size =
     (if en_exp_decay then exp_decay 0.005 0.001 global_step n_epoch len_X batch_size
      else Inr 0.001)"

definition cnn_decrease_lr :: "bool \<Rightarrow> real \<Rightarrow> int \<Rightarrow> int \<Rightarrow> int \<Rightarrow> py_error + real" where
  "cnn_decrease_lr en_exp_decay global_step n_epoch len_X batch_size =
     (if en_exp_decay then exp_decay 0.003 0.0001 global_step n_epoch len_X batch_size
      else Inr 0.001)"

subsection \<open>The symbolic graph that \<^verbatim>\<open>build_graph\<close> constructs\<close>

text \<open>
  A graph node is a placeholder, a variable or an operation of the framework applied to
  attributes and input nodes. Placeholders are named by the attribute of the class they
  are bound to; \<open>NoneNode\<close> is Python's \<^verbatim>\<open>None\<close> (or an attribute not yet set).
\<close>

datatype tf_op =
    tf_embedding_lookup | tf_LSTMCell | tf_DropoutWrapper | tf_zero_state
  | tf_dynamic_rnn_outputs | tf_dynamic_rnn_state | tf_state_h
  | tf_expand_dims | tf_matmul | tf_tanh | tf_reshape | tf_exp | tf_reduce_sum | tf_divide
  | tf_transpose | tf_squeeze | tf_dense
  | tf_sparse_softmax_cross_entropy_with_logits | tf_softmax_cross_entropy_with_logits
  | tf_reduce_mean | tf_argmax | tf_equal | tf_cast
  | tf_AdamOptimizer | tf_minimize
  | tf_conv1d | tf_bias_add | tf_relu | tf_max_pool | tf_dropout

datatype attr = I int | IL "int list" | S string

datatype node =
    NoneNode
  | placeholder string "int option list option"
  | get_variable string "int list"
  | Op tf_op "attr list" "node list"

record RNNTextClassifier =
  rnn_seq_len :: int
  rnn_vocab_size :: int
  rnn_embedding_dims :: int
  rnn_cell_size :: int
  rnn_grad_clip :: int
  rnn_n_out :: int
  rnn_stateful :: bool
  rnn_pointer :: node
  rnn_X :: node
  rnn_Y :: node
  rnn_batch_size :: node
  rnn_rnn_keep_prob :: node
  rnn_lr :: node
  rnn_embedded :: node
  rnn_cell :: node
  rnn_init_state :: node
  rnn_final_state :: node
  rnn_logits :: node
  rnn_loss :: node
  rnn_acc :: node
  rnn_train_op :: node

definition rnn_add_input_layer :: "RNNTextClassifier \<Rightarrow> RNNTextClassifier" where
  "rnn_add_input_layer self =
     (let self = self\<lparr>rnn_X := placeholder ''X'' (Some [None, Some (rnn_seq_len self)])\<rparr>;
          self = self\<lparr>rnn_Y := placeholder ''Y'' (Some [None])\<rparr>;
          self = self\<lparr>rnn_batch_size := placeholder ''batch_size'' (Some [])\<rparr>;
          self = self\<lparr>rnn_rnn_keep_prob := placeholder ''rnn_keep_prob'' None\<rparr>;
          self = self\<lparr>rnn_lr := placeholder ''lr'' None\<rparr>
      in self\<lparr>rnn_pointer := rnn_X self\<rparr>)"

definition rnn_add_word_embedding_layer :: "RNNTextClassifier \<Rightarrow> RNNTextClassifier" where
  "rnn_add_word_embedding_layer self =
     (let embedding = get_variable ''encoder'' [rnn_vocab_size self, rnn_embedding_dims self];
          self = self\<lparr>rnn_embedded := Op tf_embedding_lookup [] [embedding, rnn_pointer self]\<rparr>
      in self\<lparr>rnn_pointer := rnn_embedded self\<rparr>)"

definition rnn_add_lstm_cells :: "RNNTextClassifier \<Rightarrow> RNNTextClassifier" where
  "rnn_add_lstm_cells self =
     (let cell = Op tf_LSTMCell [I (rnn_cell_size self)] [];
          cell = Op tf_DropoutWrapper [] [cell, rnn_rnn_keep_prob self]
      in self\<lparr>rnn_cell := cell\<rparr>)"

definition rnn_add_dynamic_rnn :: "RNNTextClassifier \<Rightarrow> RNNTextClassifier" where
  "rnn_add_dynamic_rnn self =
     (let self = self\<lparr>rnn_init_state := Op tf_zero_state [] [rnn_cell self, rnn_batch_size self]\<rparr>;
          inputs = [rnn_cell self, rnn_pointer self, rnn_init_state self]
      in self\<lparr>rnn_pointer := Op tf_dynamic_rnn_outputs [] inputs,
               rnn_final_state := Op tf_dynamic_rnn_state [] inputs\<rparr>)"

definition rnn_softmax :: "node \<Rightarrow> node" where
  "rnn_softmax tensor =
     (let exps = Op tf_exp [] [tensor]
      in Op tf_divide [] [exps, Op tf_reduce_sum [I 1] [exps]])"

definition rnn_add_attention :: "RNNTextClassifier \<Rightarrow> RNNTextClassifier" where
  "rnn_add_attention self =
     (let encoder_state = Op tf_expand_dims [I 2] [Op tf_state_h [] [rnn_final_state self]];
          weights = Op tf_tanh [] [Op tf_matmul [] [rnn_pointer self, encoder_state]];
          weights = rnn_softmax (Op tf_reshape [IL [- 1, rnn_seq_len self]] [weights])
      in self\<lparr>rnn_pointer :=
           Op tf_squeeze [I 2]
             [Op tf_matmul [] [Op tf_transpose [IL [0, 2, 1]] [rnn_pointer self],
                               Op tf_expand_dims [I 2] [weights]]]\<rparr>)"

definition rnn_add_output_layer :: "RNNTextClassifier \<Rightarrow> RNNTextClassifier" where
  "rnn_add_output_layer self =
     self\<lparr>rnn_logits := Op tf_dense [I (rnn_n_out self)] [rnn_pointer self]\<rparr>"

definition rnn_add_backward_path :: "RNNTextClassifier \<Rightarrow> RNNTextClassifier" where
  "rnn_add_backward_path self =
     (let self = self\<lparr>rnn_loss := Op tf_reduce_mean []
                   [Op tf_sparse_softmax_cross_entropy_with_logits [] [rnn_logits self, rnn_Y self]]\<rparr>;
          self = self\<lparr>rnn_acc := Op tf_reduce_mean []
                   [Op tf_cast [] [Op tf_equal [] [Op tf_argmax [I 1] [rnn_logits self], rnn_Y self]]]\<rparr>
      in self\<lparr>rnn_train_op := Op tf_minimize [] [Op tf_AdamOptimizer [] [], rnn_loss self]\<rparr>)"

definition rnn_build_graph :: "RNNTextClassifier \<Rightarrow> RNNTextClassifier" where
  "rnn_build_graph self =
     (let self = rnn_add_input_layer self;
          self = rnn_add_word_embedding_layer self;
          self = rnn_add_lstm_cells self;
          self = rnn_add_dynamic_rnn self;
          self = rnn_add_attention self;
          self = rnn_add_output_layer self
      in rnn_add_backward_path self)"

text \<open>The constructor; the session is not part of the record.\<close>

definition RNNTextClassifier_init ::
  "int \<Rightarrow> int \<Rightarrow> int \<Rightarrow> int \<Rightarrow> int \<Rightarrow> int \<Rightarrow> bool \<Rightarrow> RNNTextClassifier" where
  "RNNTextClassifier_init seq_len vocab_size n_out embedding_dims cell_size grad_clip stateful =
     rnn_build_graph
       \<lparr>rnn_seq_len = seq_len, rnn_vocab_size = vocab_size, rnn_embedding_dims = embedding_dims,
        rnn_cell_size = cell_size, rnn_grad_clip = grad_clip, rnn_n_out = n_out,
        rnn_stateful = stateful, rnn_pointer = NoneNode,
        rnn_X = NoneNode, rnn_Y = NoneNode, rnn_batch_size = NoneNode,
        rnn_rnn_keep_prob = NoneNode, rnn_lr = NoneNode, rnn_embedded = NoneNode,
        rnn_cell = NoneNode, rnn_init_state = NoneNode, rnn_final_state = NoneNode,
        rnn_logits = NoneNode, rnn_loss = NoneNode, rnn_acc = NoneNode,
        rnn_train_op = NoneNode\<rparr>"

record Conv1DClassifier =
  cnn_seq_len :: int
  cnn_vocab_size :: int
  cnn_embedding_dims :: int
  cnn_n_filters :: int
  cnn_kernel_size :: int
  cnn_padding :: string
  cnn_hidden_dims :: int
  cnn_n_out :: int
  cnn_current_layer :: node
  cnn_current_seq_len :: "int option"
  cnn_X :: node
  cnn_Y :: node
  cnn_keep_prob :: node
  cnn_logits :: node
  cnn_lr :: node
  cnn_loss :: node
  cnn_train_op :: node
  cnn_acc :: node

definition cnn_W :: "string \<Rightarrow> int list \<Rightarrow> node" where
  "cnn_W name shape = get_variable name shape"

definition cnn_b :: "string \<Rightarrow> int list \<Rightarrow> node" where
  "cnn_b name shape = get_variable name shape"

definition cnn_add_input_layer :: "Conv1DClassifier \<Rightarrow> Conv1DClassifier" where
  "cnn_add_input_layer self =
     (let self = self\<lparr>cnn_X := placeholder ''X'' (Some [None, Some (cnn_seq_len self)])\<rparr>;
          self = self\<lparr>cnn_Y := placeholder ''Y'' (Some [None, Some (cnn_n_out self)])\<rparr>;
          self = self\<lparr>cnn_keep_prob := placeholder ''keep_prob'' None\<rparr>
      in self\<lparr>cnn_current_layer := cnn_X self\<rparr>)"

definition cnn_add_word_embedding :: "Conv1DClassifier \<Rightarrow> Conv1DClassifier" where
  "cnn_add_word_embedding self =
     (let E = get_variable ''E'' [cnn_vocab_size self, cnn_embedding_dims self]
      in self\<lparr>cnn_current_layer := Op tf_embedding_lookup [] [E, cnn_current_layer self]\<rparr>)"

text \<open>
  \<^verbatim>\<open>current_seq_len\<close> is assigned only under the two \<^verbatim>\<open>if\<close>s; with any other
  padding string the attribute stays unset.
\<close>

definition cnn_add_conv1d :: "string \<Rightarrow> int list \<Rightarrow> int \<Rightarrow> Conv1DClassifier \<Rightarrow> Conv1DClassifier" where
  "cnn_add_conv1d name filter_shape stride self =
     (let W = cnn_W (name @ ''_w'') filter_shape;
          b = cnn_b (name @ ''_b'') [last filter_shape];
          conv = Op tf_conv1d [I stride, S (cnn_padding self)] [cnn_current_layer self, W];
          conv = Op tf_bias_add [] [conv, b];
          conv = Op tf_relu [] [conv];
          self = self\<lparr>cnn_current_layer := conv\<rparr>;
          self = (if cnn_padding self = ''VALID''
                  then self\<lparr>cnn_current_seq_len :=
                         Some (cnn_seq_len self - cnn_kernel_size self + 1)\<rparr>
                  else self)
      in if cnn_padding self = ''SAME''
         then self\<lparr>cnn_current_seq_len := Some (cnn_seq_len self)\<rparr>
         else self)"

definition cnn_add_global_maxpool :: "Conv1DClassifier \<Rightarrow> py_error + Conv1DClassifier" where
  "cnn_add_global_maxpool self =
     (case cnn_current_seq_len self of
        None \<Rightarrow> Inl AttributeError
      | Some k \<Rightarrow>
          let conv = Op tf_expand_dims [I 1] [cnn_current_layer self];
              conv = Op tf_max_pool [IL [1, 1, k, 1], IL [1, 1, k, 1], S (cnn_padding self)] [conv];
              conv = Op tf_squeeze [] [conv]
          in Inr (self\<lparr>cnn_current_layer := conv\<rparr>))"

definition cnn_add_fc :: "string \<Rightarrow> int list \<Rightarrow> Conv1DClassifier \<Rightarrow> Conv1DClassifier" where
  "cnn_add_fc name w_shape self =
     (let W = cnn_W (name @ ''_w'') w_shape;
          b = cnn_b (name @ ''_b'') [last w_shape];
          fc = Op tf_bias_add [] [Op tf_matmul [] [cnn_current_layer self, W], b];
          fc = Op tf_relu [] [fc];
          fc = Op tf_dropout [] [fc, cnn_keep_prob self]
      in self\<lparr>cnn_current_layer := fc\<rparr>)"

definition cnn_add_output_layer :: "int \<Rightarrow> Conv1DClassifier \<Rightarrow> Conv1DClassifier" where
  "cnn_add_output_layer in_dim self =
     self\<lparr>cnn_logits :=
        Op tf_bias_add []
          [Op tf_matmul [] [cnn_current_layer self, cnn_W ''w_out'' [in_dim, cnn_n_out self]],
           cnn_b ''b_out'' [cnn_n_out self]]\<rparr>"

definition cnn_add_backward_path :: "Conv1DClassifier \<Rightarrow> Conv1DClassifier" where
  "cnn_add_backward_path self =
     (let self = self\<lparr>cnn_lr := placeholder ''lr'' None\<rparr>;
          self = self\<lparr>cnn_loss := Op tf_reduce_mean []
                   [Op tf_softmax_cross_entropy_with_logits [] [cnn_logits self, cnn_Y self]]\<rparr>;
          self = self\<lparr>cnn_train_op :=
                   Op tf_minimize [] [Op tf_AdamOptimizer [] [cnn_lr self], cnn_loss self]\<rparr>
      in self\<lparr>cnn_acc := Op tf_reduce_mean []
              [Op tf_cast [] [Op tf_equal [] [Op tf_argmax [I 1] [cnn_logits self],
                                              Op tf_argmax [I 1] [cnn_Y self]]]]\<rparr>)"

text \<open>
  The framework checks shapes while the graph is built, inside the calls that the
  \<^verbatim>\<open>add_\<close> methods make, and raises \<^verbatim>\<open>ValueError\<close>: a placeholder or a variable is
  refused when a size of its shape is not positive; \<^verbatim>\<open>tf.nn.conv1d\<close> takes the padding
  strings \<^verbatim>\<open>'VALID'\<close> and \<^verbatim>\<open>'SAME'\<close> only, and under \<^verbatim>\<open>'VALID'\<close> it refuses a kernel
  longer than the sequence (the output length \<open>seq_len - kernel_size + 1\<close> would not be
  positive). Every one of these failures is a \<^verbatim>\<open>ValueError\<close> that leaves
  \<^verbatim>\<open>build_graph\<close>, so which call meets it first makes no difference to the caller;
  \<open>cnn_shapes_accepted\<close> collects them.
\<close>

definition cnn_shapes_accepted :: "Conv1DClassifier \<Rightarrow> bool" where
  "cnn_shapes_accepted self \<longleftrightarrow>
     list_all (\<lambda>d. 0 < d)
       [cnn_seq_len self, cnn_n_out self, cnn_vocab_size self, cnn_embedding_dims self,
        cnn_kernel_size self, cnn_n_filters self, cnn_hidden_dims self] \<and>
     (cnn_padding self = ''SAME'' \<or>
      cnn_padding self = ''VALID'' \<and> cnn_kernel_size self \<le> cnn_seq_len self)"

definition cnn_build_graph :: "Conv1DClassifier \<Rightarrow> py_error + Conv1DClassifier" where
  "cnn_build_graph self =
     (if \<not> cnn_shapes_accepted self then Inl ValueError
      else
        let self = cnn_add_input_layer self;
            self = cnn_add_word_embedding self;
            self = cnn_add_conv1d ''conv''
                     [cnn_kernel_size self, cnn_embedding_dims self, cnn_n_filters self] 1 self
        in case cnn_add_global_maxpool self of
             Inl e \<Rightarrow> Inl e
           | Inr self \<Rightarrow>
               let self = cnn_add_fc ''fully_connected'' [cnn_n_filters self, cnn_hidden_dims self] self;
                   self = cnn_add_output_layer (cnn_hidden_dims self) self
               in Inr (cnn_add_backward_path self))"

definition Conv1DClassifier_init ::
  "int \<Rightarrow> int \<Rightarrow> int \<Rightarrow> int \<Rightarrow> int \<Rightarrow> int \<Rightarrow> string \<Rightarrow> int \<Rightarrow> py_error + Conv1DClassifier" where
  "Conv1DClassifier_init seq_len vocab_size n_out embedding_dims n_filters kernel_size padding hidden_dims =
     cnn_build_graph
       \<lparr>cnn_seq_len = seq_len, cnn_vocab_size = vocab_size, cnn_embedding_dims = embedding_dims,
        cnn_n_filters = n_filters, cnn_kernel_size = kernel_size, cnn_padding = padding,
        cnn_hidden_dims = hidden_dims, cnn_n_out = n_out, cnn_current_layer = NoneNode,
        cnn_current_seq_len = None,
        cnn_X = NoneNode, cnn_Y = NoneNode, cnn_keep_prob = NoneNode, cnn_logits = NoneNode,
        cnn_lr = NoneNode, cnn_loss = NoneNode, cnn_train_op = NoneNode, cnn_acc = NoneNode\<rparr>"

subsection \<open>Reading a graph: sub-nodes and attention pooling\<close>

fun subnodes :: "node \<Rightarrow> node list" where
  "subnodes (Op f as ns) = Op f as ns # concat (map subnodes ns)"
| "subnodes n = [n]"

text \<open>
  The glossary's attention pooling, read on the graph: a node \<open>a\<close> pools the features
  \<open>feats\<close> by attention when it is the product of the (transposed) features with
  weights that are a softmax (exponentials divided by their sum along axis 1) of a
  score computed from the features themselves.
\<close>

definition softmax_weights :: "node \<Rightarrow> bool" where
  "softmax_weights w =
     list_ex (\<lambda>s. w = Op tf_divide [] [Op tf_exp [] [s], Op tf_reduce_sum [I 1] [Op tf_exp [] [s]]])
       (subnodes w)"

definition attention_pooling_of :: "node \<Rightarrow> node \<Rightarrow> bool" where
  "attention_pooling_of feats a =
     list_ex (\<lambda>w. softmax_weights w \<and> feats \<in> set (subnodes w) \<and>
                 a = Op tf_squeeze [I 2]
                       [Op tf_matmul [] [Op tf_transpose [IL [0, 2, 1]] [feats],
                                         Op tf_expand_dims [I 2] [w]]])
       (subnodes a)"


fun ops_of :: "node \<Rightarrow> tf_op list" where
  "ops_of (Op f as ns) = f # concat (map ops_of ns)"
| "ops_of n = []"

subsection \<open>What the attention stage computes\<close>

text \<open>
  The values of the nodes that \<^verbatim>\<open>add_attention\<close> and \<^verbatim>\<open>softmax\<close> create, on tensors
  as nested lists: a matrix is the list of its rows, a tensor of rank three the list of its
  matrices (one per example of the batch). The framework's shape errors are not modelled:
  the operations are total and are meant on tensors of the shapes the graph declares.
\<close>

type_synonym matrix = "real list list"
type_synonym tensor3 = "real list list list"

definition dot :: "real list \<Rightarrow> real list \<Rightarrow> real" where
  "dot u v = sum_list (map2 (*) u v)"

text \<open>\<^verbatim>\<open>tf.matmul\<close> on matrices, and on tensors of rank three example by example.\<close>

definition matmul :: "matrix \<Rightarrow> matrix \<Rightarrow> matrix" where
  "matmul a b = map (\<lambda>row. map (\<lambda>col. dot row col) (transpose b)) a"

definition batch_matmul :: "tensor3 \<Rightarrow> tensor3 \<Rightarrow> tensor3" where
  "batch_matmul a b = map2 matmul a b"

text \<open>\<^verbatim>\<open>tf.expand_dims(t, 2)\<close> of a matrix and \<^verbatim>\<open>tf.squeeze(t, 2)\<close> of a tensor whose last axis has size one.\<close>

definition expand_dims_2 :: "matrix \<Rightarrow> tensor3" where
  "expand_dims_2 t = map (map (\<lambda>x. [x])) t"

definition squeeze_2 :: "tensor3 \<Rightarrow> matrix" where
  "squeeze_2 t = map concat t"

text \<open>\<^verbatim>\<open>tf.transpose(t, [0, 2, 1])\<close>.\<close>

definition transpose_021 :: "tensor3 \<Rightarrow> tensor3" where
  "transpose_021 t = map transpose t"

text \<open>\<^verbatim>\<open>tf.reshape(t, [-1, n])\<close>: the elements in row-major order, cut into rows of \<open>n\<close>.\<close>

function rows_of :: "nat \<Rightarrow> 'a list \<Rightarrow> 'a list list" where
  "rows_of n xs = (if n = 0 \<or> xs = [] then [] else take n xs # rows_of n (drop n xs))"
  by pat_completeness auto
termination
  by (relation "measure (\<lambda>(n, xs). length xs)") auto

declare rows_of.simps [simp del]

definition reshape_rows :: "nat \<Rightarrow> tensor3 \<Rightarrow> matrix" where
  "reshape_rows n t = rows_of n (concat (concat t))"

text \<open>
  \<^verbatim>\<open>RNNTextClassifier.softmax\<close>: \<^verbatim>\<open>exps / tf.reduce_sum(exps, 1, keep_dims=True)\<close>, the sum of
  each row broadcast along it.
\<close>

definition rnn_softmax_value :: "matrix \<Rightarrow> matrix" where
  "rnn_softmax_value tensor =
     (let exps = map (map exp) tensor
      in map (\<lambda>row. map (\<lambda>e. e / sum_list row) row) exps)"

text \<open>
  \<^verbatim>\<open>add_attention\<close>, from the outputs of the recurrent layer (\<^verbatim>\<open>self._pointer\<close>, of shape
  batch, \<open>seq_len\<close>, \<open>cell_size\<close>) and \<^verbatim>\<open>self.final_state.h\<close> (batch, \<open>cell_size\<close>): first the
  weights, then the new \<^verbatim>\<open>self._pointer\<close>.
\<close>

definition rnn_attention_weights :: "int \<Rightarrow> tensor3 \<Rightarrow> matrix \<Rightarrow> matrix" where
  "rnn_attention_weights seq_len pointer final_state_h =
     (let encoder_state = expand_dims_2 final_state_h;
          weights = map (map (map tanh)) (batch_matmul pointer encoder_state)
      in rnn_softmax_value (reshape_rows (nat seq_len) weights))"

definition rnn_add_attention_value :: "int \<Rightarrow> tensor3 \<Rightarrow> matrix \<Rightarrow> matrix" where
  "rnn_add_attention_value seq_len pointer final_state_h =
     (let weights = rnn_attention_weights seq_len pointer final_state_h
      in squeeze_2 (batch_matmul (transpose_021 pointer) (expand_dims_2 weights)))"

subsection \<open>What the convolution and the global max-pool compute\<close>

text \<open>
  The values of the nodes that \<^verbatim>\<open>add_conv1d\<close> and \<^verbatim>\<open>add_global_maxpool\<close> create. The
  framework's operations follow its documentation: with padding \<^verbatim>\<open>'SAME'\<close> the output has
  \<open>ceil(in_width / stride)\<close> positions and the input is padded by
  \<open>max((out_width - 1) * stride + window - in_width, 0)\<close> positions, the smaller half on
  the left; with padding \<^verbatim>\<open>'VALID'\<close> nothing is padded and the output has
  \<open>ceil((in_width - window + 1) / stride)\<close> positions. Shape errors of the framework
  are not modelled, apart from a pooling window that is not positive.
\<close>

definition same_padding :: "nat \<Rightarrow> nat \<Rightarrow> nat \<Rightarrow> nat \<times> nat" where
  "same_padding in_width window stride =
     (let out_width = (in_width + stride - 1) div stride;
          pad_total = (out_width - 1) * stride + window - in_width
      in (pad_total div 2, pad_total - pad_total div 2))"

text \<open>
  One output entry of \<^verbatim>\<open>tf.nn.conv1d\<close>: the sum over the taps \<open>di\<close> and the input channels
  \<open>q\<close> of \<open>window[di][q] * filters[di][q][k]\<close>.
\<close>

definition window_product :: "matrix \<Rightarrow> tensor3 \<Rightarrow> nat \<Rightarrow> real" where
  "window_product window filters k =
     sum_list (map2 (\<lambda>row taps. dot row (map (\<lambda>tap. tap ! k) taps)) window filters)"

definition conv1d :: "matrix \<Rightarrow> tensor3 \<Rightarrow> int list \<Rightarrow> nat \<Rightarrow> string \<Rightarrow> matrix" where
  "conv1d value filters filter_shape stride padding =
     (let filter_width = nat (filter_shape ! 0);
          in_channels = nat (filter_shape ! 1);
          out_channels = nat (filter_shape ! 2);
          in_width = length value;
          pads = (if padding = ''SAME'' then same_padding in_width filter_width stride else (0, 0));
          padded = replicate (fst pads) (replicate in_channels 0) @ value
                     @ replicate (snd pads) (replicate in_channels 0);
          out_width = (if padding = ''SAME'' then (in_width + stride - 1) div stride
                       else (in_width + stride - filter_width) div stride)
      in map (\<lambda>i. map (\<lambda>k. window_product (take filter_width (drop (i * stride) padded)) filters k)
                     [0..<out_channels])
           [0..<out_width])"

text \<open>
  \<^verbatim>\<open>add_conv1d\<close> on a batch: the convolution of every example, \<^verbatim>\<open>bias_add\<close>, \<^verbatim>\<open>relu\<close>.
\<close>

definition cnn_add_conv1d_value ::
  "string \<Rightarrow> int list \<Rightarrow> nat \<Rightarrow> tensor3 \<Rightarrow> real list \<Rightarrow> tensor3 \<Rightarrow> tensor3" where
  "cnn_add_conv1d_value padding filter_shape stride W b current_layer =
     (let conv = map (\<lambda>value. conv1d value W filter_shape stride padding) current_layer;
          conv = map (map (\<lambda>row. map2 (+) row b)) conv;
          conv = map (map (map (max 0))) conv
      in conv)"

text \<open>The maximum, channel by channel, over the rows of a window.\<close>

definition reduce_max :: "matrix \<Rightarrow> real list" where
  "reduce_max window = (case window of [] \<Rightarrow> [] | row # rows \<Rightarrow> fold (map2 max) rows row)"

text \<open>
  \<^verbatim>\<open>tf.nn.max_pool\<close> along the width axis, with window \<open>k\<close>: window \<open>j\<close> covers the positions
  from \<open>j * stride - pad_left\<close> up to \<open>k\<close> further, those outside the input left out.
\<close>

definition max_pool_width :: "matrix \<Rightarrow> nat \<Rightarrow> nat \<Rightarrow> string \<Rightarrow> matrix" where
  "max_pool_width value k stride padding =
     (let in_width = length value
      in if padding = ''SAME''
         then (let out_width = (in_width + stride - 1) div stride;
                   pad_left = fst (same_padding in_width k stride)
               in map (\<lambda>j. reduce_max
                              (take (j * stride + k - pad_left - (j * stride - pad_left))
                                 (drop (j * stride - pad_left) value)))
                    [0..<out_width])
         else map (\<lambda>j. reduce_max (take k (drop (j * stride) value)))
                [0..<(in_width + stride - k) div stride])"

text \<open>
  A tensor of any rank, for \<^verbatim>\<open>tf.squeeze\<close> without an axis, which removes every axis of
  size one: the rank of its result depends on the sizes.
\<close>

datatype tensor = Scalar real | Array "tensor list"

definition of_vector :: "real list \<Rightarrow> tensor" where
  "of_vector v = Array (map Scalar v)"

definition of_matrix :: "matrix \<Rightarrow> tensor" where
  "of_matrix m = Array (map of_vector m)"

definition of_tensor3 :: "tensor3 \<Rightarrow> tensor" where
  "of_tensor3 t = Array (map of_matrix t)"

definition of_tensor4 :: "tensor3 list \<Rightarrow> tensor" where
  "of_tensor4 t = Array (map of_tensor3 t)"

fun squeeze :: "tensor \<Rightarrow> tensor" where
  "squeeze (Scalar x) = Scalar x"
| "squeeze (Array [t]) = squeeze t"
| "squeeze (Array ts) = Array (map squeeze ts)"

fun flatten :: "tensor \<Rightarrow> real list" where
  "flatten (Scalar x) = [x]"
| "flatten (Array ts) = concat (map flatten ts)"

text \<open>
  \<^verbatim>\<open>add_global_maxpool\<close>: \<^verbatim>\<open>expand_dims(conv, 1)\<close> puts every example in a list of one row of
  height; the pooling has window and stride \<open>[1, 1, k, 1]\<close>, so it acts along the width of that
  row only; \<^verbatim>\<open>k\<close> is \<^verbatim>\<open>self.current_seq_len\<close>, unset (\<open>None\<close>) unless \<^verbatim>\<open>add_conv1d\<close> set it.
\<close>

definition cnn_add_global_maxpool_value :: "string \<Rightarrow> int option \<Rightarrow> tensor3 \<Rightarrow> py_error + tensor" where
  "cnn_add_global_maxpool_value padding current_seq_len current_layer =
     (case current_seq_len of
        None \<Rightarrow> Inl AttributeError
      | Some k \<Rightarrow>
          if k \<le> 0 then Inl ValueError
          else let conv = map (\<lambda>example. [example]) current_layer;
                   conv = map (map (\<lambda>value. max_pool_width value (nat k) (nat k) padding)) conv;
                   conv = squeeze (of_tensor4 conv)
               in Inr conv)"

subsection \<open>Sequencing of computations that may raise\<close>

definition bind_err :: "py_error + 'a \<Rightarrow> ('a \<Rightarrow> py_error + 'b) \<Rightarrow> py_error + 'b" where
  "bind_err m f = (case m of Inl e \<Rightarrow> Inl e | Inr x \<Rightarrow> f x)"

text \<open>A \<^verbatim>\<open>for\<close> loop over a list whose body may raise; the first exception ends it.\<close>

fun fold_err :: "('s \<Rightarrow> 'a \<Rightarrow> py_error + 's) \<Rightarrow> 's \<Rightarrow> 'a list \<Rightarrow> py_error + 's" where
  "fold_err f s [] = Inr s"
| "fold_err f s (x # xs) = (case f s x of Inl e \<Rightarrow> Inl e | Inr s' \<Rightarrow> fold_err f s' xs)"

text \<open>\<^verbatim>\<open>for epoch in range(n): body\<close>, the body not reading the counter.\<close>

fun repeat_err :: "nat \<Rightarrow> ('s \<Rightarrow> py_error + 's) \<Rightarrow> 's \<Rightarrow> py_error + 's" where
  "repeat_err 0 f s = Inr s"
| "repeat_err (Suc n) f s = (case f s of Inl e \<Rightarrow> Inl e | Inr s' \<Rightarrow> repeat_err n f s')"

subsection \<open>\<^verbatim>\<open>list_avg\<close> and the array functions of \<^verbatim>\<open>predict\<close>\<close>

text \<open>\<^verbatim>\<open>sum(l) / len(l)\<close>; on the empty list this is \<^verbatim>\<open>0 / 0\<close>.\<close>

definition list_avg :: "real list \<Rightarrow> py_error + real" where
  "list_avg l = (if length l = 0 then Inl ZeroDivisionError
                 else Inr (sum_list l / real (length l)))"

text \<open>
  \<^verbatim>\<open>np.concatenate\<close> along axis 0 of a list of two-dimensional arrays (lists of rows):
  it raises \<^verbatim>\<open>ValueError\<close> on the empty list and when the row lengths disagree.
  On two-dimensional arrays \<^verbatim>\<open>np.vstack\<close> is the same function.
\<close>

definition np_concatenate :: "real list list list \<Rightarrow> py_error + real list list" where
  "np_concatenate arrays =
     (if arrays = [] then Inl ValueError
      else let rows = concat arrays
           in if list_ex (\<lambda>r. length r \<noteq> length (hd rows)) rows then Inl ValueError
              else Inr rows)"

definition np_vstack :: "real list list list \<Rightarrow> py_error + real list list" where
  "np_vstack arrays = np_concatenate arrays"

text \<open>
  \<^verbatim>\<open>np.argmax(a, 1)\<close>: for each row the first index that holds the row's maximum;
  \<^verbatim>\<open>ValueError\<close> when the rows are empty.
\<close>

fun argmax_from :: "nat \<Rightarrow> real \<Rightarrow> nat \<Rightarrow> real list \<Rightarrow> nat" where
  "argmax_from best_i best_v i [] = best_i"
| "argmax_from best_i best_v i (x # xs) =
     (if best_v < x then argmax_from i x (Suc i) xs else argmax_from best_i best_v (Suc i) xs)"

definition argmax_row :: "real list \<Rightarrow> nat" where
  "argmax_row row = (case row of [] \<Rightarrow> 0 | x # xs \<Rightarrow> argmax_from 0 x 1 xs)"

definition np_argmax1 :: "real list list \<Rightarrow> py_error + nat list" where
  "np_argmax1 a = (if list_ex (\<lambda>row. row = []) a then Inl ValueError else Inr (map argmax_row a))"

subsection \<open>The session: what \<^verbatim>\<open>sess.run\<close> computes\<close>

text \<open>
  The framework is a parameter. \<open>'w\<close> is the state of the session (the variables of the
  graph and whatever else a run changes), \<open>'x\<close> a row of the input, \<open>'y\<close> a label and
  \<open>'s\<close> a state of the recurrent cell. Each field is one fetch list of the source, on
  feeds that the graph can run: the training run returns the new session state with the
  fetched values; the other runs fetch values only. A run of the recurrent graph takes the
  initial state the graph starts from; \<open>rnn_initial_state\<close> below resolves it from the
  feed dictionary. The two ways in which the classes themselves make a run fail are
  modelled on top of the fields: a \<^verbatim>\<open>batch_size\<close> that its \<^verbatim>\<open>int32\<close> placeholder cannot
  hold, and in \<^verbatim>\<open>Conv1DClassifier\<close> a pooled tensor that \<^verbatim>\<open>tf.squeeze\<close> leaves with the
  wrong rank.
\<close>

record ('w, 'x, 'y, 's) rnn_session =
  rs_global_variables_initializer :: "'w \<Rightarrow> 'w"
  rs_zero_state :: "int \<Rightarrow> 's"
  rs_train :: "'w \<Rightarrow> 'x list \<Rightarrow> 'y list \<Rightarrow> real \<Rightarrow> real \<Rightarrow> 's \<Rightarrow> 'w \<times> 's \<times> real \<times> real"
  rs_eval :: "'w \<Rightarrow> 'x list \<Rightarrow> 'y list \<Rightarrow> real \<Rightarrow> 's \<Rightarrow> real \<times> real \<times> 's"
  rs_logits :: "'w \<Rightarrow> 'x list \<Rightarrow> real \<Rightarrow> 's \<Rightarrow> real list list \<times> 's"

record ('w, 'x, 'y) cnn_session =
  cs_global_variables_initializer :: "'w \<Rightarrow> 'w"
  cs_train :: "'w \<Rightarrow> 'x list \<Rightarrow> 'y list \<Rightarrow> real \<Rightarrow> real \<Rightarrow> 'w \<times> real \<times> real"
  cs_eval :: "'w \<Rightarrow> 'x list \<Rightarrow> 'y list \<Rightarrow> real \<Rightarrow> real \<times> real"
  cs_logits :: "'w \<Rightarrow> 'x list \<Rightarrow> real \<Rightarrow> real list list"

paragraph \<open>Runs of the recurrent graph\<close>

text \<open>
  \<^verbatim>\<open>self.batch_size = tf.placeholder(tf.int32, [])\<close>: the session refuses a fed Python
  integer that does not fit 32 bits with \<^verbatim>\<open>TypeError\<close>, before anything runs.
\<close>

definition int32 :: "int \<Rightarrow> bool" where
  "int32 v \<longleftrightarrow> - 2147483648 \<le> v \<and> v < 2147483648"

text \<open>
  The node \<^verbatim>\<open>init_state\<close> is \<^verbatim>\<open>cell.zero_state(self.batch_size, ...)\<close>: when the feed
  dictionary gives \<^verbatim>\<open>init_state\<close> a value the graph starts from it, otherwise from the zero
  state of the fed \<^verbatim>\<open>batch_size\<close>, a tensor of zeros with that many rows, which cannot be
  made for a negative number (\<^verbatim>\<open>InvalidArgumentError\<close>). With \<open>None\<close> for
  \<open>fed_init_state\<close> this is also
  \<^verbatim>\<open>self.sess.run(self.init_state, feed_dict={self.batch_size: batch_size})\<close>.
\<close>

definition rnn_initial_state ::
  "('w, 'x, 'y, 's) rnn_session \<Rightarrow> int \<Rightarrow> 's option \<Rightarrow> py_error + 's" where
  "rnn_initial_state sess fed_batch_size fed_init_state =
     (if \<not> int32 fed_batch_size then Inl TypeError
      else case fed_init_state of
             Some s \<Rightarrow> Inr s
           | None \<Rightarrow> if fed_batch_size < 0 then Inl InvalidArgumentError
                      else Inr (rs_zero_state sess fed_batch_size))"

text \<open>
  \<^verbatim>\<open>sess.run([train_op, final_state, loss, acc], {X, Y, batch_size, rnn_keep_prob, lr, init_state?})\<close>,
  \<^verbatim>\<open>sess.run([loss, acc, final_state], {X, Y, batch_size, rnn_keep_prob, init_state?})\<close> and
  \<^verbatim>\<open>sess.run([logits, final_state], {X, batch_size, rnn_keep_prob, init_state?})\<close>.
\<close>

definition rnn_run_train ::
  "('w, 'x, 'y, 's) rnn_session \<Rightarrow> 'w \<Rightarrow> 'x list \<Rightarrow> 'y list \<Rightarrow> int \<Rightarrow> real \<Rightarrow> real \<Rightarrow> 's option
     \<Rightarrow> py_error + 'w \<times> 's \<times> real \<times> real" where
  "rnn_run_train sess w X_batch Y_batch fed_batch_size rnn_keep_prob lr fed_init_state =
     bind_err (rnn_initial_state sess fed_batch_size fed_init_state)
       (\<lambda>initial. Inr (rs_train sess w X_batch Y_batch rnn_keep_prob lr initial))"

definition rnn_run_eval ::
  "('w, 'x, 'y, 's) rnn_session \<Rightarrow> 'w \<Rightarrow> 'x list \<Rightarrow> 'y list \<Rightarrow> int \<Rightarrow> real \<Rightarrow> 's option
     \<Rightarrow> py_error + real \<times> real \<times> 's" where
  "rnn_run_eval sess w X_batch Y_batch fed_batch_size rnn_keep_prob fed_init_state =
     bind_err (rnn_initial_state sess fed_batch_size fed_init_state)
       (\<lambda>initial. Inr (rs_eval sess w X_batch Y_batch rnn_keep_prob initial))"

definition rnn_run_logits ::
  "('w, 'x, 'y, 's) rnn_session \<Rightarrow> 'w \<Rightarrow> 'x list \<Rightarrow> int \<Rightarrow> real \<Rightarrow> 's option
     \<Rightarrow> py_error + real list list \<times> 's" where
  "rnn_run_logits sess w X_batch fed_batch_size rnn_keep_prob fed_init_state =
     bind_err (rnn_initial_state sess fed_batch_size fed_init_state)
       (\<lambda>initial. Inr (rs_logits sess w X_batch rnn_keep_prob initial))"

paragraph \<open>Runs of the convolutional graph\<close>

text \<open>
  In \<^verbatim>\<open>Conv1DClassifier\<close> the pooled tensor of a batch of \<open>n\<close> rows has the shape
  \<open>(n, 1, 1, n_filters)\<close>, and \<^verbatim>\<open>tf.squeeze(conv)\<close>, called without an axis, removes
  every axis of size one from it. \<^verbatim>\<open>add_fc\<close> hands the result to \<^verbatim>\<open>tf.matmul\<close>, which
  takes a matrix: when the batch has exactly one row, or there is exactly one filter, the
  run fails there with \<^verbatim>\<open>InvalidArgumentError\<close>. Every fetch of the class (the logits, the
  loss, the accuracy, the training operation) lies behind that product.
\<close>

definition squeezed_shape :: "int list \<Rightarrow> int list" where
  "squeezed_shape shape = filter (\<lambda>d. d \<noteq> 1) shape"

definition cnn_pooled_shape :: "Conv1DClassifier \<Rightarrow> 'x list \<Rightarrow> int list" where
  "cnn_pooled_shape self X_batch = [int (length X_batch), 1, 1, cnn_n_filters self]"

definition cnn_graph_runs :: "Conv1DClassifier \<Rightarrow> 'x list \<Rightarrow> bool" where
  "cnn_graph_runs self X_batch \<longleftrightarrow>
     length (squeezed_shape (cnn_pooled_shape self X_batch)) = 2"

text \<open>
  \<^verbatim>\<open>sess.run([train_op, loss, acc], {X, Y, lr, keep_prob})\<close>,
  \<^verbatim>\<open>sess.run([loss, acc], {X, Y, keep_prob})\<close> and \<^verbatim>\<open>sess.run(logits, {X, keep_prob})\<close>.
\<close>

definition cnn_run_train ::
  "Conv1DClassifier \<Rightarrow> ('w, 'x, 'y) cnn_session \<Rightarrow> 'w \<Rightarrow> 'x list \<Rightarrow> 'y list \<Rightarrow> real \<Rightarrow> real
     \<Rightarrow> py_error + 'w \<times> real \<times> real" where
  "cnn_run_train self sess w X_batch Y_batch lr keep_prob =
     (if cnn_graph_runs self X_batch then Inr (cs_train sess w X_batch Y_batch lr keep_prob)
      else Inl InvalidArgumentError)"

definition cnn_run_eval ::
  "Conv1DClassifier \<Rightarrow> ('w, 'x, 'y) cnn_session \<Rightarrow> 'w \<Rightarrow> 'x list \<Rightarrow> 'y list \<Rightarrow> real
     \<Rightarrow> py_error + real \<times> real" where
  "cnn_run_eval self sess w X_batch Y_batch keep_prob =
     (if cnn_graph_runs self X_batch then Inr (cs_eval sess w X_batch Y_batch keep_prob)
      else Inl InvalidArgumentError)"

definition cnn_run_logits ::
  "Conv1DClassifier \<Rightarrow> ('w, 'x, 'y) cnn_session \<Rightarrow> 'w \<Rightarrow> 'x list \<Rightarrow> real
     \<Rightarrow> py_error + real list list" where
  "cnn_run_logits self sess w X_batch keep_prob =
     (if cnn_graph_runs self X_batch then Inr (cs_logits sess w X_batch keep_prob)
      else Inl InvalidArgumentError)"

subsection \<open>\<^verbatim>\<open>predict\<close>\<close>

text \<open>The body of the loop of \<^verbatim>\<open>RNNTextClassifier.predict\<close>, on \<open>(next_state, batch_pred_list)\<close>.\<close>

definition rnn_predict_step ::
  "('w, 'x, 'y, 's) rnn_session \<Rightarrow> bool \<Rightarrow> 'w \<Rightarrow> int \<Rightarrow> 's \<times> real list list list \<Rightarrow> 'x list
     \<Rightarrow> py_error + 's \<times> real list list list" where
  "rnn_predict_step sess stateful w batch_size acc X_test_batch =
     (case acc of (next_state, batch_pred_list) \<Rightarrow>
        if stateful \<and> int (length X_test_batch) = batch_size
        then bind_err (rnn_run_logits sess w X_test_batch batch_size 1.0 (Some next_state))
               (\<lambda>fetched. case fetched of (batch_pred, next_state') \<Rightarrow>
                  Inr (next_state', batch_pred_list @ [batch_pred]))
        else bind_err (rnn_run_logits sess w X_test_batch (int (length X_test_batch)) 1.0 None)
               (\<lambda>fetched. case fetched of (batch_pred, _) \<Rightarrow>
                  Inr (next_state, batch_pred_list @ [batch_pred])))"

text \<open>The loop, from the \<open>next_state\<close> it is entered with and no predictions.\<close>

definition rnn_predict_loop ::
  "('w, 'x, 'y, 's) rnn_session \<Rightarrow> bool \<Rightarrow> 'w \<Rightarrow> int \<Rightarrow> 's \<Rightarrow> 'x list list
     \<Rightarrow> py_error + 's \<times> real list list list" where
  "rnn_predict_loop sess stateful w batch_size next_state batches =
     fold_err (rnn_predict_step sess stateful w batch_size) (next_state, []) batches"

text \<open>
  \<^verbatim>\<open>predict\<close> fetches the zero state of \<open>batch_size\<close> rows first, then runs the loop and
  stacks the logits.
\<close>

definition rnn_predict ::
  "('w, 'x, 'y, 's) rnn_session \<Rightarrow> bool \<Rightarrow> 'w \<Rightarrow> 'x list \<Rightarrow> int \<Rightarrow> py_error + nat list" where
  "rnn_predict sess stateful w X_test batch_size =
     bind_err (rnn_initial_state sess batch_size None) (\<lambda>next_state.
     bind_err (gen_batch X_test batch_size) (\<lambda>batches.
     bind_err (rnn_predict_loop sess stateful w batch_size next_state batches) (\<lambda>looped.
     bind_err (np_vstack (snd looped)) np_argmax1)))"

text \<open>The body of the loop of \<^verbatim>\<open>Conv1DClassifier.predict\<close>, on \<open>batch_pred_list\<close>.\<close>

definition cnn_predict_step ::
  "Conv1DClassifier \<Rightarrow> ('w, 'x, 'y) cnn_session \<Rightarrow> 'w \<Rightarrow> real list list list \<Rightarrow> 'x list
     \<Rightarrow> py_error + real list list list" where
  "cnn_predict_step self sess w batch_pred_list X_test_batch =
     bind_err (cnn_run_logits self sess w X_test_batch 1.0)
       (\<lambda>batch_pred. Inr (batch_pred_list @ [batch_pred]))"

definition cnn_predict ::
  "Conv1DClassifier \<Rightarrow> ('w, 'x, 'y) cnn_session \<Rightarrow> 'w \<Rightarrow> 'x list \<Rightarrow> int
     \<Rightarrow> py_error + real list list" where
  "cnn_predict self sess w X_test batch_size =
     bind_err (gen_batch X_test batch_size) (\<lambda>batches.
     bind_err (fold_err (cnn_predict_step self sess w) [] batches) np_concatenate)"

subsection \<open>\<^verbatim>\<open>fit\<close>\<close>

record log =
  log_loss :: "real list"
  log_acc :: "real list"
  log_val_loss :: "real list"
  log_val_acc :: "real list"

text \<open>
  The local variables of \<^verbatim>\<open>fit\<close> that live across epochs, with the session and the
  random state of the shuffle. \<^verbatim>\<open>loss\<close>, \<^verbatim>\<open>acc\<close> and \<^verbatim>\<open>lr\<close> are bound together by
  the first training batch; before that they are unbound (\<open>None\<close>).
\<close>

record ('w, 'g, 'x, 'y) fit_locals =
  fl_sess :: 'w
  fl_rng :: 'g
  fl_X :: "'x list"
  fl_Y :: "'y list"
  fl_log :: log
  fl_global_step :: int
  fl_loss_acc_lr :: "(real \<times> real \<times> real) option"

text \<open>
  \<^verbatim>\<open>sklearn.utils.shuffle(X, Y)\<close>: the permutation is a parameter (a function of a random
  state); arrays of different lengths make it raise \<^verbatim>\<open>ValueError\<close>.
\<close>

definition sk_shuffle ::
  "('g \<Rightarrow> 'x list \<Rightarrow> 'y list \<Rightarrow> ('x list \<times> 'y list) \<times> 'g) \<Rightarrow> 'g \<Rightarrow> 'x list \<Rightarrow> 'y list
     \<Rightarrow> py_error + (('x list \<times> 'y list) \<times> 'g)" where
  "sk_shuffle shuffle g X Y =
     (if length X \<noteq> length Y then Inl ValueError else Inr (shuffle g X Y))"

text \<open>
  Appending an epoch's results; \<^verbatim>\<open>loss\<close> unbound raises \<^verbatim>\<open>UnboundLocalError\<close>
  at \<^verbatim>\<open>log['loss'].append(loss)\<close>.
\<close>

definition append_to_log ::
  "log \<Rightarrow> (real \<times> real \<times> real) option \<Rightarrow> (real \<times> real) option \<Rightarrow> py_error + log" where
  "append_to_log lg loss_acc_lr val =
     (case loss_acc_lr of
        None \<Rightarrow> Inl UnboundLocalError
      | Some (loss, acc, lr) \<Rightarrow>
          let lg = lg\<lparr>log_loss := log_loss lg @ [loss]\<rparr>;
              lg = lg\<lparr>log_acc := log_acc lg @ [acc]\<rparr>
          in (case val of
                None \<Rightarrow> Inr lg
              | Some (val_loss, val_acc) \<Rightarrow>
                  let lg = lg\<lparr>log_val_loss := log_val_loss lg @ [val_loss]\<rparr>
                  in Inr (lg\<lparr>log_val_acc := log_val_acc lg @ [val_acc]\<rparr>)))"

definition empty_log :: log where
  "empty_log = \<lparr>log_loss = [], log_acc = [], log_val_loss = [], log_val_acc = []\<rparr>"

text \<open>
  \<^verbatim>\<open>val_loss, val_acc = self.list_avg(val_loss_list), self.list_avg(val_acc_list)\<close>, the line
  that ends the validation pass of both classes.
\<close>

definition val_averages :: "real list \<times> real list \<Rightarrow> py_error + real \<times> real" where
  "val_averages score_lists =
     (case score_lists of (val_loss_list, val_acc_list) \<Rightarrow>
        bind_err (list_avg val_loss_list) (\<lambda>val_loss.
        bind_err (list_avg val_acc_list) (\<lambda>val_acc. Inr (val_loss, val_acc))))"

paragraph \<open>\<^verbatim>\<open>Conv1DClassifier.fit\<close>\<close>

text \<open>The body of the training loop, on \<open>(session, global_step, (loss, acc, lr))\<close>.\<close>

definition cnn_train_step ::
  "Conv1DClassifier \<Rightarrow> ('w, 'x, 'y) cnn_session \<Rightarrow> bool \<Rightarrow> int \<Rightarrow> int \<Rightarrow> int \<Rightarrow> real
     \<Rightarrow> 'w \<times> int \<times> (real \<times> real \<times> real) option \<Rightarrow> 'x list \<times> 'y list
     \<Rightarrow> py_error + 'w \<times> int \<times> (real \<times> real \<times> real) option" where
  "cnn_train_step self sess en_exp_decay n_epoch len_X batch_size keep_prob st batch =
     (case st of (w, global_step, _) \<Rightarrow>
      case batch of (X_batch, Y_batch) \<Rightarrow>
        bind_err (cnn_decrease_lr en_exp_decay (real_of_int global_step) n_epoch len_X batch_size)
          (\<lambda>lr. bind_err (cnn_run_train self sess w X_batch Y_batch lr keep_prob)
             (\<lambda>fetched. case fetched of (w', loss, acc) \<Rightarrow>
                Inr (w', global_step + 1, Some (loss, acc, lr)))))"

text \<open>The body of the validation loop, on \<open>(val_loss_list, val_acc_list)\<close>.\<close>

definition cnn_val_step ::
  "Conv1DClassifier \<Rightarrow> ('w, 'x, 'y) cnn_session \<Rightarrow> 'w \<Rightarrow> real list \<times> real list
     \<Rightarrow> 'x list \<times> 'y list \<Rightarrow> py_error + real list \<times> real list" where
  "cnn_val_step self sess w score_lists batch =
     (case score_lists of (val_loss_list, val_acc_list) \<Rightarrow>
      case batch of (X_test_batch, Y_test_batch) \<Rightarrow>
        bind_err (cnn_run_eval self sess w X_test_batch Y_test_batch 1.0)
          (\<lambda>fetched. case fetched of (v_loss, v_acc) \<Rightarrow>
             Inr (val_loss_list @ [v_loss], val_acc_list @ [v_acc])))"

definition cnn_val_lists ::
  "Conv1DClassifier \<Rightarrow> ('w, 'x, 'y) cnn_session \<Rightarrow> 'w \<Rightarrow> 'x list \<times> 'y list \<Rightarrow> int
     \<Rightarrow> py_error + real list \<times> real list" where
  "cnn_val_lists self sess w val_data batch_size =
     bind_err (gen_batch (fst val_data) batch_size) (\<lambda>X_batches.
     bind_err (gen_batch (snd val_data) batch_size) (\<lambda>Y_batches.
       fold_err (cnn_val_step self sess w) ([], []) (zip X_batches Y_batches)))"

definition cnn_validate ::
  "Conv1DClassifier \<Rightarrow> ('w, 'x, 'y) cnn_session \<Rightarrow> 'w \<Rightarrow> 'x list \<times> 'y list \<Rightarrow> int
     \<Rightarrow> py_error + real \<times> real" where
  "cnn_validate self sess w val_data batch_size =
     bind_err (cnn_val_lists self sess w val_data batch_size) val_averages"

text \<open>One pass of \<^verbatim>\<open>for epoch in range(n_epoch)\<close>. The prints are left out.\<close>

definition cnn_fit_epoch ::
  "Conv1DClassifier \<Rightarrow> ('w, 'x, 'y) cnn_session
     \<Rightarrow> ('g \<Rightarrow> 'x list \<Rightarrow> 'y list \<Rightarrow> ('x list \<times> 'y list) \<times> 'g)
     \<Rightarrow> ('x list \<times> 'y list) option \<Rightarrow> int \<Rightarrow> int \<Rightarrow> real \<Rightarrow> bool \<Rightarrow> bool
     \<Rightarrow> ('w, 'g, 'x, 'y) fit_locals \<Rightarrow> py_error + ('w, 'g, 'x, 'y) fit_locals" where
  "cnn_fit_epoch self sess shuffle val_data n_epoch batch_size keep_prob en_exp_decay en_shuffle st =
     bind_err (if en_shuffle then sk_shuffle shuffle (fl_rng st) (fl_X st) (fl_Y st)
               else Inr ((fl_X st, fl_Y st), fl_rng st)) (\<lambda>shuffled.
     case shuffled of ((X, Y), g) \<Rightarrow>
     bind_err (gen_batch X batch_size) (\<lambda>X_batches.
     bind_err (gen_batch Y batch_size) (\<lambda>Y_batches.
     bind_err (fold_err
                 (cnn_train_step self sess en_exp_decay n_epoch (int (length X)) batch_size keep_prob)
                 (fl_sess st, fl_global_step st, fl_loss_acc_lr st) (zip X_batches Y_batches))
       (\<lambda>trained. case trained of (w, global_step, loss_acc_lr) \<Rightarrow>
     bind_err (case val_data of
                 None \<Rightarrow> Inr None
               | Some vd \<Rightarrow> bind_err (cnn_validate self sess w vd batch_size) (\<lambda>v. Inr (Some v)))
       (\<lambda>val.
     bind_err (append_to_log (fl_log st) loss_acc_lr val) (\<lambda>lg.
       Inr (st\<lparr>fl_sess := w, fl_rng := g, fl_X := X, fl_Y := Y, fl_log := lg,
               fl_global_step := global_step, fl_loss_acc_lr := loss_acc_lr\<rparr>)))))))"

definition cnn_fit_epochs ::
  "Conv1DClassifier \<Rightarrow> ('w, 'x, 'y) cnn_session
     \<Rightarrow> ('g \<Rightarrow> 'x list \<Rightarrow> 'y list \<Rightarrow> ('x list \<times> 'y list) \<times> 'g)
     \<Rightarrow> 'w \<Rightarrow> 'g \<Rightarrow> 'x list \<Rightarrow> 'y list \<Rightarrow> ('x list \<times> 'y list) option \<Rightarrow> int \<Rightarrow> int \<Rightarrow> real
     \<Rightarrow> bool \<Rightarrow> bool \<Rightarrow> nat \<Rightarrow> py_error + ('w, 'g, 'x, 'y) fit_locals" where
  "cnn_fit_epochs self sess shuffle w g X Y val_data n_epoch batch_size keep_prob en_exp_decay
       en_shuffle k =
     repeat_err k
       (cnn_fit_epoch self sess shuffle val_data n_epoch batch_size keep_prob en_exp_decay en_shuffle)
       \<lparr>fl_sess = cs_global_variables_initializer sess w, fl_rng = g, fl_X = X, fl_Y = Y,
        fl_log = empty_log, fl_global_step = 0, fl_loss_acc_lr = None\<rparr>"

text \<open>
  \<^verbatim>\<open>fit\<close> runs \<^verbatim>\<open>range(n_epoch)\<close> epochs (none when \<^verbatim>\<open>n_epoch\<close> is not positive) and
  returns the log; the session and the random state it leaves behind are returned with it.
\<close>

definition cnn_fit ::
  "Conv1DClassifier \<Rightarrow> ('w, 'x, 'y) cnn_session
     \<Rightarrow> ('g \<Rightarrow> 'x list \<Rightarrow> 'y list \<Rightarrow> ('x list \<times> 'y list) \<times> 'g)
     \<Rightarrow> 'w \<Rightarrow> 'g \<Rightarrow> 'x list \<Rightarrow> 'y list \<Rightarrow> ('x list \<times> 'y list) option \<Rightarrow> int \<Rightarrow> int \<Rightarrow> real
     \<Rightarrow> bool \<Rightarrow> bool \<Rightarrow> py_error + log \<times> 'w \<times> 'g" where
  "cnn_fit self sess shuffle w g X Y val_data n_epoch batch_size keep_prob en_exp_decay en_shuffle =
     bind_err (cnn_fit_epochs self sess shuffle w g X Y val_data n_epoch batch_size keep_prob
                 en_exp_decay en_shuffle (nat n_epoch))
       (\<lambda>st. Inr (fl_log st, fl_sess st, fl_rng st))"

paragraph \<open>\<^verbatim>\<open>RNNTextClassifier.fit\<close>\<close>

text \<open>
  The body of the training loop, on \<open>(session, next_state, global_step, (loss, acc, lr))\<close>.
\<close>

definition rnn_train_step ::
  "('w, 'x, 'y, 's) rnn_session \<Rightarrow> bool \<Rightarrow> bool \<Rightarrow> int \<Rightarrow> int \<Rightarrow> int \<Rightarrow> real
     \<Rightarrow> 'w \<times> 's \<times> int \<times> (real \<times> real \<times> real) option \<Rightarrow> 'x list \<times> 'y list
     \<Rightarrow> py_error + 'w \<times> 's \<times> int \<times> (real \<times> real \<times> real) option" where
  "rnn_train_step sess stateful en_exp_decay n_epoch len_X batch_size rnn_keep_prob st batch =
     (case st of (w, next_state, global_step, _) \<Rightarrow>
      case batch of (X_batch, Y_batch) \<Rightarrow>
        bind_err (rnn_decrease_lr en_exp_decay (real_of_int global_step) n_epoch len_X batch_size)
          (\<lambda>lr.
            if stateful \<and> int (length X_batch) = batch_size
            then bind_err (rnn_run_train sess w X_batch Y_batch batch_size rnn_keep_prob lr
                             (Some next_state))
                   (\<lambda>fetched. case fetched of (w', next_state', loss, acc) \<Rightarrow>
                      Inr (w', next_state', global_step + 1, Some (loss, acc, lr)))
            else bind_err (rnn_run_train sess w X_batch Y_batch (int (length X_batch)) rnn_keep_prob
                             lr None)
                   (\<lambda>fetched. case fetched of (w', _, loss, acc) \<Rightarrow>
                      Inr (w', next_state, global_step + 1, Some (loss, acc, lr)))))"

definition rnn_train_loop ::
  "('w, 'x, 'y, 's) rnn_session \<Rightarrow> bool \<Rightarrow> bool \<Rightarrow> int \<Rightarrow> int \<Rightarrow> int \<Rightarrow> real
     \<Rightarrow> 'w \<times> 's \<times> int \<times> (real \<times> real \<times> real) option \<Rightarrow> ('x list \<times> 'y list) list
     \<Rightarrow> py_error + 'w \<times> 's \<times> int \<times> (real \<times> real \<times> real) option" where
  "rnn_train_loop sess stateful en_exp_decay n_epoch len_X batch_size rnn_keep_prob st batches =
     fold_err (rnn_train_step sess stateful en_exp_decay n_epoch len_X batch_size rnn_keep_prob)
       st batches"

text \<open>The body of the validation loop, on \<open>(next_state, val_loss_list, val_acc_list)\<close>.\<close>

definition rnn_val_step ::
  "('w, 'x, 'y, 's) rnn_session \<Rightarrow> bool \<Rightarrow> 'w \<Rightarrow> int \<Rightarrow> 's \<times> real list \<times> real list
     \<Rightarrow> 'x list \<times> 'y list \<Rightarrow> py_error + 's \<times> real list \<times> real list" where
  "rnn_val_step sess stateful w batch_size acc batch =
     (case acc of (next_state, val_loss_list, val_acc_list) \<Rightarrow>
      case batch of (X_test_batch, Y_test_batch) \<Rightarrow>
        if stateful \<and> int (length X_test_batch) = batch_size
        then bind_err (rnn_run_eval sess w X_test_batch Y_test_batch batch_size 1.0
                         (Some next_state))
               (\<lambda>fetched. case fetched of (v_loss, v_acc, next_state') \<Rightarrow>
                  Inr (next_state', val_loss_list @ [v_loss], val_acc_list @ [v_acc]))
        else bind_err (rnn_run_eval sess w X_test_batch Y_test_batch (int (length X_test_batch))
                         1.0 None)
               (\<lambda>fetched. case fetched of (v_loss, v_acc, _) \<Rightarrow>
                  Inr (next_state, val_loss_list @ [v_loss], val_acc_list @ [v_acc])))"

definition rnn_val_loop ::
  "('w, 'x, 'y, 's) rnn_session \<Rightarrow> bool \<Rightarrow> 'w \<Rightarrow> int \<Rightarrow> 's \<Rightarrow> ('x list \<times> 'y list) list
     \<Rightarrow> py_error + 's \<times> real list \<times> real list" where
  "rnn_val_loop sess stateful w batch_size next_state batches =
     fold_err (rnn_val_step sess stateful w batch_size) (next_state, [], []) batches"

text \<open>The validation pass fetches the zero state of \<open>batch_size\<close> rows before its loop.\<close>

definition rnn_val_lists ::
  "('w, 'x, 'y, 's) rnn_session \<Rightarrow> bool \<Rightarrow> 'w \<Rightarrow> 'x list \<times> 'y list \<Rightarrow> int
     \<Rightarrow> py_error + real list \<times> real list" where
  "rnn_val_lists sess stateful w val_data batch_size =
     bind_err (rnn_initial_state sess batch_size None) (\<lambda>next_state.
     bind_err (gen_batch (fst val_data) batch_size) (\<lambda>X_batches.
     bind_err (gen_batch (snd val_data) batch_size) (\<lambda>Y_batches.
     bind_err (rnn_val_loop sess stateful w batch_size next_state (zip X_batches Y_batches))
       (\<lambda>looped. Inr (snd looped)))))"

definition rnn_validate ::
  "('w, 'x, 'y, 's) rnn_session \<Rightarrow> bool \<Rightarrow> 'w \<Rightarrow> 'x list \<times> 'y list \<Rightarrow> int
     \<Rightarrow> py_error + real \<times> real" where
  "rnn_validate sess stateful w val_data batch_size =
     bind_err (rnn_val_lists sess stateful w val_data batch_size) val_averages"

text \<open>
  One pass of \<^verbatim>\<open>for epoch in range(n_epoch)\<close>: the shuffle, the zero state of
  \<open>batch_size\<close> rows, the training loop, the validation pass, the log.
\<close>

definition rnn_fit_epoch ::
  "('w, 'x, 'y, 's) rnn_session \<Rightarrow> ('g \<Rightarrow> 'x list \<Rightarrow> 'y list \<Rightarrow> ('x list \<times> 'y list) \<times> 'g)
     \<Rightarrow> bool \<Rightarrow> ('x list \<times> 'y list) option \<Rightarrow> int \<Rightarrow> int \<Rightarrow> bool \<Rightarrow> bool \<Rightarrow> real
     \<Rightarrow> ('w, 'g, 'x, 'y) fit_locals \<Rightarrow> py_error + ('w, 'g, 'x, 'y) fit_locals" where
  "rnn_fit_epoch sess shuffle stateful val_data n_epoch batch_size en_exp_decay en_shuffle
       rnn_keep_prob st =
     bind_err (if en_shuffle then sk_shuffle shuffle (fl_rng st) (fl_X st) (fl_Y st)
               else Inr ((fl_X st, fl_Y st), fl_rng st)) (\<lambda>shuffled.
     case shuffled of ((X, Y), g) \<Rightarrow>
     bind_err (rnn_initial_state sess batch_size None) (\<lambda>next_state.
     bind_err (gen_batch X batch_size) (\<lambda>X_batches.
     bind_err (gen_batch Y batch_size) (\<lambda>Y_batches.
     bind_err (rnn_train_loop sess stateful en_exp_decay n_epoch (int (length X)) batch_size
                 rnn_keep_prob (fl_sess st, next_state, fl_global_step st, fl_loss_acc_lr st)
                 (zip X_batches Y_batches))
       (\<lambda>trained. case trained of (w, _, global_step, loss_acc_lr) \<Rightarrow>
     bind_err (case val_data of
                 None \<Rightarrow> Inr None
               | Some vd \<Rightarrow> bind_err (rnn_validate sess stateful w vd batch_size) (\<lambda>v. Inr (Some v)))
       (\<lambda>val.
     bind_err (append_to_log (fl_log st) loss_acc_lr val) (\<lambda>lg.
       Inr (st\<lparr>fl_sess := w, fl_rng := g, fl_X := X, fl_Y := Y, fl_log := lg,
               fl_global_step := global_step, fl_loss_acc_lr := loss_acc_lr\<rparr>))))))))"

definition rnn_fit_epochs ::
  "('w, 'x, 'y, 's) rnn_session \<Rightarrow> ('g \<Rightarrow> 'x list \<Rightarrow> 'y list \<Rightarrow> ('x list \<times> 'y list) \<times> 'g)
     \<Rightarrow> bool \<Rightarrow> 'w \<Rightarrow> 'g \<Rightarrow> 'x list \<Rightarrow> 'y list \<Rightarrow> ('x list \<times> 'y list) option \<Rightarrow> int \<Rightarrow> int
     \<Rightarrow> bool \<Rightarrow> bool \<Rightarrow> real \<Rightarrow> nat \<Rightarrow> py_error + ('w, 'g, 'x, 'y) fit_locals" where
  "rnn_fit_epochs sess shuffle stateful w g X Y val_data n_epoch batch_size en_exp_decay en_shuffle
       rnn_keep_prob k =
     repeat_err k
       (rnn_fit_epoch sess shuffle stateful val_data n_epoch batch_size en_exp_decay en_shuffle
          rnn_keep_prob)
       \<lparr>fl_sess = rs_global_variables_initializer sess w, fl_rng = g, fl_X = X, fl_Y = Y,
        fl_log = empty_log, fl_global_step = 0, fl_loss_acc_lr = None\<rparr>"

definition rnn_fit ::
  "('w, 'x, 'y, 's) rnn_session \<Rightarrow> ('g \<Rightarrow> 'x list \<Rightarrow> 'y list \<Rightarrow> ('x list \<times> 'y list) \<times> 'g)
     \<Rightarrow> bool \<Rightarrow> 'w \<Rightarrow> 'g \<Rightarrow> 'x list \<Rightarrow> 'y list \<Rightarrow> ('x list \<times> 'y list) option \<Rightarrow> int \<Rightarrow> int
     \<Rightarrow> bool \<Rightarrow> bool \<Rightarrow> real \<Rightarrow> py_error + log \<times> 'w \<times> 'g" where
  "rnn_fit sess shuffle stateful w g X Y val_data n_epoch batch_size en_exp_decay en_shuffle
       rnn_keep_prob =
     bind_err (rnn_fit_epochs sess shuffle stateful w g X Y val_data n_epoch batch_size
                 en_exp_decay en_shuffle rnn_keep_prob (nat n_epoch))
       (\<lambda>st. Inr (fl_log st, fl_sess st, fl_rng st))"
subsection \<open>The two ways a batch can be run, in the words of the \<^verbatim>\<open>stateful\<close> docstring\<close>

text \<open>
  A batch is run \<^emph>\<open>carrying\<close> the state when the graph starts from the carried state and the
  final state of the run is carried on; it is run \<^emph>\<open>fresh\<close> when the graph starts from the
  zero state of the batch's own size and the carried state is left as it was. These are
  not taken from the loops of the source; the loops are compared with them below.
\<close>

definition rnn_predict_carry ::
  "('w, 'x, 'y, 's) rnn_session \<Rightarrow> 'w \<Rightarrow> 's \<times> real list list list \<Rightarrow> 'x list
     \<Rightarrow> 's \<times> real list list list" where
  "rnn_predict_carry sess w acc batch =
     (case acc of (carried, preds) \<Rightarrow>
      case rs_logits sess w batch 1 carried of
        (pred, final) \<Rightarrow> (final, preds @ [pred]))"

definition rnn_predict_fresh ::
  "('w, 'x, 'y, 's) rnn_session \<Rightarrow> 'w \<Rightarrow> 's \<times> real list list list \<Rightarrow> 'x list
     \<Rightarrow> 's \<times> real list list list" where
  "rnn_predict_fresh sess w acc batch =
     (case acc of (carried, preds) \<Rightarrow>
      case rs_logits sess w batch 1 (rs_zero_state sess (int (length batch))) of
        (pred, final) \<Rightarrow> (carried, preds @ [pred]))"

definition rnn_val_carry ::
  "('w, 'x, 'y, 's) rnn_session \<Rightarrow> 'w \<Rightarrow> 's \<times> real list \<times> real list \<Rightarrow> 'x list \<times> 'y list
     \<Rightarrow> 's \<times> real list \<times> real list" where
  "rnn_val_carry sess w acc batch =
     (case acc of (carried, losses, accs) \<Rightarrow>
      case batch of (xb, yb) \<Rightarrow>
      case rs_eval sess w xb yb 1 carried of
        (v_loss, v_acc, final) \<Rightarrow> (final, losses @ [v_loss], accs @ [v_acc]))"

definition rnn_val_fresh ::
  "('w, 'x, 'y, 's) rnn_session \<Rightarrow> 'w \<Rightarrow> 's \<times> real list \<times> real list \<Rightarrow> 'x list \<times> 'y list
     \<Rightarrow> 's \<times> real list \<times> real list" where
  "rnn_val_fresh sess w acc batch =
     (case acc of (carried, losses, accs) \<Rightarrow>
      case batch of (xb, yb) \<Rightarrow>
      case rs_eval sess w xb yb 1 (rs_zero_state sess (int (length xb))) of
        (v_loss, v_acc, final) \<Rightarrow> (carried, losses @ [v_loss], accs @ [v_acc]))"

definition rnn_train_carry ::
  "('w, 'x, 'y, 's) rnn_session \<Rightarrow> bool \<Rightarrow> int \<Rightarrow> int \<Rightarrow> int \<Rightarrow> real
     \<Rightarrow> 'w \<times> 's \<times> int \<times> (real \<times> real \<times> real) option \<Rightarrow> 'x list \<times> 'y list
     \<Rightarrow> py_error + 'w \<times> 's \<times> int \<times> (real \<times> real \<times> real) option" where
  "rnn_train_carry sess en_exp_decay n_epoch len_X batch_size rnn_keep_prob st batch =
     (case st of (w, carried, global_step, _) \<Rightarrow>
      case batch of (xb, yb) \<Rightarrow>
        bind_err (rnn_decrease_lr en_exp_decay (real_of_int global_step) n_epoch len_X batch_size)
          (\<lambda>lr. case rs_train sess w xb yb rnn_keep_prob lr carried of
                   (w', final, loss, acc) \<Rightarrow>
                     Inr (w', final, global_step + 1, Some (loss, acc, lr))))"

definition rnn_train_fresh ::
  "('w, 'x, 'y, 's) rnn_session \<Rightarrow> bool \<Rightarrow> int \<Rightarrow> int \<Rightarrow> int \<Rightarrow> real
     \<Rightarrow> 'w \<times> 's \<times> int \<times> (real \<times> real \<times> real) option \<Rightarrow> 'x list \<times> 'y list
     \<Rightarrow> py_error + 'w \<times> 's \<times> int \<times> (real \<times> real \<times> real) option" where
  "rnn_train_fresh sess en_exp_decay n_epoch len_X batch_size rnn_keep_prob st batch =
     (case st of (w, carried, global_step, _) \<Rightarrow>
      case batch of (xb, yb) \<Rightarrow>
        bind_err (rnn_decrease_lr en_exp_decay (real_of_int global_step) n_epoch len_X batch_size)
          (\<lambda>lr. case rs_train sess w xb yb rnn_keep_prob lr
                        (rs_zero_state sess (int (length xb))) of
                   (w', final, loss, acc) \<Rightarrow>
                     Inr (w', carried, global_step + 1, Some (loss, acc, lr))))"

text \<open>
  A pass over the batches of one loop, in the same words: the pass starts with the zero
  state of \<open>batch_size\<close> rows as the carried state; when the classifier is stateful a batch
  of exactly \<open>batch_size\<close> rows is run carrying the state and every other batch is run
  fresh; when it is not, every batch is run fresh.
\<close>

definition rnn_predict_pass ::
  "('w, 'x, 'y, 's) rnn_session \<Rightarrow> bool \<Rightarrow> 'w \<Rightarrow> int \<Rightarrow> 'x list list \<Rightarrow> 's \<times> real list list list" where
  "rnn_predict_pass sess stateful w batch_size batches =
     foldl (\<lambda>acc batch. if stateful \<and> int (length batch) = batch_size
                         then rnn_predict_carry sess w acc batch
                         else rnn_predict_fresh sess w acc batch)
       (rs_zero_state sess batch_size, []) batches"

definition rnn_val_pass ::
  "('w, 'x, 'y, 's) rnn_session \<Rightarrow> bool \<Rightarrow> 'w \<Rightarrow> int \<Rightarrow> ('x list \<times> 'y list) list
     \<Rightarrow> 's \<times> real list \<times> real list" where
  "rnn_val_pass sess stateful w batch_size batches =
     foldl (\<lambda>acc batch. if stateful \<and> int (length (fst batch)) = batch_size
                         then rnn_val_carry sess w acc batch
                         else rnn_val_fresh sess w acc batch)
       (rs_zero_state sess batch_size, [], []) batches"

definition rnn_train_pass ::
  "('w, 'x, 'y, 's) rnn_session \<Rightarrow> bool \<Rightarrow> bool \<Rightarrow> int \<Rightarrow> int \<Rightarrow> int \<Rightarrow> real
     \<Rightarrow> 'w \<times> int \<times> (real \<times> real \<times> real) option \<Rightarrow> ('x list \<times> 'y list) list
     \<Rightarrow> py_error + 'w \<times> 's \<times> int \<times> (real \<times> real \<times> real) option" where
  "rnn_train_pass sess stateful en_exp_decay n_epoch len_X batch_size rnn_keep_prob st batches =
     (case st of (w, global_step, loss_acc_lr) \<Rightarrow>
        fold_err (\<lambda>st batch. if stateful \<and> int (length (fst batch)) = batch_size
                              then rnn_train_carry sess en_exp_decay n_epoch len_X batch_size
                                     rnn_keep_prob st batch
                              else rnn_train_fresh sess en_exp_decay n_epoch len_X batch_size
                                     rnn_keep_prob st batch)
          (w, rs_zero_state sess batch_size, global_step, loss_acc_lr) batches)"

text \<open>
  The batches of a sequence for a positive batch size \<open>b\<close>, from position \<open>i\<close> on:
  the slices of \<open>b\<close> elements at \<open>i\<close>, \<open>i + b\<close>, \<open>i + 2 b\<close>, and so on.
\<close>

definition batches_from :: "nat \<Rightarrow> 'a list \<Rightarrow> nat \<Rightarrow> 'a list list" where
  "batches_from i arr b = map (\<lambda>j. take b (drop j arr)) (range_from i (length arr) b)"

text \<open>
  An epoch of \<^verbatim>\<open>RNNTextClassifier.fit\<close> for a positive batch size, in these words: the
  training arrays (shuffled when asked) are cut into batches and trained on in one pass; the
  validation data, when given, are cut into batches and scored in one pass, and the two
  lists of scores are averaged; the results go to the log.
\<close>

definition rnn_epoch_in_passes ::
  "('w, 'x, 'y, 's) rnn_session \<Rightarrow> ('g \<Rightarrow> 'x list \<Rightarrow> 'y list \<Rightarrow> ('x list \<times> 'y list) \<times> 'g)
     \<Rightarrow> bool \<Rightarrow> ('x list \<times> 'y list) option \<Rightarrow> int \<Rightarrow> int \<Rightarrow> bool \<Rightarrow> bool \<Rightarrow> real
     \<Rightarrow> ('w, 'g, 'x, 'y) fit_locals \<Rightarrow> py_error + ('w, 'g, 'x, 'y) fit_locals" where
  "rnn_epoch_in_passes sess shuffle stateful val_data n_epoch batch_size en_exp_decay en_shuffle
       rnn_keep_prob st =
     bind_err (if en_shuffle then sk_shuffle shuffle (fl_rng st) (fl_X st) (fl_Y st)
               else Inr ((fl_X st, fl_Y st), fl_rng st)) (\<lambda>shuffled.
     case shuffled of ((X, Y), g) \<Rightarrow>
     bind_err (rnn_train_pass sess stateful en_exp_decay n_epoch (int (length X)) batch_size
                 rnn_keep_prob (fl_sess st, fl_global_step st, fl_loss_acc_lr st)
                 (zip (batches_from 0 X (nat batch_size)) (batches_from 0 Y (nat batch_size))))
       (\<lambda>trained. case trained of (w, _, global_step, loss_acc_lr) \<Rightarrow>
     bind_err (case val_data of
                 None \<Rightarrow> Inr None
               | Some vd \<Rightarrow>
                   bind_err (val_averages
                               (snd (rnn_val_pass sess stateful w batch_size
                                       (zip (batches_from 0 (fst vd) (nat batch_size))
                                            (batches_from 0 (snd vd) (nat batch_size))))))
                     (\<lambda>v. Inr (Some v)))
       (\<lambda>val.
     bind_err (append_to_log (fl_log st) loss_acc_lr val) (\<lambda>lg.
       Inr (st\<lparr>fl_sess := w, fl_rng := g, fl_X := X, fl_Y := Y, fl_log := lg,
               fl_global_step := global_step, fl_loss_acc_lr := loss_acc_lr\<rparr>)))))"

subsection \<open>Reading the result of \<^verbatim>\<open>np.argmax\<close>\<close>

text \<open>\<open>r\<close> is the first index at which \<open>row\<close> takes its maximum.\<close>

definition first_argmax :: "real list \<Rightarrow> nat \<Rightarrow> bool" where
  "first_argmax row r \<longleftrightarrow>
     r < length row \<and> list_all (\<lambda>v. v \<le> row ! r) row \<and> list_all (\<lambda>v. v < row ! r) (take r row)"

subsection \<open>Example sessions\<close>

text \<open>
  Two small sessions on which the functions above can be run: the session state is one
  real number, an input row is a list of reals, and the recurrent state is a real.
\<close>

definition example_rnn_session :: "(real, real list, nat, real) rnn_session" where
  "example_rnn_session =
     \<lparr>rs_global_variables_initializer = (\<lambda>w. 0),
      rs_zero_state = (\<lambda>n. 0),
      rs_train = (\<lambda>w X_batch Y_batch keep_prob lr st. (w + lr, st + 1, w, 1)),
      rs_eval = (\<lambda>w X_batch Y_batch keep_prob st. (w + st, real (length X_batch), st + 1)),
      rs_logits = (\<lambda>w X_batch keep_prob st. (map (\<lambda>row. [sum_list row + st, w]) X_batch, st + 1))\<rparr>"

definition example_cnn_session :: "(real, real list, nat) cnn_session" where
  "example_cnn_session =
     \<lparr>cs_global_variables_initializer = (\<lambda>w. 0),
      cs_train = (\<lambda>w X_batch Y_batch lr keep_prob. (w + lr, w, 1)),
      cs_eval = (\<lambda>w X_batch Y_batch keep_prob. (w, real (length X_batch))),
      cs_logits = (\<lambda>w X_batch keep_prob. map (\<lambda>row. [sum_list row, w]) X_batch)\<rparr>"

text \<open>A recurrent session over the same logits as \<open>example_cnn_session\<close>, ignoring its state.\<close>

definition example_stateless_rnn_session :: "(real, real list, nat, real) rnn_session" where
  "example_stateless_rnn_session =
     \<lparr>rs_global_variables_initializer = (\<lambda>w. 0),
      rs_zero_state = (\<lambda>n. 0),
      rs_train = (\<lambda>w X_batch Y_batch keep_prob lr st. (w + lr, st, w, 1)),
      rs_eval = (\<lambda>w X_batch Y_batch keep_prob st. (w, real (length X_batch), st)),
      rs_logits = (\<lambda>w X_batch keep_prob st. (map (\<lambda>row. [sum_list row, w]) X_batch, st))\<rparr>"

definition example_shuffle :: "nat \<Rightarrow> real list list \<Rightarrow> nat list \<Rightarrow> (real list list \<times> nat list) \<times> nat" where
  "example_shuffle g X Y = ((rev X, rev Y), Suc g)"

subsection \<open>Facts about \<^verbatim>\<open>gen_batch\<close>\<close>

lemma batches_from_step:
  "0 < b \<Longrightarrow> i < length arr \<Longrightarrow>
     batches_from i arr b = take b (drop i arr) # batches_from (i + b) arr b"
  by (simp add: batches_from_def range_from.simps [of i])

lemma batches_from_done:
  "length arr \<le> i \<Longrightarrow> batches_from i arr b = []"
  by (simp add: batches_from_def range_from.simps [of i])

lemma concat_batches_from:
  "0 < b \<Longrightarrow> concat (batches_from i arr b) = drop i arr"
proof (induction i "length arr" b arbitrary: arr rule: range_from.induct)
  case (1 i step)
  show ?case
  proof (cases "i < length arr")
    case True
    with 1 have "concat (batches_from (i + step) arr step) = drop (i + step) arr"
      by simp
    with True 1(2) show ?thesis
      by (simp add: batches_from_step add.commute [of i step] flip: drop_drop)
  next
    case False
    then show ?thesis by (simp add: batches_from_done)
  qed
qed

lemma batches_from_full:
  "0 < b \<Longrightarrow> Suc k < length (batches_from i arr b) \<Longrightarrow>
     length (batches_from i arr b ! k) = b"
proof (induction i "length arr" b arbitrary: arr k rule: range_from.induct)
  case (1 i step)
  show ?case
  proof (cases "i < length arr")
    case True
    note step = batches_from_step [OF 1(2) True]
    show ?thesis
    proof (cases k)
      case 0
      with 1(3) step have "batches_from (i + step) arr step \<noteq> []" by auto
      then have "i + step < length arr"
        using batches_from_done [of arr "i + step" step] by (cases "i + step < length arr") auto
      with 0 step show ?thesis by simp
    next
      case (Suc k')
      with 1(3) step have "Suc k' < length (batches_from (i + step) arr step)" by simp
      with 1(1) [OF _ refl] 1(2) True have "length (batches_from (i + step) arr step ! k') = step"
        by simp
      with Suc step show ?thesis by simp
    qed
  next
    case False
    with 1(3) show ?thesis by (simp add: batches_from_done)
  qed
qed

lemma batches_from_last:
  "0 < b \<Longrightarrow> i < length arr \<Longrightarrow>
     length (last (batches_from i arr b)) =
       (if (length arr - i) mod b = 0 then b else (length arr - i) mod b)"
proof (induction i "length arr" b arbitrary: arr rule: range_from.induct)
  case (1 i step)
  note step = batches_from_step [OF 1(2) 1(3)]
  show ?case
  proof (cases "i + step < length arr")
    case True
    then have ne: "batches_from (i + step) arr step \<noteq> []"
      using batches_from_step [OF 1(2) True] by simp
    have "length (last (batches_from (i + step) arr step)) =
        (if (length arr - (i + step)) mod step = 0 then step
         else (length arr - (i + step)) mod step)"
      using 1(1) [OF _ refl] 1(2) 1(3) True by simp
    moreover have "(length arr - (i + step)) mod step = (length arr - i) mod step"
      using True by (simp add: le_mod_geq)
    ultimately show ?thesis using step ne by simp
  next
    case False
    then have "batches_from (i + step) arr step = []" by (simp add: batches_from_done)
    moreover have "length arr - i \<le> step" using False by simp
    ultimately show ?thesis using step 1(3) 1(2)
      by (cases "length arr - i = step") (auto simp: min_def)
  qed
qed

lemma batches_from_nonempty:
  "0 < b \<Longrightarrow> xs \<in> set (batches_from i arr b) \<Longrightarrow> xs \<noteq> []"
proof (induction i "length arr" b arbitrary: arr rule: range_from.induct)
  case (1 i step)
  show ?case
  proof (cases "i < length arr")
    case True
    with 1 show ?thesis by (auto simp: batches_from_step)
  next
    case False
    with 1(3) show ?thesis by (simp add: batches_from_done)
  qed
qed

lemma length_batches_from:
  "0 < b \<Longrightarrow> length (batches_from i arr b) = (length arr - i + b - 1) div b"
proof (induction i "length arr" b arbitrary: arr rule: range_from.induct)
  case (1 i step)
  show ?case
  proof (cases "i < length arr")
    case True
    have "length (batches_from (i + step) arr step) = (length arr - (i + step) + step - 1) div step"
      using 1(1) [OF _ refl] 1(2) True by simp
    moreover have "(length arr - i + step - 1) div step
        = Suc ((length arr - (i + step) + step - 1) div step)"
    proof -
      define m where "m = length arr - i - 1"
      have lhs: "length arr - i + step - 1 = m + step"
        using True by (simp add: m_def)
      have "(length arr - (i + step) + step - 1) div step = m div step"
      proof (cases "i + step \<le> length arr")
        case True
        then have "length arr - (i + step) + step - 1 = m"
          using 1(2) by (simp add: m_def)
        then show ?thesis by simp
      next
        case False
        then have "length arr - (i + step) + step - 1 = step - 1" "m < step"
          using True by (simp_all add: m_def)
        then show ?thesis using 1(2) by simp
      qed
      moreover have "(m + step) div step = Suc (m div step)"
        using 1(2) by simp
      ultimately show ?thesis by (simp only: lhs)
    qed
    ultimately show ?thesis using True 1(2) by (simp add: batches_from_step)
  next
    case False
    with 1(2) show ?thesis by (simp add: batches_from_done)
  qed
qed

lemma gen_batch_pos:
  "0 < batch_size \<Longrightarrow> gen_batch arr batch_size = Inr (batches_from 0 arr (nat batch_size))"
  by (simp add: gen_batch_def batches_from_def)

subsection \<open>Facts about the learning-rate schedule\<close>

lemma exp_decay_value:
  assumes "0 < n_epoch" "0 < len_X" "0 < batch_size"
  shows "exp_decay max_lr min_lr g n_epoch len_X batch_size =
     Inr (max_lr * exp (ln (min_lr / max_lr) * (g * real_of_int batch_size / real_of_int (n_epoch * len_X))))"
proof -
  have nl: "0 < n_epoch * len_X" using assms by simp
  then have "real_of_int (n_epoch * len_X) \<noteq> 0" "real_of_int batch_size \<noteq> 0" using assms by simp_all
  then show ?thesis using assms nl
    by (simp add: exp_decay_def Let_def field_simps)
qed

lemma exp_decay_schedule:
  assumes "0 < n_epoch" "0 < len_X" "0 < batch_size" "0 < min_lr" "min_lr < max_lr"
  shows "exp_decay max_lr min_lr 0 n_epoch len_X batch_size = Inr max_lr"
    and "exp_decay max_lr min_lr (real_of_int (n_epoch * len_X) / real_of_int batch_size) n_epoch len_X batch_size = Inr min_lr"
    and "g1 < g2 \<Longrightarrow> \<exists>l1 l2. exp_decay max_lr min_lr g1 n_epoch len_X batch_size = Inr l1 \<and>
            exp_decay max_lr min_lr g2 n_epoch len_X batch_size = Inr l2 \<and> l2 < l1"
proof -
  note v = exp_decay_value [OF assms(1-3)]
  have nl: "0 < real_of_int (n_epoch * len_X)" "0 < real_of_int batch_size" using assms by simp_all
  show "exp_decay max_lr min_lr 0 n_epoch len_X batch_size = Inr max_lr"
    by (simp add: v)
  have "0 < min_lr / max_lr" using assms by simp
  then show "exp_decay max_lr min_lr (real_of_int (n_epoch * len_X) / real_of_int batch_size) n_epoch len_X batch_size = Inr min_lr"
    using nl assms by (simp add: v)
  assume lt: "g1 < g2"
  have neg: "ln (min_lr / max_lr) < 0" using assms by (simp add: ln_less_zero)
  have "g1 * real_of_int batch_size / real_of_int (n_epoch * len_X) < g2 * real_of_int batch_size / real_of_int (n_epoch * len_X)"
    using lt nl by (simp add: divide_strict_right_mono)
  then have "ln (min_lr / max_lr) * (g2 * real_of_int batch_size / real_of_int (n_epoch * len_X))
      < ln (min_lr / max_lr) * (g1 * real_of_int batch_size / real_of_int (n_epoch * len_X))"
    using neg by (rule mult_strict_left_mono_neg)
  then have "max_lr * exp (ln (min_lr / max_lr) * (g2 * real_of_int batch_size / real_of_int (n_epoch * len_X)))
      < max_lr * exp (ln (min_lr / max_lr) * (g1 * real_of_int batch_size / real_of_int (n_epoch * len_X)))"
    using assms by simp
  then show "\<exists>l1 l2. exp_decay max_lr min_lr g1 n_epoch len_X batch_size = Inr l1 \<and>
            exp_decay max_lr min_lr g2 n_epoch len_X batch_size = Inr l2 \<and> l2 < l1"
    by (simp add: v)
qed

lemma decrease_lr_schedule:
  assumes "0 < n_epoch" "0 < len_X" "0 < batch_size"
  shows "rnn_decrease_lr True 0 n_epoch len_X batch_size = Inr 0.005 \<and>
         rnn_decrease_lr True (real_of_int (n_epoch * len_X) / real_of_int batch_size)
           n_epoch len_X batch_size = Inr 0.001 \<and>
         cnn_decrease_lr True 0 n_epoch len_X batch_size = Inr 0.003 \<and>
         cnn_decrease_lr True (real_of_int (n_epoch * len_X) / real_of_int batch_size)
           n_epoch len_X batch_size = Inr 0.0001 \<and>
         (\<forall>g1 g2. g1 < g2 \<longrightarrow>
            (\<exists>l1 l2. rnn_decrease_lr True g1 n_epoch len_X batch_size = Inr l1 \<and>
                     rnn_decrease_lr True g2 n_epoch len_X batch_size = Inr l2 \<and> l2 < l1) \<and>
            (\<exists>l1 l2. cnn_decrease_lr True g1 n_epoch len_X batch_size = Inr l1 \<and>
                     cnn_decrease_lr True g2 n_epoch len_X batch_size = Inr l2 \<and> l2 < l1))"
proof -
  have r: "(0::real) < 0.001" "(0.001::real) < 0.005" by simp_all
  have c: "(0::real) < 0.0001" "(0.0001::real) < 0.003" by simp_all
  note rs = exp_decay_schedule [OF assms r]
  note cs = exp_decay_schedule [OF assms c]
  show ?thesis
    unfolding rnn_decrease_lr_def cnn_decrease_lr_def if_True
    using rs(1,2) cs(1,2) rs(3) cs(3) by blast
qed

subsection \<open>Facts about the graphs\<close>

lemmas rnn_graph_defs = RNNTextClassifier_init_def rnn_build_graph_def rnn_add_input_layer_def
  rnn_add_word_embedding_layer_def rnn_add_lstm_cells_def rnn_add_dynamic_rnn_def
  rnn_add_attention_def rnn_add_output_layer_def rnn_add_backward_path_def rnn_softmax_def

lemmas cnn_graph_defs = Conv1DClassifier_init_def cnn_build_graph_def cnn_add_input_layer_def
  cnn_add_word_embedding_def cnn_add_conv1d_def cnn_add_global_maxpool_def cnn_add_fc_def
  cnn_add_output_layer_def cnn_add_backward_path_def cnn_W_def cnn_b_def

lemma subnodes_self: "n \<in> set (subnodes n)"
  by (cases n) simp_all


lemma softmax_weightsI:
  "softmax_weights (Op tf_divide [] [Op tf_exp [] [s], Op tf_reduce_sum [I 1] [Op tf_exp [] [s]]])"
  unfolding softmax_weights_def list_ex_iff
  by (rule bexI [of _ s]) (simp_all add: subnodes_self)

lemma attention_pooling_ofI:
  assumes "softmax_weights w" "feats \<in> set (subnodes w)"
  shows "attention_pooling_of feats
           (Op tf_squeeze [I 2] [Op tf_matmul [] [Op tf_transpose [IL [0, 2, 1]] [feats],
                                                   Op tf_expand_dims [I 2] [w]]])"
  unfolding attention_pooling_of_def list_ex_iff
  by (rule bexI [of _ w]) (use assms in \<open>simp_all add: subnodes_self\<close>)


lemma rnn_attention_is_pooling:
  "attention_pooling_of (rnn_pointer self) (rnn_pointer (rnn_add_attention self))"
proof -
  let ?score = "Op tf_reshape [IL [- 1, rnn_seq_len self]]
      [Op tf_tanh [] [Op tf_matmul [] [rnn_pointer self,
         Op tf_expand_dims [I 2] [Op tf_state_h [] [rnn_final_state self]]]]]"
  have "rnn_pointer self \<in> set (subnodes (rnn_softmax ?score))"
    by (simp add: rnn_softmax_def Let_def subnodes_self)
  moreover have "softmax_weights (rnn_softmax ?score)"
    unfolding rnn_softmax_def Let_def by (rule softmax_weightsI)
  ultimately have "attention_pooling_of (rnn_pointer self)
      (Op tf_squeeze [I 2] [Op tf_matmul [] [Op tf_transpose [IL [0, 2, 1]] [rnn_pointer self],
                                              Op tf_expand_dims [I 2] [rnn_softmax ?score]]])"
    by (intro attention_pooling_ofI)
  then show ?thesis by (simp add: rnn_add_attention_def Let_def)
qed

lemma cnn_graph_valid:
  assumes "0 < seq_len" "0 < vocab_size" "0 < n_out" "0 < embedding_dims" "0 < n_filters"
    "0 < kernel_size" "0 < hidden_dims" "kernel_size \<le> seq_len"
  shows "\<exists>G. Conv1DClassifier_init seq_len vocab_size n_out embedding_dims n_filters kernel_size ''VALID'' hidden_dims = Inr G \<and>
     (let emb = Op tf_embedding_lookup [] [get_variable ''E'' [vocab_size, embedding_dims], cnn_X G];
          conv = Op tf_relu [] [Op tf_bias_add []
                   [Op tf_conv1d [I 1, S ''VALID'']
                      [emb, get_variable ''conv_w'' [kernel_size, embedding_dims, n_filters]],
                    get_variable ''conv_b'' [n_filters]]];
          k = seq_len - kernel_size + 1;
          pool = Op tf_squeeze [] [Op tf_max_pool [IL [1, 1, k, 1], IL [1, 1, k, 1], S ''VALID'']
                   [Op tf_expand_dims [I 1] [conv]]];
          fc = Op tf_dropout [] [Op tf_relu [] [Op tf_bias_add []
                   [Op tf_matmul [] [pool, get_variable ''fully_connected_w'' [n_filters, hidden_dims]],
                    get_variable ''fully_connected_b'' [hidden_dims]]], cnn_keep_prob G]
      in cnn_current_seq_len G = Some k \<and>
         cnn_X G = placeholder ''X'' (Some [None, Some seq_len]) \<and>
         cnn_Y G = placeholder ''Y'' (Some [None, Some n_out]) \<and>
         cnn_keep_prob G = placeholder ''keep_prob'' None \<and>
         cnn_current_layer G = fc \<and>
         cnn_logits G = Op tf_bias_add []
           [Op tf_matmul [] [fc, get_variable ''w_out'' [hidden_dims, n_out]],
            get_variable ''b_out'' [n_out]] \<and>
         cnn_loss G = Op tf_reduce_mean []
           [Op tf_softmax_cross_entropy_with_logits [] [cnn_logits G, cnn_Y G]] \<and>
         cnn_train_op G = Op tf_minimize [] [Op tf_AdamOptimizer [] [cnn_lr G], cnn_loss G] \<and>
         cnn_acc G = Op tf_reduce_mean []
           [Op tf_cast [] [Op tf_equal [] [Op tf_argmax [I 1] [cnn_logits G],
                                           Op tf_argmax [I 1] [cnn_Y G]]]] \<and>
         cnn_lr G = placeholder ''lr'' None \<and>
         cnn_n_filters G = n_filters \<and>
         tf_exp \<notin> set (ops_of (cnn_train_op G)))"
  using assms by (simp add: cnn_graph_defs cnn_shapes_accepted_def Let_def)





subsection \<open>Facts about lists, loops and errors\<close>

lemma bind_err_Inr [simp]: "bind_err (Inr x) f = f x"
  by (simp add: bind_err_def)

lemma bind_err_Inl [simp]: "bind_err (Inl e) f = Inl e"
  by (simp add: bind_err_def)

lemma foldl_snoc_map: "foldl (\<lambda>l b. l @ [f b]) acc bs = acc @ map f bs"
  by (induction bs arbitrary: acc) simp_all

lemma concat_nth_uniform:
  assumes "0 < b"
    and "\<forall>k. Suc k < length xss \<longrightarrow> length (xss ! k) = b"
    and "\<forall>xs \<in> set xss. length xs \<le> b"
    and "i < length (concat xss)"
  shows "i div b < length xss \<and> i mod b < length (xss ! (i div b)) \<and>
         concat xss ! i = xss ! (i div b) ! (i mod b)"
  using assms(2-4)
proof (induction xss arbitrary: i)
  case Nil
  then show ?case by simp
next
  case (Cons xs rest)
  show ?case
  proof (cases "i < length xs")
    case True
    with Cons.prems(2) have "i < b" by fastforce
    with True show ?thesis by (simp add: nth_append)
  next
    case False
    with Cons.prems(3) have ne: "rest \<noteq> []" by auto
    with Cons.prems(1) have len: "length xs = b" by (cases rest) force+
    have full: "\<forall>k. Suc k < length rest \<longrightarrow> length (rest ! k) = b"
      using Cons.prems(1) by force
    have small: "\<forall>ys \<in> set rest. length ys \<le> b" using Cons.prems(2) by simp
    have i': "i - b < length (concat rest)" using Cons.prems(3) False len by simp
    note IH = Cons.IH [OF full small i']
    have ge: "b \<le> i" using False len by simp
    then have d: "i div b = Suc ((i - b) div b)" and m: "i mod b = (i - b) mod b"
      using assms(1) by (simp_all add: le_div_geq le_mod_geq)
    from IH show ?thesis
      using False len by (simp add: d m nth_append)
  qed
qed

lemma argmax_from_first:
  assumes "bi < length pre" "bv = (pre @ xs) ! bi" "\<forall>v \<in> set pre. v \<le> bv"
    "\<forall>v \<in> set (take bi pre). v < bv"
  shows "first_argmax (pre @ xs) (argmax_from bi bv (length pre) xs)"
  using assms
proof (induction xs arbitrary: pre bi bv)
  case Nil
  then show ?case by (simp add: first_argmax_def list_all_iff)
next
  case (Cons x xs)
  show ?case
  proof (cases "bv < x")
    case True
    have "first_argmax ((pre @ [x]) @ xs) (argmax_from (length pre) x (length (pre @ [x])) xs)"
    proof (rule Cons.IH)
      show "length pre < length (pre @ [x])" by simp
      show "x = ((pre @ [x]) @ xs) ! length pre" by simp
      show "\<forall>v \<in> set (pre @ [x]). v \<le> x" using True Cons.prems(3) by auto
      show "\<forall>v \<in> set (take (length pre) (pre @ [x])). v < x" using True Cons.prems(3) by auto
    qed
    with True show ?thesis by simp
  next
    case False
    have "first_argmax ((pre @ [x]) @ xs) (argmax_from bi bv (length (pre @ [x])) xs)"
    proof (rule Cons.IH)
      show "bi < length (pre @ [x])" using Cons.prems(1) by simp
      show "bv = ((pre @ [x]) @ xs) ! bi" using Cons.prems(1,2) by (simp add: nth_append)
      show "\<forall>v \<in> set (pre @ [x]). v \<le> bv" using False Cons.prems(3) by auto
      show "\<forall>v \<in> set (take bi (pre @ [x])). v < bv" using Cons.prems(1,4) by simp
    qed
    with False show ?thesis by simp
  qed
qed

lemma argmax_row_first: "row \<noteq> [] \<Longrightarrow> first_argmax row (argmax_row row)"
proof (cases row)
  case Nil
  then show "row \<noteq> [] \<Longrightarrow> ?thesis" by simp
next
  case (Cons x xs)
  have "first_argmax ([x] @ xs) (argmax_from 0 x (length [x]) xs)"
    by (rule argmax_from_first) simp_all
  with Cons show ?thesis by (simp add: argmax_row_def)
qed

lemma list_all2_concat_length:
  "list_all2 (\<lambda>b out. length out = length b) bs outs \<Longrightarrow> length (concat outs) = length (concat bs)"
  by (induction rule: list_all2_induct) simp_all

lemma batches_from_le: "xs \<in> set (batches_from i arr b) \<Longrightarrow> length xs \<le> b"
  by (auto simp: batches_from_def)

lemma np_vstack_uniform:
  assumes "arrays \<noteq> []" "\<forall>row \<in> set (concat arrays). length row = n"
  shows "np_vstack arrays = Inr (concat arrays)"
proof -
  have "\<not> list_ex (\<lambda>r. length r \<noteq> length (hd (concat arrays))) (concat arrays)"
  proof (cases "concat arrays")
    case Nil
    show ?thesis unfolding Nil by simp
  next
    case (Cons r rs)
    with assms(2) have "length (hd (concat arrays)) = n" by simp
    with assms(2) show ?thesis unfolding list_ex_iff by blast
  qed
  with assms(1) show ?thesis
    unfolding np_vstack_def np_concatenate_def Let_def by simp
qed

lemma repeat_err_Suc_Inr: "f s = Inr s' \<Longrightarrow> repeat_err (Suc n) f s = repeat_err n f s'"
  by simp

lemma repeat_err_Suc_Inl: "f s = Inl e \<Longrightarrow> repeat_err (Suc n) f s = Inl e"
  by simp

lemma repeat_err_appends:
  assumes step: "\<And>s. Inv s \<Longrightarrow> \<exists>s'. f s = Inr s' \<and> Inv s' \<and> out s' = out s @ [entry s']"
    and "Inv s0"
  shows "\<exists>s es. repeat_err k f s0 = Inr s \<and> Inv s \<and> out s = out s0 @ es \<and> length es = k \<and>
           (\<forall>e<k. \<exists>se. repeat_err (Suc e) f s0 = Inr se \<and> es ! e = entry se)"
  using assms(2)
proof (induction k arbitrary: s0)
  case 0
  then show ?case by simp
next
  case (Suc k)
  from step [OF Suc.prems] obtain s1 where s1: "f s0 = Inr s1" "Inv s1" "out s1 = out s0 @ [entry s1]"
    by blast
  from Suc.IH [OF s1(2)] obtain s es where
    r: "repeat_err k f s1 = Inr s" "Inv s" "out s = out s1 @ es" "length es = k"
    and each: "\<forall>e<k. \<exists>se. repeat_err (Suc e) f s1 = Inr se \<and> es ! e = entry se"
    by blast
  have "\<exists>se. repeat_err (Suc e) f s0 = Inr se \<and> (entry s1 # es) ! e = entry se" if "e < Suc k" for e
  proof (cases e)
    case 0
    with s1(1) show ?thesis by simp
  next
    case (Suc e')
    with that each obtain se where "repeat_err (Suc e') f s1 = Inr se" "es ! e' = entry se"
      by auto
    with Suc s1(1) show ?thesis by simp
  qed
  with r s1 show ?case
    by (intro exI [of _ s] exI [of _ "entry s1 # es"]) simp
qed

lemma cnn_decrease_lr_ok:
  assumes "0 < n_epoch" "0 < len_X" "0 < batch_size"
  shows "\<exists>lr. cnn_decrease_lr en_exp_decay g n_epoch len_X batch_size = Inr lr"
  unfolding cnn_decrease_lr_def exp_decay_value [OF assms] by (cases en_exp_decay; simp only: if_True if_False; blast)

lemma rnn_decrease_lr_ok:
  assumes "0 < n_epoch" "0 < len_X" "0 < batch_size"
  shows "\<exists>lr. rnn_decrease_lr en_exp_decay g n_epoch len_X batch_size = Inr lr"
  unfolding rnn_decrease_lr_def exp_decay_value [OF assms] by (cases en_exp_decay; simp only: if_True if_False; blast)

lemma list_avg_Inr: "l \<noteq> [] \<Longrightarrow> list_avg l = Inr (sum_list l / real (length l))"
  by (simp add: list_avg_def)

lemma list_avg_empty: "list_avg [] = Inl ZeroDivisionError"
  by (simp add: list_avg_def)

lemma batches_from_empty_iff: "0 < b \<Longrightarrow> batches_from 0 arr b = [] \<longleftrightarrow> arr = []"
  using batches_from_step [of b 0 arr] batches_from_done [of arr 0 b] by (cases arr) auto

lemma append_to_log_val:
  "append_to_log lg (Some (loss, acc, lr)) (Some (val_loss, val_acc)) =
     Inr \<lparr>log_loss = log_loss lg @ [loss], log_acc = log_acc lg @ [acc],
          log_val_loss = log_val_loss lg @ [val_loss], log_val_acc = log_val_acc lg @ [val_acc]\<rparr>"
  by (simp add: append_to_log_def Let_def)

lemma fold_err_append:
  "fold_err f s (xs @ ys) = bind_err (fold_err f s xs) (\<lambda>s'. fold_err f s' ys)"
  by (induction xs arbitrary: s) (simp_all split: sum.splits)

lemma fold_err_cong_set:
  "(\<And>x s. x \<in> set xs \<Longrightarrow> f s x = g s x) \<Longrightarrow> fold_err f s xs = fold_err g s xs"
  by (induction xs arbitrary: s) (simp_all split: sum.splits)

lemma foldl_cong_set:
  "(\<And>x s. x \<in> set xs \<Longrightarrow> f s x = g s x) \<Longrightarrow> foldl f s xs = foldl g s xs"
  by (induction xs arbitrary: s) simp_all

lemma batches_from_shift:
  "0 < b \<Longrightarrow> batches_from (i + length p) (p @ xs) b = batches_from i xs b"
proof (induction i "length xs" b arbitrary: xs rule: range_from.induct)
  case (1 i step)
  show ?case
  proof (cases "i < length xs")
    case True
    have "batches_from (i + step + length p) (p @ xs) step = batches_from (i + step) xs step"
      using 1(1) [OF _ refl] 1(2) True by simp
    then have "batches_from (i + length p + step) (p @ xs) step = batches_from (i + step) xs step"
      by (simp add: add.assoc add.commute [of step])
    moreover have "i + length p < length (p @ xs)" using True by simp
    ultimately show ?thesis
      using True 1(2)
      by (simp add: batches_from_step [of step "i + length p"] batches_from_step [of step i xs])
  next
    case False
    then show ?thesis by (simp add: batches_from_done)
  qed
qed

lemma batches_from_concat_full:
  assumes "0 < b" "\<forall>f \<in> set fulls. length f = b" "length partial < b"
  shows "batches_from 0 (concat fulls @ partial) b
           = fulls @ (if partial = [] then [] else [partial])"
  using assms(2)
proof (induction fulls)
  case Nil
  show ?case
  proof (cases "partial = []")
    case True
    then show ?thesis by (simp add: batches_from_done)
  next
    case False
    then have "0 < length partial" by simp
    from batches_from_step [OF assms(1) this] assms(3) False show ?thesis
      by (simp add: batches_from_done)
  qed
next
  case (Cons f fulls)
  then have lf: "length f = b" and rest: "\<forall>f \<in> set fulls. length f = b" by simp_all
  have "0 < length (f @ concat fulls @ partial)" using lf assms(1) by simp
  from batches_from_step [OF assms(1) this]
  have "batches_from 0 (f @ concat fulls @ partial) b
      = f # batches_from (0 + length f) (f @ concat fulls @ partial) b"
    using lf by simp
  also have "batches_from (0 + length f) (f @ concat fulls @ partial) b
      = batches_from 0 (concat fulls @ partial) b"
    using assms(1) by (rule batches_from_shift)
  finally show ?case using Cons.IH [OF rest] by simp
qed

lemma fold_err_Inr:
  "(\<And>x s. x \<in> set xs \<Longrightarrow> f s x = Inr (g s x)) \<Longrightarrow> fold_err f s xs = Inr (foldl g s xs)"
  by (induction xs arbitrary: s) simp_all

lemma fold_err_fails:
  assumes "\<And>x s. x \<in> set xs \<Longrightarrow> f s x = (if ok x then Inr (g s x) else Inl e)"
  shows "fold_err f s xs = (if \<forall>x \<in> set xs. ok x then Inr (foldl g s xs) else Inl e)"
  using assms by (induction xs arbitrary: s) simp_all

lemma repeat_err_total:
  assumes step: "\<And>s. Inv s \<Longrightarrow> \<exists>s'. f s = Inr s' \<and> Inv s'"
    and "Inv s0"
  shows "\<exists>s. repeat_err k f s0 = Inr s \<and> Inv s"
  using assms(2)
proof (induction k arbitrary: s0)
  case 0
  then show ?case by simp
next
  case (Suc k)
  from step [OF Suc.prems] obtain s1 where s1: "f s0 = Inr s1" "Inv s1" by blast
  from Suc.IH [OF s1(2)] s1(1) show ?case by simp
qed

lemma repeat_err_entries:
  assumes step: "\<And>s s'. f s = Inr s' \<Longrightarrow> out s' = out s @ [entry s']"
    and "repeat_err k f s0 = Inr s"
  shows "\<exists>es. out s = out s0 @ es \<and> length es = k \<and>
           (\<forall>e<k. \<exists>se. repeat_err (Suc e) f s0 = Inr se \<and> es ! e = entry se)"
  using assms(2)
proof (induction k arbitrary: s0)
  case 0
  then show ?case by simp
next
  case (Suc k)
  from Suc.prems obtain s1 where s1: "f s0 = Inr s1" and rest: "repeat_err k f s1 = Inr s"
    by (cases "f s0") simp_all
  from Suc.IH [OF rest] obtain es where
    r: "out s = out s1 @ es" "length es = k"
    and each: "\<forall>e<k. \<exists>se. repeat_err (Suc e) f s1 = Inr se \<and> es ! e = entry se"
    by blast
  have "\<exists>se. repeat_err (Suc e) f s0 = Inr se \<and> (entry s1 # es) ! e = entry se" if "e < Suc k" for e
  proof (cases e)
    case 0
    with s1 show ?thesis by simp
  next
    case (Suc e')
    with that each obtain se where "repeat_err (Suc e') f s1 = Inr se" "es ! e' = entry se"
      by auto
    with Suc s1 show ?thesis by simp
  qed
  with r step [OF s1] show ?case
    by (intro exI [of _ "entry s1 # es"]) simp
qed

lemma repeat_err_first_fails: "f s = Inl e \<Longrightarrow> 0 < k \<Longrightarrow> repeat_err k f s = Inl e"
  by (cases k) simp_all

lemma batches_from_lengths:
  "0 < b \<Longrightarrow> xs \<in> set (batches_from i arr b) \<Longrightarrow>
     length xs = b \<or> length xs = (length arr - i) mod b"
proof (induction i "length arr" b arbitrary: arr rule: range_from.induct)
  case (1 i step)
  show ?case
  proof (cases "i < length arr")
    case True
    note st = batches_from_step [OF 1(2) True]
    from 1(3) st consider "xs = take step (drop i arr)" | "xs \<in> set (batches_from (i + step) arr step)"
      by auto
    then show ?thesis
    proof cases
      case 1
      show ?thesis
      proof (cases "step \<le> length arr - i")
        case True
        with 1 show ?thesis by simp
      next
        case False
        then have "(length arr - i) mod step = length arr - i" by simp
        with 1 False show ?thesis by (simp add: min_def)
      qed
    next
      case 2
      then have lt: "i + step < length arr"
        using batches_from_done [of arr "i + step" step] by (cases "i + step < length arr") auto
      from "1.hyps" [OF _ refl] "1.prems"(1) True 2
      have "length xs = step \<or> length xs = (length arr - (i + step)) mod step" by simp
      moreover have "(length arr - (i + step)) mod step = (length arr - i) mod step"
        using lt by (simp add: le_mod_geq)
      ultimately show ?thesis by simp
    qed
  next
    case False
    with 1(3) show ?thesis by (simp add: batches_from_done)
  qed
qed

subsection \<open>Facts about the runs and the loops of \<^verbatim>\<open>predict\<close>\<close>

lemma int32_batch: "0 < batch_size \<Longrightarrow> int32 batch_size \<Longrightarrow> length b \<le> nat batch_size \<Longrightarrow> int32 (int (length b))"
  by (simp add: int32_def)

lemma rnn_initial_state_zero:
  "int32 n \<Longrightarrow> 0 \<le> n \<Longrightarrow> rnn_initial_state sess n None = Inr (rs_zero_state sess n)"
  by (simp add: rnn_initial_state_def)

lemma rnn_initial_state_fed:
  "int32 n \<Longrightarrow> rnn_initial_state sess n (Some s) = Inr s"
  by (simp add: rnn_initial_state_def)

lemma rnn_initial_state_refused:
  "\<not> int32 n \<Longrightarrow> rnn_initial_state sess n fed = Inl TypeError"
  by (simp add: rnn_initial_state_def)

lemma rnn_predict_step_eq:
  assumes "0 < batch_size" "int32 batch_size" "length b \<le> nat batch_size"
  shows "rnn_predict_step sess stateful w batch_size acc b =
     Inr (if stateful \<and> int (length b) = batch_size then rnn_predict_carry sess w acc b
          else rnn_predict_fresh sess w acc b)"
proof -
  obtain st preds where acc: "acc = (st, preds)" by (cases acc)
  have i: "int32 (int (length b))" using assms by (rule int32_batch)
  show ?thesis
    unfolding acc rnn_predict_step_def rnn_run_logits_def rnn_predict_carry_def
      rnn_predict_fresh_def
    using assms(2) i
    by (simp add: rnn_initial_state_zero rnn_initial_state_fed split: prod.splits)
qed

lemma rnn_predict_loop_pass:
  assumes "0 < batch_size" "int32 batch_size" "\<forall>b \<in> set batches. length b \<le> nat batch_size"
  shows "rnn_predict_loop sess stateful w batch_size (rs_zero_state sess batch_size) batches =
           Inr (rnn_predict_pass sess stateful w batch_size batches)"
  unfolding rnn_predict_loop_def rnn_predict_pass_def
  by (rule fold_err_Inr) (use assms in \<open>simp add: rnn_predict_step_eq\<close>)

lemma rnn_predict_eq:
  assumes "0 < batch_size" "int32 batch_size"
  shows "rnn_predict sess stateful w X_test batch_size =
     bind_err (np_vstack (snd (rnn_predict_pass sess stateful w batch_size
                                 (batches_from 0 X_test (nat batch_size)))))
       np_argmax1"
proof -
  have le: "\<forall>b \<in> set (batches_from 0 X_test (nat batch_size)). length b \<le> nat batch_size"
    using batches_from_le by blast
  show ?thesis
    using assms
    by (simp add: rnn_predict_def rnn_initial_state_zero gen_batch_pos
        rnn_predict_loop_pass [OF assms le])
qed

lemma rnn_predict_refused:
  "\<not> int32 batch_size \<Longrightarrow> rnn_predict sess stateful w X_test batch_size = Inl TypeError"
  by (simp add: rnn_predict_def rnn_initial_state_refused)

lemma rnn_predict_pass_outs_aux:
  "\<exists>st' outs.
     foldl (\<lambda>acc batch. if stateful \<and> int (length batch) = batch_size
                         then rnn_predict_carry sess w acc batch
                         else rnn_predict_fresh sess w acc batch) (st, acc) batches = (st', acc @ outs) \<and>
     list_all2 (\<lambda>b out. \<exists>s. out = fst (rs_logits sess w b 1 s)) batches outs"
proof (induction batches arbitrary: st acc)
  case Nil
  then show ?case by simp
next
  case (Cons b batches)
  let ?step = "\<lambda>acc batch. if stateful \<and> int (length batch) = batch_size
                         then rnn_predict_carry sess w acc batch
                         else rnn_predict_fresh sess w acc batch"
  have "\<exists>st1 out. ?step (st, acc) b = (st1, acc @ [out]) \<and>
      (\<exists>s. out = fst (rs_logits sess w b 1 s))"
  proof (cases "stateful \<and> int (length b) = batch_size")
    case True
    obtain p f where r: "rs_logits sess w b 1 st = (p, f)"
      by (cases "rs_logits sess w b 1 st")
    have s1: "?step (st, acc) b = (f, acc @ [p])"
      using True r by (simp add: rnn_predict_carry_def)
    have s2: "p = fst (rs_logits sess w b 1 st)" using r by simp
    from s1 s2 show ?thesis by blast
  next
    case False
    let ?z = "rs_zero_state sess (int (length b))"
    obtain p f where r: "rs_logits sess w b 1 ?z = (p, f)"
      by (cases "rs_logits sess w b 1 ?z")
    have s1: "?step (st, acc) b = (st, acc @ [p])"
      using False r by (auto simp: rnn_predict_fresh_def)
    have s2: "p = fst (rs_logits sess w b 1 ?z)" using r by simp
    from s1 s2 show ?thesis by blast
  qed
  then obtain st1 out where step: "?step (st, acc) b = (st1, acc @ [out])"
    and out: "\<exists>s. out = fst (rs_logits sess w b 1 s)"
    by blast
  from Cons.IH [of st1 "acc @ [out]"] obtain st' outs where
    "foldl ?step (st1, acc @ [out]) batches = (st', (acc @ [out]) @ outs)"
    "list_all2 (\<lambda>b out. \<exists>s. out = fst (rs_logits sess w b 1 s)) batches outs"
    by blast
  with step out show ?case
    by (intro exI [of _ st'] exI [of _ "out # outs"]) simp
qed

lemma rnn_predict_pass_outs:
  "\<exists>st' outs. rnn_predict_pass sess stateful w batch_size batches = (st', outs) \<and>
     list_all2 (\<lambda>b out. \<exists>s. out = fst (rs_logits sess w b 1 s)) batches outs"
  using rnn_predict_pass_outs_aux [of stateful batch_size sess w "rs_zero_state sess batch_size" "[]" batches]
  unfolding rnn_predict_pass_def by simp

lemma rnn_predict_pass_stateless_aux:
  "foldl (\<lambda>acc batch. if False \<and> int (length batch) = batch_size
                       then rnn_predict_carry sess w acc batch
                       else rnn_predict_fresh sess w acc batch) (st, acc) batches =
     (st, acc @ map (\<lambda>b. fst (rs_logits sess w b 1 (rs_zero_state sess (int (length b))))) batches)"
  by (induction batches arbitrary: acc) (simp_all add: rnn_predict_fresh_def split: prod.splits)

lemma rnn_predict_pass_stateless:
  "rnn_predict_pass sess False w batch_size batches =
     (rs_zero_state sess batch_size,
      map (\<lambda>b. fst (rs_logits sess w b 1 (rs_zero_state sess (int (length b))))) batches)"
  using rnn_predict_pass_stateless_aux [of batch_size sess w "rs_zero_state sess batch_size" "[]" batches]
  unfolding rnn_predict_pass_def by simp

lemma cnn_graph_runs_iff:
  "cnn_graph_runs self X_batch \<longleftrightarrow> length X_batch \<noteq> 1 \<and> cnn_n_filters self \<noteq> 1"
  by (simp add: cnn_graph_runs_def cnn_pooled_shape_def squeezed_shape_def)

lemma cnn_predict_loop_eq:
  "fold_err (cnn_predict_step self sess w) acc batches =
     (if \<forall>b \<in> set batches. cnn_graph_runs self b
      then Inr (acc @ map (\<lambda>b. cs_logits sess w b 1) batches)
      else Inl InvalidArgumentError)"
proof -
  have "fold_err (cnn_predict_step self sess w) acc batches =
     (if \<forall>b \<in> set batches. cnn_graph_runs self b
      then Inr (foldl (\<lambda>l b. l @ [cs_logits sess w b 1]) acc batches)
      else Inl InvalidArgumentError)"
    by (rule fold_err_fails) (simp add: cnn_predict_step_def cnn_run_logits_def)
  then show ?thesis by (simp add: foldl_snoc_map)
qed

lemma batches_one_row:
  assumes "0 < batch_size"
  shows "(\<forall>b \<in> set (batches_from 0 X (nat batch_size)). length b \<noteq> 1) \<longleftrightarrow>
           X = [] \<or> batch_size \<noteq> 1 \<and> int (length X) mod batch_size \<noteq> 1"
proof (cases "X = []")
  case True
  then show ?thesis by (simp add: batches_from_done)
next
  case False
  let ?b = "nat batch_size"
  let ?bs = "batches_from 0 X ?b"
  have pos: "0 < ?b" using assms by simp
  have ne: "?bs \<noteq> []" using False batches_from_empty_iff [OF pos] by blast
  have lastlen: "length (last ?bs) = (if length X mod ?b = 0 then ?b else length X mod ?b)"
    using batches_from_last [OF pos, of 0 X] False by simp
  have modint: "int (length X) mod batch_size = int (length X mod ?b)"
    using assms by (metis int_nat_eq less_le_not_le zmod_int)
  show ?thesis
  proof
    assume all: "\<forall>b \<in> set ?bs. length b \<noteq> 1"
    have "last ?bs \<in> set ?bs" using ne by simp
    with all have l: "length (last ?bs) \<noteq> 1" by blast
    have "batch_size \<noteq> 1"
    proof
      assume "batch_size = 1"
      then have "?b = 1" by simp
      with lastlen have "length (last ?bs) = 1" by simp
      with l show False by contradiction
    qed
    moreover have "int (length X) mod batch_size \<noteq> 1"
    proof
      assume "int (length X) mod batch_size = 1"
      with modint have "length X mod ?b = 1" by simp
      with lastlen have "length (last ?bs) = 1" by simp
      with l show False by contradiction
    qed
    ultimately show "X = [] \<or> batch_size \<noteq> 1 \<and> int (length X) mod batch_size \<noteq> 1" by blast
  next
    assume "X = [] \<or> batch_size \<noteq> 1 \<and> int (length X) mod batch_size \<noteq> 1"
    with False have b1: "batch_size \<noteq> 1" and m1: "int (length X) mod batch_size \<noteq> 1" by simp_all
    show "\<forall>b \<in> set ?bs. length b \<noteq> 1"
    proof
      fix b assume "b \<in> set ?bs"
      from batches_from_lengths [OF pos this]
      have "length b = ?b \<or> length b = length X mod ?b" by simp
      moreover have "?b \<noteq> 1" using b1 assms by simp
      moreover have "length X mod ?b \<noteq> 1" using m1 modint by simp
      ultimately show "length b \<noteq> 1" by metis
    qed
  qed
qed

subsection \<open>Facts about \<^verbatim>\<open>Conv1DClassifier.fit\<close>\<close>

lemma bind_err_InrD: "bind_err m f = Inr y \<Longrightarrow> \<exists>x. m = Inr x \<and> f x = Inr y"
  by (cases m) simp_all

lemma list_avg_InrD: "list_avg l = Inr v \<Longrightarrow> l \<noteq> [] \<and> v = sum_list l / real (length l)"
  by (auto simp: list_avg_def split: if_splits)

lemma val_averages_InrD:
  assumes "val_averages (ll, al) = Inr (vl, va)"
  shows "ll \<noteq> [] \<and> al \<noteq> [] \<and> vl = sum_list ll / real (length ll) \<and>
         va = sum_list al / real (length al)"
proof -
  from assms obtain x where x: "list_avg ll = Inr x"
    and r: "bind_err (list_avg al) (\<lambda>val_acc. Inr (x, val_acc)) = Inr (vl, va)"
    unfolding val_averages_def prod.case by (blast dest: bind_err_InrD)
  from r obtain y where y: "list_avg al = Inr y" and e: "Inr (x, y) = (Inr (vl, va) :: py_error + real \<times> real)"
    by (blast dest: bind_err_InrD)
  from e have "x = vl" "y = va" by simp_all
  with list_avg_InrD [OF x] list_avg_InrD [OF y] show ?thesis by simp
qed

lemma val_averages_ok:
  "ll \<noteq> [] \<Longrightarrow> al \<noteq> [] \<Longrightarrow>
     val_averages (ll, al) = Inr (sum_list ll / real (length ll), sum_list al / real (length al))"
  by (simp add: val_averages_def list_avg_Inr)

lemma val_averages_empty: "val_averages ([], al) = Inl ZeroDivisionError"
  by (simp add: val_averages_def list_avg_empty)

lemma cnn_val_loop_eq:
  "fold_err (cnn_val_step self sess w) (ll, al) V =
     (if \<forall>b \<in> set V. cnn_graph_runs self (fst b)
      then Inr (ll @ map (\<lambda>(xb, yb). fst (cs_eval sess w xb yb 1)) V,
                al @ map (\<lambda>(xb, yb). snd (cs_eval sess w xb yb 1)) V)
      else Inl InvalidArgumentError)"
proof (induction V arbitrary: ll al)
  case Nil
  then show ?case by simp
next
  case (Cons b V)
  obtain xb yb where b: "b = (xb, yb)" by (cases b)
  show ?case
  proof (cases "cnn_graph_runs self xb")
    case False
    then show ?thesis by (simp add: b cnn_val_step_def cnn_run_eval_def)
  next
    case True
    obtain l a where ev: "cs_eval sess w xb yb 1 = (l, a)" by (cases "cs_eval sess w xb yb 1")
    have "cnn_val_step self sess w (ll, al) b = Inr (ll @ [l], al @ [a])"
      using True ev by (simp add: b cnn_val_step_def cnn_run_eval_def)
    then show ?thesis using Cons.IH [of "ll @ [l]" "al @ [a]"] True ev by (simp add: b)
  qed
qed

lemma cnn_val_lists_eq:
  assumes "0 < batch_size"
  shows "cnn_val_lists self sess w (vX, vY) batch_size =
     (if \<forall>b \<in> set (zip (batches_from 0 vX (nat batch_size)) (batches_from 0 vY (nat batch_size))).
           cnn_graph_runs self (fst b)
      then Inr (map (\<lambda>(xb, yb). fst (cs_eval sess w xb yb 1))
                  (zip (batches_from 0 vX (nat batch_size)) (batches_from 0 vY (nat batch_size))),
                map (\<lambda>(xb, yb). snd (cs_eval sess w xb yb 1))
                  (zip (batches_from 0 vX (nat batch_size)) (batches_from 0 vY (nat batch_size))))
      else Inl InvalidArgumentError)"
  using assms cnn_val_loop_eq [of self sess w "[]" "[]"]
  by (simp add: cnn_val_lists_def gen_batch_pos)

lemma cnn_val_lists_negative:
  "batch_size < 0 \<Longrightarrow> cnn_val_lists self sess w vd batch_size = Inr ([], [])"
  by (simp add: cnn_val_lists_def gen_batch_def)

lemma cnn_validate_empty:
  assumes "batch_size \<noteq> 0"
  shows "cnn_validate self sess w ([], vY) batch_size = Inl ZeroDivisionError"
proof (cases "0 < batch_size")
  case True
  then show ?thesis
    by (simp add: cnn_validate_def cnn_val_lists_eq batches_from_done val_averages_empty)
next
  case False
  with assms have "batch_size < 0" by simp
  then show ?thesis by (simp add: cnn_validate_def cnn_val_lists_negative val_averages_empty)
qed

lemma cnn_train_loop_ok:
  assumes "0 < n_epoch" "0 < batch_size" "batches \<noteq> [] \<longrightarrow> 0 < len_X"
    and "\<forall>b \<in> set batches. cnn_graph_runs self (fst b)"
  shows "\<exists>w' prev'.
           fold_err (cnn_train_step self sess en_exp_decay n_epoch len_X batch_size keep_prob)
             (w, global_step, prev) batches = Inr (w', global_step + int (length batches), prev') \<and>
           (batches \<noteq> [] \<longrightarrow> prev' \<noteq> None)"
  using assms(3,4)
proof (induction batches arbitrary: w global_step prev)
  case Nil
  then show ?case by simp
next
  case (Cons b batches)
  then have len: "0 < len_X" by simp
  obtain X_batch Y_batch where b: "b = (X_batch, Y_batch)" by (cases b)
  from Cons.prems(2) b have runs: "cnn_graph_runs self X_batch" by simp
  from cnn_decrease_lr_ok [OF assms(1) len assms(2)] obtain lr where
    lr: "cnn_decrease_lr en_exp_decay (real_of_int global_step) n_epoch len_X batch_size = Inr lr"
    by blast
  obtain w1 loss acc where run: "cs_train sess w X_batch Y_batch lr keep_prob = (w1, loss, acc)"
    by (cases "cs_train sess w X_batch Y_batch lr keep_prob")
  have step: "cnn_train_step self sess en_exp_decay n_epoch len_X batch_size keep_prob
        (w, global_step, prev) b
      = Inr (w1, global_step + 1, Some (loss, acc, lr))"
    by (simp add: cnn_train_step_def b lr run runs cnn_run_train_def)
  from Cons.IH [of w1 "global_step + 1" "Some (loss, acc, lr)"] len Cons.prems(2)
  obtain w' prev' where
    rest: "fold_err (cnn_train_step self sess en_exp_decay n_epoch len_X batch_size keep_prob)
        (w1, global_step + 1, Some (loss, acc, lr)) batches
      = Inr (w', global_step + 1 + int (length batches), prev')"
      and some: "batches \<noteq> [] \<longrightarrow> prev' \<noteq> None"
    by auto
  have "prev' \<noteq> None"
  proof (cases batches)
    case Nil
    with rest show ?thesis by auto
  next
    case (Cons c cs)
    with some show ?thesis by simp
  qed
  with step rest show ?case by (simp add: add.assoc)
qed

lemma append_to_log_InrD:
  assumes "append_to_log lg prev (Some (val_loss, val_acc)) = Inr lg'"
  shows "log_val_loss lg' = log_val_loss lg @ [val_loss] \<and>
         log_val_acc lg' = log_val_acc lg @ [val_acc]"
  using assms by (auto simp: append_to_log_def Let_def split: option.splits)

lemma cnn_fit_epoch_InrD:
  assumes "cnn_fit_epoch self sess shuffle val_data n_epoch batch_size keep_prob en_exp_decay
             en_shuffle st = Inr st'"
  shows "\<exists>X Y g X_batches Y_batches w global_step loss_acc_lr val lg.
           gen_batch X batch_size = Inr X_batches \<and> gen_batch Y batch_size = Inr Y_batches \<and>
           fold_err
             (cnn_train_step self sess en_exp_decay n_epoch (int (length X)) batch_size keep_prob)
             (fl_sess st, fl_global_step st, fl_loss_acc_lr st) (zip X_batches Y_batches)
             = Inr (w, global_step, loss_acc_lr) \<and>
           (case val_data of
              None \<Rightarrow> Inr None
            | Some vd \<Rightarrow> bind_err (cnn_validate self sess w vd batch_size) (\<lambda>v. Inr (Some v)))
             = Inr val \<and>
           append_to_log (fl_log st) loss_acc_lr val = Inr lg \<and>
           st' = st\<lparr>fl_sess := w, fl_rng := g, fl_X := X, fl_Y := Y, fl_log := lg,
                    fl_global_step := global_step, fl_loss_acc_lr := loss_acc_lr\<rparr>"
proof -
  from assms obtain shuffled where
    k1: "(case shuffled of ((X, Y), g) \<Rightarrow>
     bind_err (gen_batch X batch_size) (\<lambda>X_batches.
     bind_err (gen_batch Y batch_size) (\<lambda>Y_batches.
     bind_err (fold_err
                 (cnn_train_step self sess en_exp_decay n_epoch (int (length X)) batch_size keep_prob)
                 (fl_sess st, fl_global_step st, fl_loss_acc_lr st) (zip X_batches Y_batches))
       (\<lambda>trained. case trained of (w, global_step, loss_acc_lr) \<Rightarrow>
     bind_err (case val_data of
                 None \<Rightarrow> Inr None
               | Some vd \<Rightarrow> bind_err (cnn_validate self sess w vd batch_size) (\<lambda>v. Inr (Some v)))
       (\<lambda>val.
     bind_err (append_to_log (fl_log st) loss_acc_lr val) (\<lambda>lg.
       Inr (st\<lparr>fl_sess := w, fl_rng := g, fl_X := X, fl_Y := Y, fl_log := lg,
               fl_global_step := global_step, fl_loss_acc_lr := loss_acc_lr\<rparr>))))))) = Inr st'"
    unfolding cnn_fit_epoch_def by (blast dest: bind_err_InrD)
  obtain X Y g where sh: "shuffled = ((X, Y), g)" by (cases shuffled) auto
  from k1 [unfolded sh prod.case] obtain X_batches where gx: "gen_batch X batch_size = Inr X_batches"
    and k2: "bind_err (gen_batch Y batch_size) (\<lambda>Y_batches.
     bind_err (fold_err
                 (cnn_train_step self sess en_exp_decay n_epoch (int (length X)) batch_size keep_prob)
                 (fl_sess st, fl_global_step st, fl_loss_acc_lr st) (zip X_batches Y_batches))
       (\<lambda>trained. case trained of (w, global_step, loss_acc_lr) \<Rightarrow>
     bind_err (case val_data of
                 None \<Rightarrow> Inr None
               | Some vd \<Rightarrow> bind_err (cnn_validate self sess w vd batch_size) (\<lambda>v. Inr (Some v)))
       (\<lambda>val.
     bind_err (append_to_log (fl_log st) loss_acc_lr val) (\<lambda>lg.
       Inr (st\<lparr>fl_sess := w, fl_rng := g, fl_X := X, fl_Y := Y, fl_log := lg,
               fl_global_step := global_step, fl_loss_acc_lr := loss_acc_lr\<rparr>))))) = Inr st'"
    by (blast dest: bind_err_InrD)
  from k2 obtain Y_batches where gy: "gen_batch Y batch_size = Inr Y_batches"
    and k3: "bind_err (fold_err
                 (cnn_train_step self sess en_exp_decay n_epoch (int (length X)) batch_size keep_prob)
                 (fl_sess st, fl_global_step st, fl_loss_acc_lr st) (zip X_batches Y_batches))
       (\<lambda>trained. case trained of (w, global_step, loss_acc_lr) \<Rightarrow>
     bind_err (case val_data of
                 None \<Rightarrow> Inr None
               | Some vd \<Rightarrow> bind_err (cnn_validate self sess w vd batch_size) (\<lambda>v. Inr (Some v)))
       (\<lambda>val.
     bind_err (append_to_log (fl_log st) loss_acc_lr val) (\<lambda>lg.
       Inr (st\<lparr>fl_sess := w, fl_rng := g, fl_X := X, fl_Y := Y, fl_log := lg,
               fl_global_step := global_step, fl_loss_acc_lr := loss_acc_lr\<rparr>)))) = Inr st'"
    by (blast dest: bind_err_InrD)
  from k3 obtain trained where tr: "fold_err
                 (cnn_train_step self sess en_exp_decay n_epoch (int (length X)) batch_size keep_prob)
                 (fl_sess st, fl_global_step st, fl_loss_acc_lr st) (zip X_batches Y_batches)
        = Inr trained"
    and k4: "(case trained of (w, global_step, loss_acc_lr) \<Rightarrow>
     bind_err (case val_data of
                 None \<Rightarrow> Inr None
               | Some vd \<Rightarrow> bind_err (cnn_validate self sess w vd batch_size) (\<lambda>v. Inr (Some v)))
       (\<lambda>val.
     bind_err (append_to_log (fl_log st) loss_acc_lr val) (\<lambda>lg.
       Inr (st\<lparr>fl_sess := w, fl_rng := g, fl_X := X, fl_Y := Y, fl_log := lg,
               fl_global_step := global_step, fl_loss_acc_lr := loss_acc_lr\<rparr>)))) = Inr st'"
    by (blast dest: bind_err_InrD)
  obtain w global_step loss_acc_lr where t: "trained = (w, global_step, loss_acc_lr)"
    by (cases trained) auto
  from k4 [unfolded t prod.case] obtain val where
    v: "(case val_data of
           None \<Rightarrow> Inr None
         | Some vd \<Rightarrow> bind_err (cnn_validate self sess w vd batch_size) (\<lambda>v. Inr (Some v)))
        = Inr val"
    and k5: "bind_err (append_to_log (fl_log st) loss_acc_lr val) (\<lambda>lg.
       Inr (st\<lparr>fl_sess := w, fl_rng := g, fl_X := X, fl_Y := Y, fl_log := lg,
               fl_global_step := global_step, fl_loss_acc_lr := loss_acc_lr\<rparr>)) = Inr st'"
    by (blast dest: bind_err_InrD)
  from k5 obtain lg where lg: "append_to_log (fl_log st) loss_acc_lr val = Inr lg"
    and st': "st' = st\<lparr>fl_sess := w, fl_rng := g, fl_X := X, fl_Y := Y, fl_log := lg,
               fl_global_step := global_step, fl_loss_acc_lr := loss_acc_lr\<rparr>"
    by (auto dest: bind_err_InrD)
  from gx gy tr [unfolded t] v lg st' show ?thesis by blast
qed

lemma cnn_fit_epoch_val_entry:
  assumes "cnn_fit_epoch self sess shuffle (Some (vX, vY)) n_epoch batch_size keep_prob
             en_exp_decay en_shuffle st = Inr st'"
  shows "0 < batch_size \<and>
     zip (batches_from 0 vX (nat batch_size)) (batches_from 0 vY (nat batch_size)) \<noteq> [] \<and>
     log_val_loss (fl_log st') = log_val_loss (fl_log st) @
       [sum_list (map (\<lambda>(xb, yb). fst (cs_eval sess (fl_sess st') xb yb 1))
            (zip (batches_from 0 vX (nat batch_size)) (batches_from 0 vY (nat batch_size))))
        / real (length (zip (batches_from 0 vX (nat batch_size))
                            (batches_from 0 vY (nat batch_size))))] \<and>
     log_val_acc (fl_log st') = log_val_acc (fl_log st) @
       [sum_list (map (\<lambda>(xb, yb). snd (cs_eval sess (fl_sess st') xb yb 1))
            (zip (batches_from 0 vX (nat batch_size)) (batches_from 0 vY (nat batch_size))))
        / real (length (zip (batches_from 0 vX (nat batch_size))
                            (batches_from 0 vY (nat batch_size))))]"
proof -
  let ?V = "zip (batches_from 0 vX (nat batch_size)) (batches_from 0 vY (nat batch_size))"
  from cnn_fit_epoch_InrD [OF assms]
  obtain X Y g X_batches Y_batches w global_step loss_acc_lr val lg where
    gx: "gen_batch X batch_size = Inr X_batches"
    and v: "bind_err (cnn_validate self sess w (vX, vY) batch_size) (\<lambda>v. Inr (Some v)) = Inr val"
    and lg: "append_to_log (fl_log st) loss_acc_lr val = Inr lg"
    and st': "st' = st\<lparr>fl_sess := w, fl_rng := g, fl_X := X, fl_Y := Y, fl_log := lg,
                    fl_global_step := global_step, fl_loss_acc_lr := loss_acc_lr\<rparr>"
    by auto
  from v obtain vl va where val: "val = Some (vl, va)"
    and cv: "cnn_validate self sess w (vX, vY) batch_size = Inr (vl, va)"
    by (auto dest!: bind_err_InrD)
  from cv obtain ll al where lists: "cnn_val_lists self sess w (vX, vY) batch_size = Inr (ll, al)"
    and avg: "val_averages (ll, al) = Inr (vl, va)"
    unfolding cnn_validate_def by (auto dest!: bind_err_InrD)
  note a = val_averages_InrD [OF avg]
  have nz: "batch_size \<noteq> 0" using gx by (auto simp: gen_batch_def split: if_splits)
  have pos: "0 < batch_size"
  proof (rule ccontr)
    assume "\<not> 0 < batch_size"
    with nz have "batch_size < 0" by simp
    from cnn_val_lists_negative [OF this, of self sess w "(vX, vY)"] lists a show False by simp
  qed
  from lists [unfolded cnn_val_lists_eq [OF pos]]
  have ll: "ll = map (\<lambda>(xb, yb). fst (cs_eval sess w xb yb 1)) ?V"
    and al: "al = map (\<lambda>(xb, yb). snd (cs_eval sess w xb yb 1)) ?V"
    by (auto split: if_splits)
  from a ll have Vne: "?V \<noteq> []" by auto
  have w: "fl_sess st' = w" and l: "fl_log st' = lg" by (simp_all add: st')
  from append_to_log_InrD [OF lg [unfolded val]] a
  have "log_val_loss lg = log_val_loss (fl_log st) @ [sum_list ll / real (length ll)]"
    "log_val_acc lg = log_val_acc (fl_log st) @ [sum_list al / real (length al)]"
    by simp_all
  then show ?thesis
    using pos Vne unfolding w l ll al by simp
qed

lemma shuffled_lengths:
  assumes sh_ok: "\<forall>g X Y. length X = length Y \<longrightarrow>
                    length (fst (fst (shuffle g X Y))) = length X \<and>
                    length (snd (fst (shuffle g X Y))) = length Y"
    and inv: "length (fl_X st) = nX" "length (fl_Y st) = nY" "en_shuffle \<longrightarrow> nX = nY"
  shows "\<exists>X Y g. (if en_shuffle then sk_shuffle shuffle (fl_rng st) (fl_X st) (fl_Y st)
                    else Inr ((fl_X st, fl_Y st), fl_rng st)) = Inr ((X, Y), g) \<and>
                  length X = nX \<and> length Y = nY"
proof (cases en_shuffle)
  case False
  with inv show ?thesis by simp
next
  case True
  with inv have eq: "length (fl_X st) = length (fl_Y st)" by simp
  obtain X Y g where sh: "shuffle (fl_rng st) (fl_X st) (fl_Y st) = ((X, Y), g)"
    by (cases "shuffle (fl_rng st) (fl_X st) (fl_Y st)") auto
  from sh_ok eq have "length (fst (fst (shuffle (fl_rng st) (fl_X st) (fl_Y st)))) = length (fl_X st)"
    "length (snd (fst (shuffle (fl_rng st) (fl_X st) (fl_Y st)))) = length (fl_Y st)"
    by blast+
  with sh inv have "length X = nX" "length Y = nY" by simp_all
  with True eq sh show ?thesis by (simp add: sk_shuffle_def)
qed

lemma zip_batches_nonempty:
  "0 < b \<Longrightarrow> X \<noteq> [] \<Longrightarrow> Y \<noteq> [] \<Longrightarrow> zip (batches_from 0 X b) (batches_from 0 Y b) \<noteq> []"
  using batches_from_empty_iff [of b X] batches_from_empty_iff [of b Y]
  by (cases "batches_from 0 X b"; cases "batches_from 0 Y b") auto

lemma zip_batches_run:
  assumes "0 < batch_size"
    and "X = [] \<or> cnn_n_filters self \<noteq> 1 \<and> batch_size \<noteq> 1 \<and> int (length X) mod batch_size \<noteq> 1"
  shows "\<forall>b \<in> set (zip (batches_from 0 X (nat batch_size)) (batches_from 0 Y (nat batch_size))).
           cnn_graph_runs self (fst b)"
proof (cases "X = []")
  case True
  then show ?thesis by (simp add: batches_from_done)
next
  case False
  with assms(2) have nf: "cnn_n_filters self \<noteq> 1"
    and r: "batch_size \<noteq> 1 \<and> int (length X) mod batch_size \<noteq> 1" by simp_all
  from r batches_one_row [OF assms(1), of X]
  have rows: "\<forall>b \<in> set (batches_from 0 X (nat batch_size)). length b \<noteq> 1" by blast
  show ?thesis
  proof
    fix b assume "b \<in> set (zip (batches_from 0 X (nat batch_size)) (batches_from 0 Y (nat batch_size)))"
    then have "fst b \<in> set (batches_from 0 X (nat batch_size))"
      by (metis prod.collapse set_zip_leftD)
    with rows nf show "cnn_graph_runs self (fst b)" by (simp add: cnn_graph_runs_iff)
  qed
qed

lemma cnn_fit_epoch_ok:
  assumes "0 < n_epoch" "0 < batch_size" "vX \<noteq> []" "vY \<noteq> []"
    and sh_ok: "\<forall>g X Y. length X = length Y \<longrightarrow>
                  length (fst (fst (shuffle g X Y))) = length X \<and>
                  length (snd (fst (shuffle g X Y))) = length Y"
    and inv: "length (fl_X st) = nX" "length (fl_Y st) = nY" "en_shuffle \<longrightarrow> nX = nY"
    and ne: "0 < nX" "0 < nY"
    and runs: "cnn_n_filters self \<noteq> 1" "batch_size \<noteq> 1" "int nX mod batch_size \<noteq> 1"
      "int (length vX) mod batch_size \<noteq> 1"
  shows "\<exists>st'. cnn_fit_epoch self sess shuffle (Some (vX, vY)) n_epoch batch_size keep_prob
                en_exp_decay en_shuffle st = Inr st' \<and>
           length (fl_X st') = nX \<and> length (fl_Y st') = nY"
proof -
  let ?b = "nat batch_size"
  have pos: "0 < ?b" using assms(2) by simp
  from shuffled_lengths [OF sh_ok inv] obtain X Y g where
    s1: "(if en_shuffle then sk_shuffle shuffle (fl_rng st) (fl_X st) (fl_Y st)
               else Inr ((fl_X st, fl_Y st), fl_rng st)) = Inr ((X, Y), g)"
    and lens: "length X = nX" "length Y = nY"
    by blast
  let ?Z = "zip (batches_from 0 X ?b) (batches_from 0 Y ?b)"
  have Zne: "?Z \<noteq> []"
    using lens ne by (intro zip_batches_nonempty [OF pos]) auto
  have Zruns: "\<forall>b \<in> set ?Z. cnn_graph_runs self (fst b)"
    using runs lens by (intro zip_batches_run [OF assms(2)]) simp
  have "?Z \<noteq> [] \<longrightarrow> 0 < int (length X)" using lens ne by simp
  from cnn_train_loop_ok [OF assms(1,2) this Zruns, where sess = sess and en_exp_decay = en_exp_decay
      and keep_prob = keep_prob and w = "fl_sess st" and global_step = "fl_global_step st"
      and prev = "fl_loss_acc_lr st"]
  obtain w' prev' where tr: "fold_err
      (cnn_train_step self sess en_exp_decay n_epoch (int (length X)) batch_size keep_prob)
      (fl_sess st, fl_global_step st, fl_loss_acc_lr st) ?Z
      = Inr (w', fl_global_step st + int (length ?Z), prev')"
    and "?Z \<noteq> [] \<longrightarrow> prev' \<noteq> None"
    by blast
  with Zne obtain loss acc lr where prev': "prev' = Some (loss, acc, lr)" by auto
  let ?V = "zip (batches_from 0 vX ?b) (batches_from 0 vY ?b)"
  have Vne: "?V \<noteq> []"
    using assms(3,4) by (intro zip_batches_nonempty [OF pos])
  have Vruns: "\<forall>b \<in> set ?V. cnn_graph_runs self (fst b)"
    using runs by (intro zip_batches_run [OF assms(2)]) simp
  let ?ll = "map (\<lambda>(xb, yb). fst (cs_eval sess w' xb yb 1)) ?V"
  let ?al = "map (\<lambda>(xb, yb). snd (cs_eval sess w' xb yb 1)) ?V"
  have val: "cnn_validate self sess w' (vX, vY) batch_size =
      Inr (sum_list ?ll / real (length ?ll), sum_list ?al / real (length ?al))"
    using Vne Vruns by (simp add: cnn_validate_def cnn_val_lists_eq [OF assms(2)] val_averages_ok)
  have "cnn_fit_epoch self sess shuffle (Some (vX, vY)) n_epoch batch_size keep_prob
      en_exp_decay en_shuffle st =
      Inr (st\<lparr>fl_sess := w', fl_rng := g, fl_X := X, fl_Y := Y,
             fl_log := \<lparr>log_loss = log_loss (fl_log st) @ [loss],
                        log_acc = log_acc (fl_log st) @ [acc],
                        log_val_loss = log_val_loss (fl_log st) @ [sum_list ?ll / real (length ?ll)],
                        log_val_acc = log_val_acc (fl_log st) @ [sum_list ?al / real (length ?al)]\<rparr>,
             fl_global_step := fl_global_step st + int (length ?Z),
             fl_loss_acc_lr := prev'\<rparr>)"
    unfolding cnn_fit_epoch_def s1
    using assms(2) tr val by (simp add: gen_batch_pos prev' append_to_log_val)
  then show ?thesis using lens by simp
qed

lemma cnn_fit_epoch_empty_val_raises:
  "\<exists>e. cnn_fit_epoch self sess shuffle (Some ([], vY)) n_epoch batch_size keep_prob
          en_exp_decay en_shuffle st = Inl e"
proof (cases "cnn_fit_epoch self sess shuffle (Some ([], vY)) n_epoch batch_size keep_prob
          en_exp_decay en_shuffle st")
  case (Inl e)
  then show ?thesis by blast
next
  case (Inr st')
  from cnn_fit_epoch_val_entry [OF Inr] show ?thesis by (simp add: batches_from_done)
qed

lemma cnn_fit_epoch_empty_val:
  assumes "0 < n_epoch" "0 < batch_size"
    and sh_ok: "\<forall>g X Y. length X = length Y \<longrightarrow>
                  length (fst (fst (shuffle g X Y))) = length X \<and>
                  length (snd (fst (shuffle g X Y))) = length Y"
    and eq: "en_shuffle \<longrightarrow> length (fl_X st) = length (fl_Y st)"
    and runs: "fl_X st = [] \<or>
       cnn_n_filters self \<noteq> 1 \<and> batch_size \<noteq> 1 \<and> int (length (fl_X st)) mod batch_size \<noteq> 1"
  shows "cnn_fit_epoch self sess shuffle (Some ([], vY)) n_epoch batch_size keep_prob
           en_exp_decay en_shuffle st = Inl ZeroDivisionError"
proof -
  let ?b = "nat batch_size"
  from shuffled_lengths [OF sh_ok refl refl eq] obtain X Y g where
    s1: "(if en_shuffle then sk_shuffle shuffle (fl_rng st) (fl_X st) (fl_Y st)
               else Inr ((fl_X st, fl_Y st), fl_rng st)) = Inr ((X, Y), g)"
    and lens: "length X = length (fl_X st)" "length Y = length (fl_Y st)"
    by blast
  let ?Z = "zip (batches_from 0 X ?b) (batches_from 0 Y ?b)"
  have "X = [] \<or> cnn_n_filters self \<noteq> 1 \<and> batch_size \<noteq> 1 \<and> int (length X) mod batch_size \<noteq> 1"
    using runs lens by auto
  then have Zruns: "\<forall>b \<in> set ?Z. cnn_graph_runs self (fst b)"
    by (rule zip_batches_run [OF assms(2)])
  have "?Z \<noteq> [] \<longrightarrow> 0 < int (length X)"
    using batches_from_done [of X 0 ?b] by (cases X) auto
  from cnn_train_loop_ok [OF assms(1,2) this Zruns, where sess = sess and en_exp_decay = en_exp_decay
      and keep_prob = keep_prob and w = "fl_sess st" and global_step = "fl_global_step st"
      and prev = "fl_loss_acc_lr st"]
  obtain w' prev' where tr: "fold_err
      (cnn_train_step self sess en_exp_decay n_epoch (int (length X)) batch_size keep_prob)
      (fl_sess st, fl_global_step st, fl_loss_acc_lr st) ?Z
      = Inr (w', fl_global_step st + int (length ?Z), prev')"
    by blast
  have nz: "batch_size \<noteq> 0" using assms(2) by simp
  show ?thesis
    unfolding cnn_fit_epoch_def s1
    using assms(2) tr by (simp add: gen_batch_pos cnn_validate_empty [OF nz])
qed

lemma cnn_fit_val_entries:
  assumes "cnn_fit self sess shuffle w g X Y (Some (vX, vY)) n_epoch batch_size keep_prob
             en_exp_decay en_shuffle = Inr (lg, w', g')"
  shows "length (log_val_loss lg) = nat n_epoch \<and> length (log_val_acc lg) = nat n_epoch \<and>
     (\<forall>e<nat n_epoch. \<exists>st.
        cnn_fit_epochs self sess shuffle w g X Y (Some (vX, vY)) n_epoch batch_size keep_prob
          en_exp_decay en_shuffle (Suc e) = Inr st \<and>
        0 < batch_size \<and>
        zip (batches_from 0 vX (nat batch_size)) (batches_from 0 vY (nat batch_size)) \<noteq> [] \<and>
        log_val_loss lg ! e =
          sum_list (map (\<lambda>(xb, yb). fst (cs_eval sess (fl_sess st) xb yb 1))
                      (zip (batches_from 0 vX (nat batch_size)) (batches_from 0 vY (nat batch_size))))
          / real (length (zip (batches_from 0 vX (nat batch_size))
                              (batches_from 0 vY (nat batch_size)))) \<and>
        log_val_acc lg ! e =
          sum_list (map (\<lambda>(xb, yb). snd (cs_eval sess (fl_sess st) xb yb 1))
                      (zip (batches_from 0 vX (nat batch_size)) (batches_from 0 vY (nat batch_size))))
          / real (length (zip (batches_from 0 vX (nat batch_size))
                              (batches_from 0 vY (nat batch_size)))))"
proof -
  let ?V = "zip (batches_from 0 vX (nat batch_size)) (batches_from 0 vY (nat batch_size))"
  let ?f = "cnn_fit_epoch self sess shuffle (Some (vX, vY)) n_epoch batch_size keep_prob
      en_exp_decay en_shuffle"
  let ?s0 = "\<lparr>fl_sess = cs_global_variables_initializer sess w, fl_rng = g, fl_X = X, fl_Y = Y,
      fl_log = empty_log, fl_global_step = 0, fl_loss_acc_lr = None\<rparr>"
  let ?loss = "\<lambda>st. sum_list (map (\<lambda>(xb, yb). fst (cs_eval sess (fl_sess st) xb yb 1)) ?V)
      / real (length ?V)"
  let ?acc = "\<lambda>st. sum_list (map (\<lambda>(xb, yb). snd (cs_eval sess (fl_sess st) xb yb 1)) ?V)
      / real (length ?V)"
  from assms obtain st where run: "repeat_err (nat n_epoch) ?f ?s0 = Inr st"
    and lg: "lg = fl_log st"
    unfolding cnn_fit_def cnn_fit_epochs_def by (auto dest!: bind_err_InrD)
  have step_l: "log_val_loss (fl_log s') = log_val_loss (fl_log s) @ [?loss s']"
    and step_a: "log_val_acc (fl_log s') = log_val_acc (fl_log s) @ [?acc s']"
    and step_p: "0 < batch_size \<and> ?V \<noteq> []"
    if "?f s = Inr s'" for s s'
    using cnn_fit_epoch_val_entry [OF that] by simp_all
  from repeat_err_entries [of ?f "\<lambda>s. log_val_loss (fl_log s)" ?loss, OF step_l run]
  obtain ls where ls: "log_val_loss (fl_log st) = log_val_loss (fl_log ?s0) @ ls"
      "length ls = nat n_epoch"
    and le: "\<forall>e<nat n_epoch. \<exists>se. repeat_err (Suc e) ?f ?s0 = Inr se \<and> ls ! e = ?loss se"
    by blast
  from repeat_err_entries [of ?f "\<lambda>s. log_val_acc (fl_log s)" ?acc, OF step_a run]
  obtain as where as: "log_val_acc (fl_log st) = log_val_acc (fl_log ?s0) @ as"
      "length as = nat n_epoch"
    and ae: "\<forall>e<nat n_epoch. \<exists>se. repeat_err (Suc e) ?f ?s0 = Inr se \<and> as ! e = ?acc se"
    by blast
  have l: "log_val_loss lg = ls" and a: "log_val_acc lg = as"
    using ls(1) as(1) by (simp_all add: lg empty_log_def)
  have each: "\<exists>se. repeat_err (Suc e) ?f ?s0 = Inr se \<and> 0 < batch_size \<and> ?V \<noteq> [] \<and>
      ls ! e = ?loss se \<and> as ! e = ?acc se" if e: "e < nat n_epoch" for e
  proof -
    from le e obtain se where se: "repeat_err (Suc e) ?f ?s0 = Inr se" "ls ! e = ?loss se" by blast
    from ae e obtain se' where se': "repeat_err (Suc e) ?f ?s0 = Inr se'" "as ! e = ?acc se'" by blast
    from se(1) se'(1) have same: "se' = se" by simp
    from se(1) obtain s1 where "?f ?s0 = Inr s1" by (cases "?f ?s0") simp_all
    from step_p [OF this] se se' same show ?thesis by blast
  qed
  show ?thesis
    unfolding l a cnn_fit_epochs_def using ls(2) as(2) each by blast
qed

lemma cnn_fit_returns:
  assumes "0 < batch_size" "X \<noteq> []" "Y \<noteq> []" "vX \<noteq> []" "vY \<noteq> []"
    and "en_shuffle \<longrightarrow> length X = length Y"
    and sh_ok: "\<forall>g X Y. length X = length Y \<longrightarrow>
           length (fst (fst (shuffle g X Y))) = length X \<and>
           length (snd (fst (shuffle g X Y))) = length Y"
    and runs: "cnn_n_filters self \<noteq> 1" "batch_size \<noteq> 1" "int (length X) mod batch_size \<noteq> 1"
      "int (length vX) mod batch_size \<noteq> 1"
  shows "\<exists>lg w' g'. cnn_fit self sess shuffle w g X Y (Some (vX, vY)) n_epoch batch_size keep_prob
           en_exp_decay en_shuffle = Inr (lg, w', g')"
proof (cases "0 < n_epoch")
  case False
  then have "nat n_epoch = 0" by simp
  then show ?thesis by (simp add: cnn_fit_def cnn_fit_epochs_def)
next
  case True
  let ?f = "cnn_fit_epoch self sess shuffle (Some (vX, vY)) n_epoch batch_size keep_prob
      en_exp_decay en_shuffle"
  let ?s0 = "\<lparr>fl_sess = cs_global_variables_initializer sess w, fl_rng = g, fl_X = X, fl_Y = Y,
      fl_log = empty_log, fl_global_step = 0, fl_loss_acc_lr = None\<rparr>"
  let ?Inv = "\<lambda>st. length (fl_X st) = length X \<and> length (fl_Y st) = length Y"
  have step: "\<exists>s'. ?f s = Inr s' \<and> ?Inv s'" if "?Inv s" for s
    using cnn_fit_epoch_ok [OF True assms(1,4,5) sh_ok, of s "length X" "length Y" en_shuffle self
        sess keep_prob en_exp_decay] that assms(2,3,6) runs
    by simp
  have "?Inv ?s0" by simp
  from repeat_err_total [of ?Inv ?f ?s0 "nat n_epoch", OF step this]
  obtain s where "repeat_err (nat n_epoch) ?f ?s0 = Inr s" by blast
  then show ?thesis by (simp add: cnn_fit_def cnn_fit_epochs_def)
qed

subsection \<open>Facts about \<^verbatim>\<open>RNNTextClassifier.fit\<close>\<close>

lemma rnn_train_step_eq:
  assumes "0 < batch_size" "int32 batch_size" "length (fst b) \<le> nat batch_size"
  shows "rnn_train_step sess stateful en_exp_decay n_epoch len_X batch_size rnn_keep_prob st b =
     (if stateful \<and> int (length (fst b)) = batch_size
      then rnn_train_carry sess en_exp_decay n_epoch len_X batch_size rnn_keep_prob st b
      else rnn_train_fresh sess en_exp_decay n_epoch len_X batch_size rnn_keep_prob st b)"
proof -
  obtain w s gs prev where st: "st = (w, s, gs, prev)" by (cases st) auto
  obtain xb yb where b: "b = (xb, yb)" by (cases b)
  have i: "int32 (int (length xb))" using assms b by (intro int32_batch) simp_all
  show ?thesis
  proof (cases "rnn_decrease_lr en_exp_decay (real_of_int gs) n_epoch len_X batch_size")
    case (Inl e)
    then show ?thesis
      by (simp add: st b rnn_train_step_def rnn_train_carry_def rnn_train_fresh_def)
  next
    case (Inr lr)
    then show ?thesis
      using assms(2) i
      by (simp add: st b rnn_train_step_def rnn_train_carry_def rnn_train_fresh_def
          rnn_run_train_def rnn_initial_state_zero rnn_initial_state_fed split: prod.splits)
  qed
qed

lemma rnn_train_loop_pass:
  assumes "0 < batch_size" "int32 batch_size"
    and "\<forall>b \<in> set batches. length (fst b) \<le> nat batch_size"
  shows "rnn_train_loop sess stateful en_exp_decay n_epoch len_X batch_size rnn_keep_prob
           (w, rs_zero_state sess batch_size, global_step, prev) batches =
         rnn_train_pass sess stateful en_exp_decay n_epoch len_X batch_size rnn_keep_prob
           (w, global_step, prev) batches"
  unfolding rnn_train_loop_def rnn_train_pass_def prod.case
  by (rule fold_err_cong_set) (use assms in \<open>simp add: rnn_train_step_eq\<close>)

lemma rnn_train_pass_ok_aux:
  assumes "0 < n_epoch" "0 < batch_size" "batches \<noteq> [] \<longrightarrow> 0 < len_X"
  shows "\<exists>w' s' prev'.
           fold_err (\<lambda>st batch. if stateful \<and> int (length (fst batch)) = batch_size
                              then rnn_train_carry sess en_exp_decay n_epoch len_X batch_size
                                     rnn_keep_prob st batch
                              else rnn_train_fresh sess en_exp_decay n_epoch len_X batch_size
                                     rnn_keep_prob st batch)
             (w, s, global_step, prev) batches
             = Inr (w', s', global_step + int (length batches), prev') \<and>
           (batches \<noteq> [] \<longrightarrow> prev' \<noteq> None)"
  using assms(3)
proof (induction batches arbitrary: w s global_step prev)
  case Nil
  then show ?case by simp
next
  case (Cons b batches)
  let ?step = "\<lambda>st batch. if stateful \<and> int (length (fst batch)) = batch_size
                              then rnn_train_carry sess en_exp_decay n_epoch len_X batch_size
                                     rnn_keep_prob st batch
                              else rnn_train_fresh sess en_exp_decay n_epoch len_X batch_size
                                     rnn_keep_prob st batch"
  from Cons.prems have len: "0 < len_X" by simp
  obtain xb yb where b: "b = (xb, yb)" by (cases b)
  from rnn_decrease_lr_ok [OF assms(1) len assms(2)] obtain lr where
    lr: "rnn_decrease_lr en_exp_decay (real_of_int global_step) n_epoch len_X batch_size = Inr lr"
    by blast
  have "\<exists>w1 s1 loss acc. ?step (w, s, global_step, prev) b
      = Inr (w1, s1, global_step + 1, Some (loss, acc, lr))"
    by (simp add: b rnn_train_carry_def rnn_train_fresh_def lr split: prod.splits)
  then obtain w1 s1 loss acc where step: "?step (w, s, global_step, prev) b
      = Inr (w1, s1, global_step + 1, Some (loss, acc, lr))"
    by blast
  from Cons.IH [of w1 s1 "global_step + 1" "Some (loss, acc, lr)"] len
  obtain w' s' prev' where
    rest: "fold_err ?step (w1, s1, global_step + 1, Some (loss, acc, lr)) batches
      = Inr (w', s', global_step + 1 + int (length batches), prev')"
      and some: "batches \<noteq> [] \<longrightarrow> prev' \<noteq> None"
    by blast
  have "prev' \<noteq> None"
  proof (cases batches)
    case Nil
    with rest show ?thesis by auto
  next
    case (Cons c cs)
    with some show ?thesis by simp
  qed
  with step rest show ?case by (simp add: add.assoc)
qed

lemma rnn_train_pass_ok:
  assumes "0 < n_epoch" "0 < batch_size" "batches \<noteq> [] \<longrightarrow> 0 < len_X"
  shows "\<exists>w' s' prev'.
           rnn_train_pass sess stateful en_exp_decay n_epoch len_X batch_size rnn_keep_prob
             (w, global_step, prev) batches
             = Inr (w', s', global_step + int (length batches), prev') \<and>
           (batches \<noteq> [] \<longrightarrow> prev' \<noteq> None)"
  unfolding rnn_train_pass_def prod.case by (rule rnn_train_pass_ok_aux [OF assms])

lemma rnn_val_step_eq:
  assumes "0 < batch_size" "int32 batch_size" "length (fst b) \<le> nat batch_size"
  shows "rnn_val_step sess stateful w batch_size acc b =
     Inr (if stateful \<and> int (length (fst b)) = batch_size then rnn_val_carry sess w acc b
          else rnn_val_fresh sess w acc b)"
proof -
  obtain s ll al where acc: "acc = (s, ll, al)" by (cases acc) auto
  obtain xb yb where b: "b = (xb, yb)" by (cases b)
  have i: "int32 (int (length xb))" using assms b by (intro int32_batch) simp_all
  show ?thesis
    using assms(2) i
    by (simp add: acc b rnn_val_step_def rnn_val_carry_def rnn_val_fresh_def rnn_run_eval_def
        rnn_initial_state_zero rnn_initial_state_fed split: prod.splits)
qed

lemma rnn_val_loop_pass:
  assumes "0 < batch_size" "int32 batch_size"
    and "\<forall>b \<in> set batches. length (fst b) \<le> nat batch_size"
  shows "rnn_val_loop sess stateful w batch_size (rs_zero_state sess batch_size) batches =
           Inr (rnn_val_pass sess stateful w batch_size batches)"
  unfolding rnn_val_loop_def rnn_val_pass_def
  by (rule fold_err_Inr) (use assms in \<open>simp add: rnn_val_step_eq\<close>)

lemma rnn_val_pass_lengths_aux:
  "length (fst (snd (foldl (\<lambda>acc batch. if stateful \<and> int (length (fst batch)) = batch_size
                         then rnn_val_carry sess w acc batch
                         else rnn_val_fresh sess w acc batch) (s, ll, al) batches)))
     = length ll + length batches \<and>
   length (snd (snd (foldl (\<lambda>acc batch. if stateful \<and> int (length (fst batch)) = batch_size
                         then rnn_val_carry sess w acc batch
                         else rnn_val_fresh sess w acc batch) (s, ll, al) batches)))
     = length al + length batches"
proof (induction batches arbitrary: s ll al)
  case Nil
  then show ?case by simp
next
  case (Cons b batches)
  obtain xb yb where b: "b = (xb, yb)" by (cases b)
  show ?case
  proof (cases "stateful \<and> int (length (fst b)) = batch_size")
    case True
    obtain l a f where r: "rs_eval sess w xb yb 1 s = (l, a, f)"
      by (cases "rs_eval sess w xb yb 1 s") auto
    with True Cons.IH [of f "ll @ [l]" "al @ [a]"] show ?thesis
      by (simp add: b rnn_val_carry_def)
  next
    case False
    obtain l a f where r: "rs_eval sess w xb yb 1 (rs_zero_state sess (int (length xb))) = (l, a, f)"
      by (cases "rs_eval sess w xb yb 1 (rs_zero_state sess (int (length xb)))") auto
    with False Cons.IH [of s "ll @ [l]" "al @ [a]"] show ?thesis
      by (auto simp: b rnn_val_fresh_def)
  qed
qed

lemma rnn_val_pass_lengths:
  "length (fst (snd (rnn_val_pass sess stateful w batch_size batches))) = length batches \<and>
   length (snd (snd (rnn_val_pass sess stateful w batch_size batches))) = length batches"
  using rnn_val_pass_lengths_aux [of stateful batch_size sess w "rs_zero_state sess batch_size"
      "[]" "[]" batches]
  unfolding rnn_val_pass_def by simp

lemma zip_batches_le:
  "\<forall>b \<in> set (zip (batches_from 0 X n) (batches_from 0 Y n)). length (fst b) \<le> n"
proof
  fix b assume "b \<in> set (zip (batches_from 0 X n) (batches_from 0 Y n))"
  then have "fst b \<in> set (batches_from 0 X n)" by (metis prod.collapse set_zip_leftD)
  then show "length (fst b) \<le> n" by (rule batches_from_le)
qed

lemma rnn_val_lists_eq:
  assumes "0 < batch_size" "int32 batch_size"
  shows "rnn_val_lists sess stateful w (vX, vY) batch_size =
     Inr (snd (rnn_val_pass sess stateful w batch_size
                 (zip (batches_from 0 vX (nat batch_size)) (batches_from 0 vY (nat batch_size)))))"
  using assms
  by (simp add: rnn_val_lists_def rnn_initial_state_zero gen_batch_pos
      rnn_val_loop_pass [OF assms zip_batches_le])

lemma rnn_fit_epoch_eq:
  assumes "0 < batch_size" "int32 batch_size"
  shows "rnn_fit_epoch sess shuffle stateful val_data n_epoch batch_size en_exp_decay en_shuffle
           rnn_keep_prob st =
         rnn_epoch_in_passes sess shuffle stateful val_data n_epoch batch_size en_exp_decay
           en_shuffle rnn_keep_prob st"
proof (cases "if en_shuffle then sk_shuffle shuffle (fl_rng st) (fl_X st) (fl_Y st)
               else Inr ((fl_X st, fl_Y st), fl_rng st)")
  case (Inl e)
  then show ?thesis by (simp add: rnn_fit_epoch_def rnn_epoch_in_passes_def)
next
  case (Inr shuffled)
  obtain X Y g where sh: "shuffled = ((X, Y), g)" by (cases shuffled) auto
  have val: "rnn_validate sess stateful w vd batch_size =
      val_averages (snd (rnn_val_pass sess stateful w batch_size
                 (zip (batches_from 0 (fst vd) (nat batch_size))
                      (batches_from 0 (snd vd) (nat batch_size)))))" for w vd
    using rnn_val_lists_eq [OF assms, of sess stateful w "fst vd" "snd vd"]
    by (simp add: rnn_validate_def)
  show ?thesis
    unfolding rnn_fit_epoch_def rnn_epoch_in_passes_def Inr sh bind_err_Inr prod.case
    using assms
    by (cases val_data)
      (simp_all add: rnn_initial_state_zero gen_batch_pos
        rnn_train_loop_pass [OF assms zip_batches_le] val)
qed

lemma rnn_fit_epoch_batch_size:
  assumes "rnn_fit_epoch sess shuffle stateful val_data n_epoch batch_size en_exp_decay en_shuffle
             rnn_keep_prob st = Inr st'"
  shows "0 < batch_size \<and> int32 batch_size"
proof -
  from assms obtain shuffled where
    k1: "(case shuffled of ((X, Y), g) \<Rightarrow>
     bind_err (rnn_initial_state sess batch_size None) (\<lambda>next_state.
     bind_err (gen_batch X batch_size) (\<lambda>X_batches.
     bind_err (gen_batch Y batch_size) (\<lambda>Y_batches.
     bind_err (rnn_train_loop sess stateful en_exp_decay n_epoch (int (length X)) batch_size
                 rnn_keep_prob (fl_sess st, next_state, fl_global_step st, fl_loss_acc_lr st)
                 (zip X_batches Y_batches))
       (\<lambda>trained. case trained of (w, _, global_step, loss_acc_lr) \<Rightarrow>
     bind_err (case val_data of
                 None \<Rightarrow> Inr None
               | Some vd \<Rightarrow> bind_err (rnn_validate sess stateful w vd batch_size) (\<lambda>v. Inr (Some v)))
       (\<lambda>val.
     bind_err (append_to_log (fl_log st) loss_acc_lr val) (\<lambda>lg.
       Inr (st\<lparr>fl_sess := w, fl_rng := g, fl_X := X, fl_Y := Y, fl_log := lg,
               fl_global_step := global_step, fl_loss_acc_lr := loss_acc_lr\<rparr>)))))))) = Inr st'"
    unfolding rnn_fit_epoch_def by (blast dest: bind_err_InrD)
  obtain X Y g where sh: "shuffled = ((X, Y), g)" by (cases shuffled) auto
  from k1 [unfolded sh prod.case] obtain next_state where
    i: "rnn_initial_state sess batch_size None = Inr next_state"
    and k2: "bind_err (gen_batch X batch_size) (\<lambda>X_batches.
     bind_err (gen_batch Y batch_size) (\<lambda>Y_batches.
     bind_err (rnn_train_loop sess stateful en_exp_decay n_epoch (int (length X)) batch_size
                 rnn_keep_prob (fl_sess st, next_state, fl_global_step st, fl_loss_acc_lr st)
                 (zip X_batches Y_batches))
       (\<lambda>trained. case trained of (w, _, global_step, loss_acc_lr) \<Rightarrow>
     bind_err (case val_data of
                 None \<Rightarrow> Inr None
               | Some vd \<Rightarrow> bind_err (rnn_validate sess stateful w vd batch_size) (\<lambda>v. Inr (Some v)))
       (\<lambda>val.
     bind_err (append_to_log (fl_log st) loss_acc_lr val) (\<lambda>lg.
       Inr (st\<lparr>fl_sess := w, fl_rng := g, fl_X := X, fl_Y := Y, fl_log := lg,
               fl_global_step := global_step, fl_loss_acc_lr := loss_acc_lr\<rparr>)))))) = Inr st'"
    by (blast dest: bind_err_InrD)
  from k2 obtain X_batches where "gen_batch X batch_size = Inr X_batches"
    by (blast dest: bind_err_InrD)
  then have nz: "batch_size \<noteq> 0" by (auto simp: gen_batch_def split: if_splits)
  from i have "int32 batch_size \<and> 0 \<le> batch_size"
    by (auto simp: rnn_initial_state_def split: if_splits)
  with nz show ?thesis by simp
qed

lemma rnn_epoch_in_passes_InrD:
  assumes "rnn_epoch_in_passes sess shuffle stateful (Some (vX, vY)) n_epoch batch_size
             en_exp_decay en_shuffle rnn_keep_prob st = Inr st'"
  shows "\<exists>w loss_acc_lr vl va lg.
           val_averages (snd (rnn_val_pass sess stateful w batch_size
                         (zip (batches_from 0 vX (nat batch_size))
                              (batches_from 0 vY (nat batch_size))))) = Inr (vl, va) \<and>
           append_to_log (fl_log st) loss_acc_lr (Some (vl, va)) = Inr lg \<and>
           fl_sess st' = w \<and> fl_log st' = lg"
proof -
  from assms obtain shuffled where
    k1: "(case shuffled of ((X, Y), g) \<Rightarrow>
     bind_err (rnn_train_pass sess stateful en_exp_decay n_epoch (int (length X)) batch_size
                 rnn_keep_prob (fl_sess st, fl_global_step st, fl_loss_acc_lr st)
                 (zip (batches_from 0 X (nat batch_size)) (batches_from 0 Y (nat batch_size))))
       (\<lambda>trained. case trained of (w, _, global_step, loss_acc_lr) \<Rightarrow>
     bind_err (case Some (vX, vY) of
                 None \<Rightarrow> Inr None
               | Some vd \<Rightarrow>
                   bind_err (val_averages
                               (snd (rnn_val_pass sess stateful w batch_size
                                       (zip (batches_from 0 (fst vd) (nat batch_size))
                                            (batches_from 0 (snd vd) (nat batch_size))))))
                     (\<lambda>v. Inr (Some v)))
       (\<lambda>val.
     bind_err (append_to_log (fl_log st) loss_acc_lr val) (\<lambda>lg.
       Inr (st\<lparr>fl_sess := w, fl_rng := g, fl_X := X, fl_Y := Y, fl_log := lg,
               fl_global_step := global_step, fl_loss_acc_lr := loss_acc_lr\<rparr>))))) = Inr st'"
    unfolding rnn_epoch_in_passes_def by (blast dest: bind_err_InrD)
  obtain X Y g where sh: "shuffled = ((X, Y), g)" by (cases shuffled) auto
  from k1 [unfolded sh prod.case] obtain trained where
    tr: "rnn_train_pass sess stateful en_exp_decay n_epoch (int (length X)) batch_size
                 rnn_keep_prob (fl_sess st, fl_global_step st, fl_loss_acc_lr st)
                 (zip (batches_from 0 X (nat batch_size)) (batches_from 0 Y (nat batch_size)))
           = Inr trained"
    and k2: "(case trained of (w, _, global_step, loss_acc_lr) \<Rightarrow>
     bind_err (case Some (vX, vY) of
                 None \<Rightarrow> Inr None
               | Some vd \<Rightarrow>
                   bind_err (val_averages
                               (snd (rnn_val_pass sess stateful w batch_size
                                       (zip (batches_from 0 (fst vd) (nat batch_size))
                                            (batches_from 0 (snd vd) (nat batch_size))))))
                     (\<lambda>v. Inr (Some v)))
       (\<lambda>val.
     bind_err (append_to_log (fl_log st) loss_acc_lr val) (\<lambda>lg.
       Inr (st\<lparr>fl_sess := w, fl_rng := g, fl_X := X, fl_Y := Y, fl_log := lg,
               fl_global_step := global_step, fl_loss_acc_lr := loss_acc_lr\<rparr>)))) = Inr st'"
    by (blast dest: bind_err_InrD)
  obtain w s global_step loss_acc_lr where t: "trained = (w, s, global_step, loss_acc_lr)"
    by (cases trained) auto
  from k2 [unfolded t prod.case option.case fst_conv snd_conv] obtain val where
    v: "bind_err (val_averages
                   (snd (rnn_val_pass sess stateful w batch_size
                           (zip (batches_from 0 vX (nat batch_size))
                                (batches_from 0 vY (nat batch_size))))))
          (\<lambda>v. Inr (Some v)) = Inr val"
    and k3: "bind_err (append_to_log (fl_log st) loss_acc_lr val) (\<lambda>lg.
       Inr (st\<lparr>fl_sess := w, fl_rng := g, fl_X := X, fl_Y := Y, fl_log := lg,
               fl_global_step := global_step, fl_loss_acc_lr := loss_acc_lr\<rparr>)) = Inr st'"
    by (blast dest: bind_err_InrD)
  from v obtain vl va where val: "val = Some (vl, va)"
    and avg: "val_averages
                   (snd (rnn_val_pass sess stateful w batch_size
                           (zip (batches_from 0 vX (nat batch_size))
                                (batches_from 0 vY (nat batch_size))))) = Inr (vl, va)"
    by (auto dest!: bind_err_InrD)
  from k3 obtain lg where lg: "append_to_log (fl_log st) loss_acc_lr val = Inr lg"
    and st': "st' = st\<lparr>fl_sess := w, fl_rng := g, fl_X := X, fl_Y := Y, fl_log := lg,
               fl_global_step := global_step, fl_loss_acc_lr := loss_acc_lr\<rparr>"
    by (auto dest: bind_err_InrD)
  have "fl_sess st' = w" "fl_log st' = lg" by (simp_all add: st')
  with avg lg [unfolded val] show ?thesis by blast
qed

lemma rnn_fit_epoch_val_entry:
  assumes "rnn_fit_epoch sess shuffle stateful (Some (vX, vY)) n_epoch batch_size en_exp_decay
             en_shuffle rnn_keep_prob st = Inr st'"
  shows "0 < batch_size \<and> batch_size < 2147483648 \<and>
     zip (batches_from 0 vX (nat batch_size)) (batches_from 0 vY (nat batch_size)) \<noteq> [] \<and>
     log_val_loss (fl_log st') = log_val_loss (fl_log st) @
       [sum_list (fst (snd (rnn_val_pass sess stateful (fl_sess st') batch_size
            (zip (batches_from 0 vX (nat batch_size)) (batches_from 0 vY (nat batch_size))))))
        / real (length (zip (batches_from 0 vX (nat batch_size))
                            (batches_from 0 vY (nat batch_size))))] \<and>
     log_val_acc (fl_log st') = log_val_acc (fl_log st) @
       [sum_list (snd (snd (rnn_val_pass sess stateful (fl_sess st') batch_size
            (zip (batches_from 0 vX (nat batch_size)) (batches_from 0 vY (nat batch_size))))))
        / real (length (zip (batches_from 0 vX (nat batch_size))
                            (batches_from 0 vY (nat batch_size))))]"
proof -
  let ?V = "zip (batches_from 0 vX (nat batch_size)) (batches_from 0 vY (nat batch_size))"
  from rnn_fit_epoch_batch_size [OF assms] have pos: "0 < batch_size" and i32: "int32 batch_size"
    by simp_all
  from assms [unfolded rnn_fit_epoch_eq [OF pos i32]]
  obtain w loss_acc_lr vl va lg where
    avg: "val_averages (snd (rnn_val_pass sess stateful w batch_size ?V)) = Inr (vl, va)"
    and lg: "append_to_log (fl_log st) loss_acc_lr (Some (vl, va)) = Inr lg"
    and w: "fl_sess st' = w" and l: "fl_log st' = lg"
    by (blast dest: rnn_epoch_in_passes_InrD)
  let ?ll = "fst (snd (rnn_val_pass sess stateful w batch_size ?V))"
  let ?al = "snd (snd (rnn_val_pass sess stateful w batch_size ?V))"
  from avg have avg': "val_averages (?ll, ?al) = Inr (vl, va)" by simp
  note a = val_averages_InrD [OF avg']
  note n = rnn_val_pass_lengths [of sess stateful w batch_size ?V]
  from a n have Vne: "?V \<noteq> []" by auto
  from append_to_log_InrD [OF lg] a n
  have "log_val_loss lg = log_val_loss (fl_log st) @ [sum_list ?ll / real (length ?V)]"
    "log_val_acc lg = log_val_acc (fl_log st) @ [sum_list ?al / real (length ?V)]"
    by simp_all
  then show ?thesis
    using pos i32 Vne unfolding w l by (simp add: int32_def)
qed

lemma val_averages_pass:
  assumes "batches \<noteq> []"
  shows "val_averages (snd (rnn_val_pass sess stateful w batch_size batches)) =
     Inr (sum_list (fst (snd (rnn_val_pass sess stateful w batch_size batches)))
            / real (length batches),
          sum_list (snd (snd (rnn_val_pass sess stateful w batch_size batches)))
            / real (length batches))"
proof -
  let ?p = "rnn_val_pass sess stateful w batch_size batches"
  note n = rnn_val_pass_lengths [of sess stateful w batch_size batches]
  have "val_averages (snd ?p) = val_averages (fst (snd ?p), snd (snd ?p))" by simp
  also have "\<dots> = Inr (sum_list (fst (snd ?p)) / real (length (fst (snd ?p))),
                        sum_list (snd (snd ?p)) / real (length (snd (snd ?p))))"
    using n assms by (intro val_averages_ok) auto
  finally show ?thesis using n by simp
qed

lemma val_averages_pass_empty:
  "val_averages (snd (rnn_val_pass sess stateful w batch_size [])) = Inl ZeroDivisionError"
  by (simp add: rnn_val_pass_def val_averages_empty)

lemma rnn_fit_epoch_ok:
  assumes "0 < n_epoch" "0 < batch_size" "int32 batch_size" "vX \<noteq> []" "vY \<noteq> []"
    and sh_ok: "\<forall>g X Y. length X = length Y \<longrightarrow>
                  length (fst (fst (shuffle g X Y))) = length X \<and>
                  length (snd (fst (shuffle g X Y))) = length Y"
    and inv: "length (fl_X st) = nX" "length (fl_Y st) = nY" "en_shuffle \<longrightarrow> nX = nY"
    and ne: "0 < nX" "0 < nY"
  shows "\<exists>st'. rnn_fit_epoch sess shuffle stateful (Some (vX, vY)) n_epoch batch_size
                en_exp_decay en_shuffle rnn_keep_prob st = Inr st' \<and>
           length (fl_X st') = nX \<and> length (fl_Y st') = nY"
proof -
  let ?b = "nat batch_size"
  have pos: "0 < ?b" using assms(2) by simp
  from shuffled_lengths [OF sh_ok inv] obtain X Y g where
    s1: "(if en_shuffle then sk_shuffle shuffle (fl_rng st) (fl_X st) (fl_Y st)
               else Inr ((fl_X st, fl_Y st), fl_rng st)) = Inr ((X, Y), g)"
    and lens: "length X = nX" "length Y = nY"
    by blast
  let ?Z = "zip (batches_from 0 X ?b) (batches_from 0 Y ?b)"
  have Zne: "?Z \<noteq> []"
    using lens ne by (intro zip_batches_nonempty [OF pos]) auto
  have "?Z \<noteq> [] \<longrightarrow> 0 < int (length X)" using lens ne by simp
  from rnn_train_pass_ok [OF assms(1,2) this, where sess = sess and stateful = stateful
      and en_exp_decay = en_exp_decay and rnn_keep_prob = rnn_keep_prob and w = "fl_sess st"
      and global_step = "fl_global_step st" and prev = "fl_loss_acc_lr st"]
  obtain w' s' prev' where tr: "rnn_train_pass sess stateful en_exp_decay n_epoch (int (length X))
      batch_size rnn_keep_prob (fl_sess st, fl_global_step st, fl_loss_acc_lr st) ?Z
      = Inr (w', s', fl_global_step st + int (length ?Z), prev')"
    and "?Z \<noteq> [] \<longrightarrow> prev' \<noteq> None"
    by blast
  with Zne obtain loss acc lr where prev': "prev' = Some (loss, acc, lr)" by auto
  let ?V = "zip (batches_from 0 vX ?b) (batches_from 0 vY ?b)"
  have Vne: "?V \<noteq> []"
    using assms(4,5) by (intro zip_batches_nonempty [OF pos])
  note val = val_averages_pass [OF Vne, of sess stateful w' batch_size]
  have "rnn_epoch_in_passes sess shuffle stateful (Some (vX, vY)) n_epoch batch_size
      en_exp_decay en_shuffle rnn_keep_prob st =
      Inr (st\<lparr>fl_sess := w', fl_rng := g, fl_X := X, fl_Y := Y,
             fl_log := \<lparr>log_loss = log_loss (fl_log st) @ [loss],
                        log_acc = log_acc (fl_log st) @ [acc],
                        log_val_loss = log_val_loss (fl_log st) @
                          [sum_list (fst (snd (rnn_val_pass sess stateful w' batch_size ?V)))
                           / real (length ?V)],
                        log_val_acc = log_val_acc (fl_log st) @
                          [sum_list (snd (snd (rnn_val_pass sess stateful w' batch_size ?V)))
                           / real (length ?V)]\<rparr>,
             fl_global_step := fl_global_step st + int (length ?Z),
             fl_loss_acc_lr := prev'\<rparr>)"
    unfolding rnn_epoch_in_passes_def s1 bind_err_Inr prod.case tr option.case fst_conv snd_conv val
    by (simp add: prev' append_to_log_val)
  then show ?thesis
    using lens by (simp add: rnn_fit_epoch_eq [OF assms(2,3)])
qed

lemma rnn_fit_epoch_empty_val_raises:
  "\<exists>e. rnn_fit_epoch sess shuffle stateful (Some ([], vY)) n_epoch batch_size en_exp_decay
          en_shuffle rnn_keep_prob st = Inl e"
proof (cases "rnn_fit_epoch sess shuffle stateful (Some ([], vY)) n_epoch batch_size en_exp_decay
          en_shuffle rnn_keep_prob st")
  case (Inl e)
  then show ?thesis by blast
next
  case (Inr st')
  from rnn_fit_epoch_val_entry [OF Inr] show ?thesis by (simp add: batches_from_done)
qed

lemma rnn_fit_epoch_empty_val:
  assumes "0 < n_epoch" "0 < batch_size" "int32 batch_size"
    and eq: "en_shuffle \<longrightarrow> length (fl_X st) = length (fl_Y st)"
  shows "rnn_fit_epoch sess shuffle stateful (Some ([], vY)) n_epoch batch_size en_exp_decay
           en_shuffle rnn_keep_prob st = Inl ZeroDivisionError"
proof -
  let ?b = "nat batch_size"
  define shuffled where "shuffled = (if en_shuffle then shuffle (fl_rng st) (fl_X st) (fl_Y st)
      else ((fl_X st, fl_Y st), fl_rng st))"
  obtain X Y g where sh: "shuffled = ((X, Y), g)" by (cases shuffled) auto
  have s1: "(if en_shuffle then sk_shuffle shuffle (fl_rng st) (fl_X st) (fl_Y st)
               else Inr ((fl_X st, fl_Y st), fl_rng st)) = Inr ((X, Y), g)"
    using eq sh by (auto simp: sk_shuffle_def shuffled_def)
  let ?Z = "zip (batches_from 0 X ?b) (batches_from 0 Y ?b)"
  have "?Z \<noteq> [] \<longrightarrow> 0 < int (length X)"
    using batches_from_done [of X 0 ?b] by (cases X) auto
  from rnn_train_pass_ok [OF assms(1,2) this, where sess = sess and stateful = stateful
      and en_exp_decay = en_exp_decay and rnn_keep_prob = rnn_keep_prob and w = "fl_sess st"
      and global_step = "fl_global_step st" and prev = "fl_loss_acc_lr st"]
  obtain w' s' prev' where tr: "rnn_train_pass sess stateful en_exp_decay n_epoch (int (length X))
      batch_size rnn_keep_prob (fl_sess st, fl_global_step st, fl_loss_acc_lr st) ?Z
      = Inr (w', s', fl_global_step st + int (length ?Z), prev')"
    by blast
  have "rnn_epoch_in_passes sess shuffle stateful (Some ([], vY)) n_epoch batch_size
      en_exp_decay en_shuffle rnn_keep_prob st = Inl ZeroDivisionError"
    unfolding rnn_epoch_in_passes_def s1 bind_err_Inr prod.case tr option.case fst_conv snd_conv
    by (simp add: batches_from_done val_averages_pass_empty)
  then show ?thesis by (simp add: rnn_fit_epoch_eq [OF assms(2,3)])
qed

lemma rnn_fit_val_entries:
  assumes "rnn_fit sess shuffle stateful w g X Y (Some (vX, vY)) n_epoch batch_size
             en_exp_decay en_shuffle rnn_keep_prob = Inr (lg, w', g')"
  shows "length (log_val_loss lg) = nat n_epoch \<and> length (log_val_acc lg) = nat n_epoch \<and>
     (\<forall>e<nat n_epoch. \<exists>st.
        rnn_fit_epochs sess shuffle stateful w g X Y (Some (vX, vY)) n_epoch batch_size
          en_exp_decay en_shuffle rnn_keep_prob (Suc e) = Inr st \<and>
        0 < batch_size \<and> batch_size < 2147483648 \<and>
        zip (batches_from 0 vX (nat batch_size)) (batches_from 0 vY (nat batch_size)) \<noteq> [] \<and>
        log_val_loss lg ! e =
          sum_list (fst (snd (rnn_val_pass sess stateful (fl_sess st) batch_size
             (zip (batches_from 0 vX (nat batch_size)) (batches_from 0 vY (nat batch_size))))))
          / real (length (zip (batches_from 0 vX (nat batch_size))
                              (batches_from 0 vY (nat batch_size)))) \<and>
        log_val_acc lg ! e =
          sum_list (snd (snd (rnn_val_pass sess stateful (fl_sess st) batch_size
             (zip (batches_from 0 vX (nat batch_size)) (batches_from 0 vY (nat batch_size))))))
          / real (length (zip (batches_from 0 vX (nat batch_size))
                              (batches_from 0 vY (nat batch_size)))))"
proof -
  let ?V = "zip (batches_from 0 vX (nat batch_size)) (batches_from 0 vY (nat batch_size))"
  let ?f = "rnn_fit_epoch sess shuffle stateful (Some (vX, vY)) n_epoch batch_size
      en_exp_decay en_shuffle rnn_keep_prob"
  let ?s0 = "\<lparr>fl_sess = rs_global_variables_initializer sess w, fl_rng = g, fl_X = X, fl_Y = Y,
      fl_log = empty_log, fl_global_step = 0, fl_loss_acc_lr = None\<rparr>"
  let ?loss = "\<lambda>st. sum_list (fst (snd (rnn_val_pass sess stateful (fl_sess st) batch_size ?V)))
      / real (length ?V)"
  let ?acc = "\<lambda>st. sum_list (snd (snd (rnn_val_pass sess stateful (fl_sess st) batch_size ?V)))
      / real (length ?V)"
  from assms obtain st where run: "repeat_err (nat n_epoch) ?f ?s0 = Inr st"
    and lg: "lg = fl_log st"
    unfolding rnn_fit_def rnn_fit_epochs_def by (auto dest!: bind_err_InrD)
  have step_l: "log_val_loss (fl_log s') = log_val_loss (fl_log s) @ [?loss s']"
    and step_a: "log_val_acc (fl_log s') = log_val_acc (fl_log s) @ [?acc s']"
    and step_p: "0 < batch_size \<and> batch_size < 2147483648 \<and> ?V \<noteq> []"
    if "?f s = Inr s'" for s s'
    using rnn_fit_epoch_val_entry [OF that] by simp_all
  from repeat_err_entries [of ?f "\<lambda>s. log_val_loss (fl_log s)" ?loss, OF step_l run]
  obtain ls where ls: "log_val_loss (fl_log st) = log_val_loss (fl_log ?s0) @ ls"
      "length ls = nat n_epoch"
    and le: "\<forall>e<nat n_epoch. \<exists>se. repeat_err (Suc e) ?f ?s0 = Inr se \<and> ls ! e = ?loss se"
    by blast
  from repeat_err_entries [of ?f "\<lambda>s. log_val_acc (fl_log s)" ?acc, OF step_a run]
  obtain as where as: "log_val_acc (fl_log st) = log_val_acc (fl_log ?s0) @ as"
      "length as = nat n_epoch"
    and ae: "\<forall>e<nat n_epoch. \<exists>se. repeat_err (Suc e) ?f ?s0 = Inr se \<and> as ! e = ?acc se"
    by blast
  have l: "log_val_loss lg = ls" and a: "log_val_acc lg = as"
    using ls(1) as(1) by (simp_all add: lg empty_log_def)
  have each: "\<exists>se. repeat_err (Suc e) ?f ?s0 = Inr se \<and> 0 < batch_size \<and>
      batch_size < 2147483648 \<and> ?V \<noteq> [] \<and>
      ls ! e = ?loss se \<and> as ! e = ?acc se" if e: "e < nat n_epoch" for e
  proof -
    from le e obtain se where se: "repeat_err (Suc e) ?f ?s0 = Inr se" "ls ! e = ?loss se" by blast
    from ae e obtain se' where se': "repeat_err (Suc e) ?f ?s0 = Inr se'" "as ! e = ?acc se'" by blast
    from se(1) se'(1) have same: "se' = se" by simp
    from se(1) obtain s1 where "?f ?s0 = Inr s1" by (cases "?f ?s0") simp_all
    from step_p [OF this] se se' same show ?thesis by blast
  qed
  show ?thesis
    unfolding l a rnn_fit_epochs_def using ls(2) as(2) each by blast
qed

lemma rnn_fit_returns:
  assumes "0 < batch_size" "batch_size < 2147483648" "X \<noteq> []" "Y \<noteq> []" "vX \<noteq> []" "vY \<noteq> []"
    and "en_shuffle \<longrightarrow> length X = length Y"
    and sh_ok: "\<forall>g X Y. length X = length Y \<longrightarrow>
           length (fst (fst (shuffle g X Y))) = length X \<and>
           length (snd (fst (shuffle g X Y))) = length Y"
  shows "\<exists>lg w' g'. rnn_fit sess shuffle stateful w g X Y (Some (vX, vY)) n_epoch batch_size
           en_exp_decay en_shuffle rnn_keep_prob = Inr (lg, w', g')"
proof (cases "0 < n_epoch")
  case False
  then have "nat n_epoch = 0" by simp
  then show ?thesis by (simp add: rnn_fit_def rnn_fit_epochs_def)
next
  case True
  have i32: "int32 batch_size" using assms(1,2) by (simp add: int32_def)
  let ?f = "rnn_fit_epoch sess shuffle stateful (Some (vX, vY)) n_epoch batch_size
      en_exp_decay en_shuffle rnn_keep_prob"
  let ?s0 = "\<lparr>fl_sess = rs_global_variables_initializer sess w, fl_rng = g, fl_X = X, fl_Y = Y,
      fl_log = empty_log, fl_global_step = 0, fl_loss_acc_lr = None\<rparr>"
  let ?Inv = "\<lambda>st. length (fl_X st) = length X \<and> length (fl_Y st) = length Y"
  have step: "\<exists>s'. ?f s = Inr s' \<and> ?Inv s'" if "?Inv s" for s
    using rnn_fit_epoch_ok [OF True assms(1) i32 assms(5,6) sh_ok, of s "length X" "length Y"
        en_shuffle sess stateful en_exp_decay rnn_keep_prob] that assms(3,4,7)
    by simp
  have "?Inv ?s0" by simp
  from repeat_err_total [of ?Inv ?f ?s0 "nat n_epoch", OF step this]
  obtain s where "repeat_err (nat n_epoch) ?f ?s0 = Inr s" by blast
  then show ?thesis by (simp add: rnn_fit_def rnn_fit_epochs_def)
qed

subsection \<open>Facts about the state passed between batches\<close>

lemma rnn_predict_pass_fulls:
  assumes "\<forall>b \<in> set fulls. int (length b) = batch_size"
  shows "rnn_predict_pass sess True w batch_size fulls =
           foldl (rnn_predict_carry sess w) (rs_zero_state sess batch_size, []) fulls"
  unfolding rnn_predict_pass_def
  by (rule foldl_cong_set) (use assms in simp)

lemma rnn_predict_pass_partial:
  assumes "\<forall>b \<in> set fulls. int (length b) = batch_size" "int (length partial) \<noteq> batch_size"
  shows "rnn_predict_pass sess True w batch_size (fulls @ [partial]) =
           rnn_predict_fresh sess w
             (foldl (rnn_predict_carry sess w) (rs_zero_state sess batch_size, []) fulls) partial"
  using rnn_predict_pass_fulls [OF assms(1), of sess w] assms(2)
  by (simp add: rnn_predict_pass_def)

lemma rnn_val_pass_fulls:
  assumes "\<forall>b \<in> set fulls. int (length (fst b)) = batch_size"
  shows "rnn_val_pass sess True w batch_size fulls =
           foldl (rnn_val_carry sess w) (rs_zero_state sess batch_size, [], []) fulls"
  unfolding rnn_val_pass_def
  by (rule foldl_cong_set) (use assms in simp)

lemma rnn_val_pass_partial:
  assumes "\<forall>b \<in> set fulls. int (length (fst b)) = batch_size"
    "int (length (fst partial)) \<noteq> batch_size"
  shows "rnn_val_pass sess True w batch_size (fulls @ [partial]) =
           rnn_val_fresh sess w
             (foldl (rnn_val_carry sess w) (rs_zero_state sess batch_size, [], []) fulls) partial"
  using rnn_val_pass_fulls [OF assms(1), of sess w] assms(2)
  by (simp add: rnn_val_pass_def)

lemma rnn_train_pass_fulls:
  assumes "\<forall>b \<in> set fulls. int (length (fst b)) = batch_size"
  shows "rnn_train_pass sess True en_exp_decay n_epoch len_X batch_size rnn_keep_prob
           (w, global_step, prev) fulls =
         fold_err (rnn_train_carry sess en_exp_decay n_epoch len_X batch_size rnn_keep_prob)
           (w, rs_zero_state sess batch_size, global_step, prev) fulls"
  unfolding rnn_train_pass_def prod.case
  by (rule fold_err_cong_set) (use assms in simp)

lemma rnn_train_pass_partial:
  assumes "\<forall>b \<in> set fulls. int (length (fst b)) = batch_size"
    "int (length (fst partial)) \<noteq> batch_size"
  shows "rnn_train_pass sess True en_exp_decay n_epoch len_X batch_size rnn_keep_prob
           (w, global_step, prev) (fulls @ [partial]) =
         bind_err
           (fold_err (rnn_train_carry sess en_exp_decay n_epoch len_X batch_size rnn_keep_prob)
              (w, rs_zero_state sess batch_size, global_step, prev) fulls)
           (\<lambda>st. rnn_train_fresh sess en_exp_decay n_epoch len_X batch_size rnn_keep_prob
                   st partial)"
proof -
  let ?step = "\<lambda>st batch. if True \<and> int (length (fst batch)) = batch_size
                              then rnn_train_carry sess en_exp_decay n_epoch len_X batch_size
                                     rnn_keep_prob st batch
                              else rnn_train_fresh sess en_exp_decay n_epoch len_X batch_size
                                     rnn_keep_prob st batch"
  have "rnn_train_pass sess True en_exp_decay n_epoch len_X batch_size rnn_keep_prob
           (w, global_step, prev) (fulls @ [partial]) =
      bind_err (rnn_train_pass sess True en_exp_decay n_epoch len_X batch_size rnn_keep_prob
           (w, global_step, prev) fulls)
        (\<lambda>st. fold_err ?step st [partial])"
    unfolding rnn_train_pass_def prod.case by (rule fold_err_append)
  also have "(\<lambda>st. fold_err ?step st [partial]) =
        (\<lambda>st. rnn_train_fresh sess en_exp_decay n_epoch len_X batch_size rnn_keep_prob
                st partial)"
    using assms(2) by (auto split: sum.splits)
  finally show ?thesis unfolding rnn_train_pass_fulls [OF assms(1)] .
qed

lemma rnn_fit_eq:
  assumes "0 < batch_size" "int32 batch_size"
  shows "rnn_fit sess shuffle stateful w g X Y val_data n_epoch batch_size en_exp_decay en_shuffle
           rnn_keep_prob =
     bind_err (repeat_err (nat n_epoch)
                 (rnn_epoch_in_passes sess shuffle stateful val_data n_epoch batch_size
                    en_exp_decay en_shuffle rnn_keep_prob)
                 \<lparr>fl_sess = rs_global_variables_initializer sess w, fl_rng = g, fl_X = X, fl_Y = Y,
                  fl_log = empty_log, fl_global_step = 0, fl_loss_acc_lr = None\<rparr>)
       (\<lambda>st. Inr (fl_log st, fl_sess st, fl_rng st))"
proof -
  have "rnn_fit_epoch sess shuffle stateful val_data n_epoch batch_size en_exp_decay en_shuffle
          rnn_keep_prob =
        rnn_epoch_in_passes sess shuffle stateful val_data n_epoch batch_size en_exp_decay
          en_shuffle rnn_keep_prob"
    by (rule ext) (rule rnn_fit_epoch_eq [OF assms])
  then show ?thesis by (simp add: rnn_fit_def rnn_fit_epochs_def)
qed

subsection \<open>Facts about the validation scores\<close>

lemma repeat_err_last:
  "repeat_err (Suc k) f s = Inr st \<Longrightarrow> \<exists>s0. f s0 = Inr st"
proof (induction k arbitrary: s)
  case 0
  then show ?case by (cases "f s") auto
next
  case (Suc k)
  from Suc.prems obtain s1 where "f s = Inr s1" "repeat_err (Suc k) f s1 = Inr st"
    by (cases "f s") simp_all
  with Suc.IH show ?case by blast
qed

lemma rnn_val_pass_scores_aux:
  "\<exists>s' ls as.
     foldl (\<lambda>acc batch. if stateful \<and> int (length (fst batch)) = batch_size
                         then rnn_val_carry sess w acc batch
                         else rnn_val_fresh sess w acc batch) (s, ll, al) batches
       = (s', ll @ ls, al @ as) \<and>
     length ls = length batches \<and> length as = length batches \<and>
     list_all2 (\<lambda>b la. \<exists>s0. la = (fst (rs_eval sess w (fst b) (snd b) 1 s0),
                                    fst (snd (rs_eval sess w (fst b) (snd b) 1 s0))))
       batches (zip ls as)"
proof (induction batches arbitrary: s ll al)
  case Nil
  then show ?case by simp
next
  case (Cons b batches)
  let ?step = "\<lambda>acc batch. if stateful \<and> int (length (fst batch)) = batch_size
                         then rnn_val_carry sess w acc batch
                         else rnn_val_fresh sess w acc batch"
  obtain xb yb where b: "b = (xb, yb)" by (cases b)
  have "\<exists>s1 s0. ?step (s, ll, al) b =
          (s1, ll @ [fst (rs_eval sess w xb yb 1 s0)], al @ [fst (snd (rs_eval sess w xb yb 1 s0))])"
  proof (cases "stateful \<and> int (length (fst b)) = batch_size")
    case True
    obtain l a f where r: "rs_eval sess w xb yb 1 s = (l, a, f)"
      by (cases "rs_eval sess w xb yb 1 s") auto
    have "?step (s, ll, al) b = (f, ll @ [fst (rs_eval sess w xb yb 1 s)],
        al @ [fst (snd (rs_eval sess w xb yb 1 s))])"
      using True r by (simp add: b rnn_val_carry_def)
    then show ?thesis by blast
  next
    case False
    let ?z = "rs_zero_state sess (int (length xb))"
    obtain l a f where r: "rs_eval sess w xb yb 1 ?z = (l, a, f)"
      by (cases "rs_eval sess w xb yb 1 ?z") auto
    have "?step (s, ll, al) b = (s, ll @ [fst (rs_eval sess w xb yb 1 ?z)],
        al @ [fst (snd (rs_eval sess w xb yb 1 ?z))])"
      using False r by (auto simp: b rnn_val_fresh_def)
    then show ?thesis by blast
  qed
  then obtain s1 s0 where step: "?step (s, ll, al) b =
      (s1, ll @ [fst (rs_eval sess w xb yb 1 s0)], al @ [fst (snd (rs_eval sess w xb yb 1 s0))])"
    by blast
  let ?l = "fst (rs_eval sess w xb yb 1 s0)"
  let ?a = "fst (snd (rs_eval sess w xb yb 1 s0))"
  from Cons.IH [of s1 "ll @ [?l]" "al @ [?a]"] obtain s' ls as where
    rest: "foldl ?step (s1, ll @ [?l], al @ [?a]) batches = (s', (ll @ [?l]) @ ls, (al @ [?a]) @ as)"
    and len: "length ls = length batches" "length as = length batches"
    and rel: "list_all2 (\<lambda>b la. \<exists>s0. la = (fst (rs_eval sess w (fst b) (snd b) 1 s0),
                                    fst (snd (rs_eval sess w (fst b) (snd b) 1 s0))))
       batches (zip ls as)"
    by blast
  have here: "\<exists>s0. (?l, ?a) = (fst (rs_eval sess w (fst b) (snd b) 1 s0),
                                fst (snd (rs_eval sess w (fst b) (snd b) 1 s0)))"
    unfolding b by auto
  have run: "foldl ?step (s, ll, al) (b # batches) = (s', ll @ (?l # ls), al @ (?a # as))"
    using step rest by simp
  show ?case
    apply (rule exI [of _ s'], rule exI [of _ "?l # ls"], rule exI [of _ "?a # as"])
    using run len rel here by simp
qed

lemma rnn_val_pass_scores:
  "\<exists>s' ls as.
     rnn_val_pass sess stateful w batch_size batches = (s', ls, as) \<and>
     length ls = length batches \<and> length as = length batches \<and>
     list_all2 (\<lambda>b la. \<exists>s0. la = (fst (rs_eval sess w (fst b) (snd b) 1 s0),
                                    fst (snd (rs_eval sess w (fst b) (snd b) 1 s0))))
       batches (zip ls as)"
  using rnn_val_pass_scores_aux [of stateful batch_size sess w "rs_zero_state sess batch_size"
      "[]" "[]" batches]
  unfolding rnn_val_pass_def by simp

lemma rnn_val_pass_stateless_aux:
  "foldl (\<lambda>acc batch. if False \<and> int (length (fst batch)) = batch_size
                       then rnn_val_carry sess w acc batch
                       else rnn_val_fresh sess w acc batch) (s, ll, al) batches =
     (s, ll @ map (\<lambda>(xb, yb). fst (rs_eval sess w xb yb 1 (rs_zero_state sess (int (length xb)))))
               batches,
         al @ map (\<lambda>(xb, yb). fst (snd (rs_eval sess w xb yb 1
                                     (rs_zero_state sess (int (length xb)))))) batches)"
  by (induction batches arbitrary: ll al) (simp_all add: rnn_val_fresh_def split: prod.splits)

lemma rnn_val_pass_stateless:
  "rnn_val_pass sess False w batch_size batches =
     (rs_zero_state sess batch_size,
      map (\<lambda>(xb, yb). fst (rs_eval sess w xb yb 1 (rs_zero_state sess (int (length xb))))) batches,
      map (\<lambda>(xb, yb). fst (snd (rs_eval sess w xb yb 1 (rs_zero_state sess (int (length xb))))))
        batches)"
  using rnn_val_pass_stateless_aux [of batch_size sess w "rs_zero_state sess batch_size" "[]" "[]"
      batches]
  unfolding rnn_val_pass_def by simp

lemma cnn_fit_epoch_val_lists:
  assumes "cnn_fit_epoch self sess shuffle (Some (vX, vY)) n_epoch batch_size keep_prob
             en_exp_decay en_shuffle st = Inr st'"
  shows "cnn_val_lists self sess (fl_sess st') (vX, vY) batch_size =
     Inr (map (\<lambda>(xb, yb). fst (cs_eval sess (fl_sess st') xb yb 1))
            (zip (batches_from 0 vX (nat batch_size)) (batches_from 0 vY (nat batch_size))),
          map (\<lambda>(xb, yb). snd (cs_eval sess (fl_sess st') xb yb 1))
            (zip (batches_from 0 vX (nat batch_size)) (batches_from 0 vY (nat batch_size))))"
proof -
  from cnn_fit_epoch_val_entry [OF assms] have pos: "0 < batch_size" by blast
  from cnn_fit_epoch_InrD [OF assms]
  obtain X Y g X_batches Y_batches w global_step loss_acc_lr val lg where
    v: "bind_err (cnn_validate self sess w (vX, vY) batch_size) (\<lambda>v. Inr (Some v)) = Inr val"
    and st': "st' = st\<lparr>fl_sess := w, fl_rng := g, fl_X := X, fl_Y := Y, fl_log := lg,
                    fl_global_step := global_step, fl_loss_acc_lr := loss_acc_lr\<rparr>"
    by auto
  from v obtain vl va where
    cv: "cnn_validate self sess w (vX, vY) batch_size = Inr (vl, va)"
    by (auto dest!: bind_err_InrD)
  from cv obtain ll al where lists: "cnn_val_lists self sess w (vX, vY) batch_size = Inr (ll, al)"
    unfolding cnn_validate_def by (auto dest!: bind_err_InrD)
  have w: "fl_sess st' = w" by (simp add: st')
  from lists show ?thesis
    unfolding w cnn_val_lists_eq [OF pos] by (auto split: if_splits)
qed

subsection \<open>Facts about the attention stage\<close>

lemma transpose_column: "v \<noteq> [] \<Longrightarrow> transpose (map (\<lambda>x. [x]) v) = [v]"
proof -
  assume "v \<noteq> []"
  have "transpose (map (\<lambda>x. [x]) v)
      = map (\<lambda>i. map (\<lambda>j. map (\<lambda>x. [x]) v ! j ! i) [0..<length (map (\<lambda>x. [x]) v)]) [0..<1]"
    by (rule transpose_rectangle) (use \<open>v \<noteq> []\<close> in simp_all)
  also have "\<dots> = [map (\<lambda>j. v ! j) [0..<length v]]" by simp
  finally show ?thesis by (simp add: map_nth)
qed

lemma matmul_column:
  "v \<noteq> [] \<Longrightarrow> matmul a (map (\<lambda>x. [x]) v) = map (\<lambda>row. [dot row v]) a"
  by (simp add: matmul_def transpose_column)

lemma rows_of_concat:
  "0 < n \<Longrightarrow> \<forall>r \<in> set rows. length r = n \<Longrightarrow> rows_of n (concat rows) = rows"
proof (induction rows)
  case Nil
  then show ?case by (simp add: rows_of.simps)
next
  case (Cons r rows)
  then have "r \<noteq> []" "length r = n" by auto
  with Cons show ?case by (simp add: rows_of.simps [of n "r @ concat rows"])
qed

lemma dot_sum:
  "length u = n \<Longrightarrow> length v = n \<Longrightarrow> dot u v = (\<Sum>i<n. u ! i * v ! i)"
proof -
  assume l: "length u = n" "length v = n"
  have "dot u v = sum_list (map (\<lambda>i. u ! i * v ! i) [0..<n])"
    unfolding dot_def using l
    by (intro arg_cong [where f = sum_list] nth_equalityI) simp_all
  also have "\<dots> = (\<Sum>i<n. u ! i * v ! i)"
    by (simp add: sum_list_sum_nth atLeast0LessThan)
  finally show ?thesis .
qed

lemma sum_list_divide_const:
  "sum_list (map (\<lambda>e. e / c) es) = sum_list es / (c :: real)"
  by (induction es) (simp_all add: add_divide_distrib)

lemma softmax_row:
  fixes row :: "real list"
  assumes "row \<noteq> []"
  defines "w \<equiv> map (\<lambda>e. e / sum_list (map exp row)) (map exp row)"
  shows "sum_list w = 1" and "\<forall>x \<in> set w. 0 < x" and "length w = length row"
proof -
  have pos: "0 < sum_list (map exp row)"
    using assms(1) by (induction row rule: list_nonempty_induct) (simp_all add: add_pos_pos)
  have "sum_list w = sum_list (map exp row) / sum_list (map exp row)"
    unfolding w_def by (rule sum_list_divide_const)
  then show "sum_list w = 1" using pos by simp
  show "\<forall>x \<in> set w. 0 < x" unfolding w_def using pos by auto
  show "length w = length row" unfolding w_def by simp
qed

lemma concat_concat_map: "concat (concat xss) = concat (map concat xss)"
  by (induction xss) simp_all

lemma attention_weights_closed:
  assumes "0 < seq_len" "0 < cell_size" "length final_state_h = length pointer"
    and "\<forall>ex \<in> set pointer. int (length ex) = seq_len"
    and "\<forall>v \<in> set final_state_h. length v = cell_size"
  shows "rnn_attention_weights seq_len pointer final_state_h =
     map (\<lambda>(ex, v). map (\<lambda>e. e / sum_list (map exp (map (\<lambda>row. tanh (dot row v)) ex)))
                        (map exp (map (\<lambda>row. tanh (dot row v)) ex)))
       (zip pointer final_state_h)"
proof -
  let ?Z = "zip pointer final_state_h"
  have vne: "v \<noteq> []" if "(ex, v) \<in> set ?Z" for ex v
    using that assms(2,5) by (auto dest!: set_zip_rightD)
  have mm: "batch_matmul pointer (expand_dims_2 final_state_h)
      = map (\<lambda>(ex, v). map (\<lambda>row. [dot row v]) ex) ?Z"
    unfolding batch_matmul_def expand_dims_2_def zip_map2 map_map
    by (rule map_cong [OF refl]) (auto simp: matmul_column vne)
  have scores: "map concat (map (map (map tanh)) (batch_matmul pointer (expand_dims_2 final_state_h)))
      = map (\<lambda>(ex, v). map (\<lambda>row. tanh (dot row v)) ex) ?Z"
    unfolding mm by (simp add: comp_def case_prod_unfold)
  have len: "\<forall>r \<in> set (map (\<lambda>(ex, v). map (\<lambda>row. tanh (dot row v)) ex) ?Z). length r = nat seq_len"
    using assms(4) by (auto dest!: set_zip_leftD)
  have "reshape_rows (nat seq_len)
        (map (map (map tanh)) (batch_matmul pointer (expand_dims_2 final_state_h)))
      = map (\<lambda>(ex, v). map (\<lambda>row. tanh (dot row v)) ex) ?Z"
    unfolding reshape_rows_def concat_concat_map scores
    using assms(1) len by (intro rows_of_concat) simp_all
  then show ?thesis
    by (simp add: rnn_attention_weights_def rnn_softmax_value_def Let_def comp_def case_prod_unfold)
qed

lemma attention_value_closed:
  assumes "0 < seq_len" "length weights = length pointer"
    and "\<forall>w \<in> set weights. int (length w) = seq_len"
  shows "squeeze_2 (batch_matmul (transpose_021 pointer) (expand_dims_2 weights)) =
     map (\<lambda>(ex, w). map (\<lambda>col. dot col w) (transpose ex)) (zip pointer weights)"
proof -
  have wne: "w \<noteq> []" if "(ex, w) \<in> set (zip pointer weights)" for ex w
    using that assms(1,3) by (auto dest!: set_zip_rightD)
  have "batch_matmul (transpose_021 pointer) (expand_dims_2 weights)
      = map (\<lambda>(ex, w). map (\<lambda>col. [dot col w]) (transpose ex)) (zip pointer weights)"
    unfolding batch_matmul_def expand_dims_2_def transpose_021_def zip_map2 zip_map1 map_map
    by (rule map_cong [OF refl]) (auto simp: matmul_column wne)
  then show ?thesis
    by (simp add: squeeze_2_def comp_def case_prod_unfold)
qed

subsection \<open>Facts about the convolution and the global max-pool\<close>

lemma fold_map2_max:
  assumes "length r0 = C" "\<forall>r \<in> set rs. length r = C"
  shows "fold (map2 max) rs r0 = map (\<lambda>c. Max (insert (r0 ! c) ((\<lambda>r. r ! c) ` set rs))) [0..<C]"
  using assms
proof (induction rs arbitrary: r0)
  case Nil
  then show ?case by (simp add: map_nth [symmetric] del: map_nth) (metis map_nth)
next
  case (Cons r rs)
  then have lr: "length r = C" and rest: "\<forall>r \<in> set rs. length r = C" by simp_all
  have l: "length (map2 max r r0) = C" using lr Cons.prems(1) by simp
  have "fold (map2 max) (r # rs) r0 = fold (map2 max) rs (map2 max r r0)" by simp
  also have "\<dots> = map (\<lambda>c. Max (insert (map2 max r r0 ! c) ((\<lambda>r. r ! c) ` set rs))) [0..<C]"
    by (rule Cons.IH [OF l rest])
  also have "\<dots> = map (\<lambda>c. Max (insert (r0 ! c) ((\<lambda>r. r ! c) ` set (r # rs)))) [0..<C]"
  proof (rule map_cong [OF refl])
    fix c assume "c \<in> set [0..<C]"
    then have c: "c < C" by simp
    have m: "map2 max r r0 ! c = max (r ! c) (r0 ! c)" using c lr Cons.prems(1) by simp
    have fin: "finite ((\<lambda>r. r ! c) ` set rs)" by simp
    show "Max (insert (map2 max r r0 ! c) ((\<lambda>r. r ! c) ` set rs))
        = Max (insert (r0 ! c) ((\<lambda>r. r ! c) ` set (r # rs)))"
    proof (cases "set rs = {}")
      case True
      then show ?thesis by (simp add: m max.commute)
    next
      case False
      then have ne: "(\<lambda>r. r ! c) ` set rs \<noteq> {}" by simp
      show ?thesis
        using fin ne by (simp add: m max.assoc max.commute max.left_commute)
    qed
  qed
  finally show ?case .
qed

lemma reduce_max_columns:
  assumes "rows \<noteq> []" "\<forall>r \<in> set rows. length r = C"
  shows "reduce_max rows = map (\<lambda>c. Max ((\<lambda>t. rows ! t ! c) ` {..<length rows})) [0..<C]"
proof -
  obtain r0 rs where rows: "rows = r0 # rs" using assms(1) by (cases rows) auto
  have img: "(\<lambda>t. rows ! t ! c) ` {..<length rows} = insert (r0 ! c) ((\<lambda>r. r ! c) ` set rs)" for c
  proof -
    have "set rows = (!) rows ` {..<length rows}"
      by (auto simp: set_conv_nth)
    then have "(\<lambda>t. rows ! t ! c) ` {..<length rows} = (\<lambda>r. r ! c) ` set rows"
      by (simp add: image_image)
    then show ?thesis by (simp add: rows)
  qed
  have "reduce_max rows = fold (map2 max) rs r0" by (simp add: reduce_max_def rows)
  also have "\<dots> = map (\<lambda>c. Max (insert (r0 ! c) ((\<lambda>r. r ! c) ` set rs))) [0..<C]"
    using assms(2) by (intro fold_map2_max) (simp_all add: rows)
  finally show ?thesis by (simp only: img)
qed

lemma max_pool_global:
  assumes "length value = k" "0 < k" "padding = ''VALID'' \<or> padding = ''SAME''"
  shows "max_pool_width value k k padding = [reduce_max value]"
proof -
  have one: "(k + k - 1) div k = 1"
  proof -
    have "k + k - 1 = 1 * k + (k - 1)" using assms(2) by simp
    moreover have "(1 * k + (k - 1)) div k = 1 + (k - 1) div k"
      using assms(2) by (simp only: div_mult_self3) 
    ultimately show ?thesis using assms(2) by simp
  qed
  then have one': "(k + k - Suc 0) div k = Suc 0" by simp
  have pad: "same_padding k k k = (0, 0)"
    by (simp add: same_padding_def Let_def one')
  from assms(3) show ?thesis
  proof
    assume "padding = ''VALID''"
    then show ?thesis using assms(1,2) by (simp add: max_pool_width_def Let_def)
  next
    assume "padding = ''SAME''"
    then show ?thesis using assms(1,2) by (simp add: max_pool_width_def Let_def one' pad)
  qed
qed

lemma squeeze_map_cong:
  assumes "\<forall>t \<in> set ts. squeeze (f t) = squeeze (g t)"
  shows "squeeze (Array (map f ts)) = squeeze (Array (map g ts))"
proof (cases ts)
  case Nil
  then show ?thesis by simp
next
  case (Cons t rest)
  show ?thesis
  proof (cases rest)
    case Nil
    with Cons assms show ?thesis by simp
  next
    case (Cons t' rest')
    with \<open>ts = t # rest\<close> assms show ?thesis by simp
  qed
qed

lemma flatten_squeeze: "flatten (squeeze t) = flatten t"
  by (induction t rule: squeeze.induct) (simp_all add: comp_def cong: map_cong)

lemma flatten_of_matrix: "flatten (of_matrix m) = concat m"
proof -
  have "flatten (of_vector v) = v" for v
    by (induction v) (simp_all add: of_vector_def)
  then show ?thesis by (simp add: of_matrix_def comp_def)
qed

lemma squeeze_of_vector: "2 \<le> length v \<Longrightarrow> squeeze (of_vector v) = of_vector v"
proof -
  assume "2 \<le> length v"
  then obtain a b rest where "v = a # b # rest"
    by (cases v; cases "tl v") auto
  then show ?thesis by (simp add: of_vector_def)
qed

lemma squeeze_of_matrix:
  assumes "2 \<le> length m" "\<forall>v \<in> set m. 2 \<le> length v"
  shows "squeeze (of_matrix m) = of_matrix m"
proof -
  from assms(1) obtain a b rest where m: "m = a # b # rest"
    by (cases m; cases "tl m") auto
  have "map squeeze (map of_vector m) = map of_vector m"
    using assms(2) by (simp add: squeeze_of_vector)
  then show ?thesis unfolding of_matrix_def using m by simp
qed

lemma conv1d_shape:
  assumes "padding = ''VALID'' \<or> padding = ''SAME''"
  shows "length (conv1d value filters [kernel_size, embedding_dims, n_filters] 1 padding)
           = (if padding = ''VALID'' then length value + 1 - nat kernel_size else length value)"
    and "\<forall>row \<in> set (conv1d value filters [kernel_size, embedding_dims, n_filters] 1 padding).
           length row = nat n_filters"
  using assms by (auto simp: conv1d_def Let_def)

section \<open>The claims\<close>




text \<open>
  Claim C2, at the point where the code departs from it. In \<^verbatim>\<open>RNNTextClassifier\<close> the
  placeholder \<^verbatim>\<open>self.lr\<close>, which \<^verbatim>\<open>fit\<close> feeds with the value of
  \<^verbatim>\<open>decrease_lr\<close>, is no input of the training operation: the optimizer is built as
  \<^verbatim>\<open>AdamOptimizer()\<close>, without it. (The schedule itself is as the claim says, see
  \<open>decrease_lr_schedule\<close>; \<^verbatim>\<open>Conv1DClassifier\<close> passes its placeholder to the
  optimizer, see \<open>cnn_graph_valid\<close>.)
\<close>

theorem rnn_optimizer_ignores_lr:
  "let G = RNNTextClassifier_init seq_len vocab_size n_out embedding_dims cell_size grad_clip stateful
   in rnn_lr G = placeholder ''lr'' None \<and>
      rnn_train_op G = Op tf_minimize [] [Op tf_AdamOptimizer [] [], rnn_loss G] \<and>
      rnn_lr G \<notin> set (subnodes (rnn_train_op G))"
  by (simp add: rnn_graph_defs Let_def)

text \<open>
  Claim C3. For every sequence \<open>arr\<close> and every \<open>batch_size > 0\<close>, \<^verbatim>\<open>gen_batch\<close>
  raises nothing and yields batches whose concatenation, in order, is \<open>arr\<close>; every batch
  but the last has exactly \<open>batch_size\<close> elements; the last batch has
  \<open>len(arr) mod batch_size\<close> elements when that is nonzero and \<open>batch_size\<close> elements
  otherwise; and there are \<open>ceil(len(arr) / batch_size)\<close> batches, none of them empty.
\<close>

theorem gen_batch_partition:
  assumes "0 < batch_size"
  shows "\<exists>bl. gen_batch arr batch_size = Inr bl \<and> concat bl = arr \<and>
           (\<forall>k. Suc k < length bl \<longrightarrow> int (length (bl ! k)) = batch_size) \<and>
           (bl \<noteq> [] \<longrightarrow>
              int (length (last bl)) =
                (if int (length arr) mod batch_size = 0 then batch_size
                 else int (length arr) mod batch_size)) \<and>
           int (length bl) = (int (length arr) + batch_size - 1) div batch_size \<and>
           [] \<notin> set bl"
proof -
  let ?b = "nat batch_size"
  let ?bl = "batches_from 0 arr ?b"
  have pos: "0 < ?b" and b_int: "int ?b = batch_size"
    using assms by simp_all
  have run: "gen_batch arr batch_size = Inr ?bl"
    using assms by (rule gen_batch_pos)
  have cat: "concat ?bl = arr"
    using concat_batches_from [OF pos, of 0 arr] by simp
  have full: "\<forall>k. Suc k < length ?bl \<longrightarrow> int (length (?bl ! k)) = batch_size"
    using batches_from_full [OF pos, of _ 0 arr] b_int by auto
  have last: "?bl \<noteq> [] \<longrightarrow>
      int (length (last ?bl)) =
        (if int (length arr) mod batch_size = 0 then batch_size
         else int (length arr) mod batch_size)"
  proof
    assume "?bl \<noteq> []"
    then have "0 < length arr"
      using batches_from_done [of arr 0 ?b] by (cases arr) auto
    from batches_from_last [OF pos this]
    have "length (last ?bl) = (if length arr mod ?b = 0 then ?b else length arr mod ?b)"
      by simp
    moreover have "int (length arr) mod batch_size = int (length arr mod ?b)"
      using b_int by (metis zmod_int)
    ultimately show "int (length (last ?bl)) =
        (if int (length arr) mod batch_size = 0 then batch_size
         else int (length arr) mod batch_size)"
      using b_int by (metis of_nat_eq_0_iff)
  qed
  have count: "int (length ?bl) = (int (length arr) + batch_size - 1) div batch_size"
  proof -
    have "length ?bl = (length arr + ?b - 1) div ?b"
      using length_batches_from [OF pos, of 0 arr] by simp
    then have "int (length ?bl) = int (length arr + ?b - 1) div int ?b"
      by (metis zdiv_int)
    moreover have "int (length arr + ?b - 1) = int (length arr) + batch_size - 1"
      using assms by linarith
    ultimately show ?thesis using b_int by metis
  qed
  have ne: "[] \<notin> set ?bl"
    using batches_from_nonempty [OF pos] by blast
  from run cat full last count ne show ?thesis by blast
qed

theorem gen_batch_partition_witness:
  "(0::int) < 2 \<and> gen_batch [10, 20, 30, 40, 50 :: nat] 2 = Inr [[10, 20], [30, 40], [50]] \<and>
   (\<exists>bl. gen_batch [10, 20, 30, 40, 50 :: nat] 2 = Inr bl \<and> concat bl = [10, 20, 30, 40, 50] \<and>
      int (length (last bl)) = 1 \<and> length bl = 3)"
proof -
  have ev: "gen_batch [10, 20, 30, 40, 50 :: nat] 2 = Inr [[10, 20], [30, 40], [50]]"
    by code_simp
  from gen_batch_partition [of 2 "[10, 20, 30, 40, 50 :: nat]"]
  obtain bl where "gen_batch [10, 20, 30, 40, 50 :: nat] 2 = Inr bl"
    "concat bl = [10, 20, 30, 40, 50]"
    "bl \<noteq> [] \<longrightarrow> int (length (last bl)) =
       (if int (length [10, 20, 30, 40, 50 :: nat]) mod 2 = 0 then 2
        else int (length [10, 20, 30, 40, 50 :: nat]) mod 2)"
    by auto
  with ev show ?thesis by auto
qed

text \<open>
  Claim C7, as amended. For every non-empty \<open>X_test\<close> and every \<open>batch_size\<close> with
  \<open>0 < batch_size < 2^31\<close> (a value that the \<^verbatim>\<open>int32\<close> placeholder \<^verbatim>\<open>batch_size\<close> can
  hold), on a session whose logits have one row of \<open>n_out > 0\<close> entries per input row,
  \<^verbatim>\<open>RNNTextClassifier.predict\<close> raises nothing and returns a one-dimensional array of
  \<open>len(X_test)\<close> entries; entry \<open>i\<close> is the first index of the maximum of the logits
  row computed for input row \<open>i\<close>, which is row \<open>i mod batch_size\<close> of the logits
  fetched for batch \<open>i div batch_size\<close>, the batch that holds input row \<open>i\<close> at that
  position. The logits fetched for a batch are those that the session computes on that
  batch from some initial state; without \<^verbatim>\<open>stateful\<close>, from the zero state of the batch's
  own size.
\<close>

theorem rnn_predict_argmax:
  assumes "X_test \<noteq> []" and "0 < batch_size" and "batch_size < 2147483648" and "0 < n_out"
    and shape: "\<forall>X_batch st. length (fst (rs_logits sess w X_batch 1 st)) = length X_batch \<and>
                  (\<forall>row \<in> set (fst (rs_logits sess w X_batch 1 st)). length row = n_out)"
  shows "\<exists>batches outs preds.
           gen_batch X_test batch_size = Inr batches \<and>
           rnn_predict sess stateful w X_test batch_size = Inr preds \<and>
           length preds = length X_test \<and>
           (\<exists>st'. rnn_predict_loop sess stateful w batch_size (rs_zero_state sess batch_size)
                    batches = Inr (st', outs)) \<and>
           list_all2 (\<lambda>b out. \<exists>s. out = fst (rs_logits sess w b 1 s)) batches outs \<and>
           (\<forall>i<length X_test.
              batches ! (i div nat batch_size) ! (i mod nat batch_size) = X_test ! i \<and>
              first_argmax (outs ! (i div nat batch_size) ! (i mod nat batch_size)) (preds ! i)) \<and>
           (\<not> stateful \<longrightarrow>
              outs = map (\<lambda>b. fst (rs_logits sess w b 1 (rs_zero_state sess (int (length b)))))
                       batches)"
proof -
  let ?b = "nat batch_size"
  let ?batches = "batches_from 0 X_test ?b"
  have pos: "0 < ?b" using assms(2) by simp
  have i32: "int32 batch_size" using assms(2,3) by (simp add: int32_def)
  have gen: "gen_batch X_test batch_size = Inr ?batches"
    using assms(2) by (rule gen_batch_pos)
  have cat: "concat ?batches = X_test"
    using concat_batches_from [OF pos, of 0 X_test] by simp
  have bfull: "\<forall>k. Suc k < length ?batches \<longrightarrow> length (?batches ! k) = ?b"
    using batches_from_full [OF pos, of _ 0 X_test] by blast
  have bsmall: "\<forall>xs \<in> set ?batches. length xs \<le> ?b"
    using batches_from_le by blast
  have bne: "?batches \<noteq> []" using cat assms(1) by auto
  obtain st' outs where pass: "rnn_predict_pass sess stateful w batch_size ?batches = (st', outs)"
    and rel: "list_all2 (\<lambda>b out. \<exists>s. out = fst (rs_logits sess w b 1 s)) ?batches outs"
    using rnn_predict_pass_outs [of sess stateful w batch_size ?batches] by blast
  have loop: "rnn_predict_loop sess stateful w batch_size (rs_zero_state sess batch_size) ?batches
      = Inr (st', outs)"
    by (simp add: rnn_predict_loop_pass [OF assms(2) i32 bsmall] pass)
  from rel shape have lens: "list_all2 (\<lambda>b out. length out = length b) ?batches outs"
    by (auto elim!: list_all2_mono)
  have rows: "\<forall>row \<in> set (concat outs). length row = n_out"
  proof
    fix row
    assume "row \<in> set (concat outs)"
    then obtain out where out: "out \<in> set outs" "row \<in> set out" by auto
    then obtain k where "k < length outs" "outs ! k = out" by (auto simp: in_set_conv_nth)
    with rel obtain s where "out = fst (rs_logits sess w (?batches ! k) 1 s)"
      by (auto simp: list_all2_conv_all_nth)
    with shape out(2) show "length row = n_out" by blast
  qed
  have n: "length outs = length ?batches"
    using lens by (simp add: list_all2_lengthD)
  have nth_len: "\<And>k. k < length outs \<Longrightarrow> length (outs ! k) = length (?batches ! k)"
    using lens by (simp add: list_all2_conv_all_nth)
  have ofull: "\<forall>k. Suc k < length outs \<longrightarrow> length (outs ! k) = ?b"
    using bfull n nth_len by auto
  have osmall: "\<forall>xs \<in> set outs. length xs \<le> ?b"
    using bsmall n nth_len by (metis in_set_conv_nth nth_mem)
  have total: "length (concat outs) = length X_test"
    using list_all2_concat_length [OF lens] cat by simp
  have one: "outs \<noteq> []" using bne n by auto
  have stack: "np_vstack outs = Inr (concat outs)"
    using one rows by (rule np_vstack_uniform)
  have nonempty: "\<not> list_ex (\<lambda>row. row = []) (concat outs)"
    using rows assms(4) unfolding list_ex_iff by auto
  have run: "rnn_predict sess stateful w X_test batch_size = Inr (map argmax_row (concat outs))"
    using pass stack nonempty by (simp add: rnn_predict_eq [OF assms(2) i32] np_argmax1_def)
  have each: "?batches ! (i div ?b) ! (i mod ?b) = X_test ! i \<and>
      first_argmax (outs ! (i div ?b) ! (i mod ?b)) (map argmax_row (concat outs) ! i)"
    if i: "i < length X_test" for i
  proof -
    from i cat have "i < length (concat ?batches)" by simp
    from concat_nth_uniform [OF pos bfull bsmall this] cat
    have x: "?batches ! (i div ?b) ! (i mod ?b) = X_test ! i" by simp
    from i total have io: "i < length (concat outs)" by simp
    from concat_nth_uniform [OF pos ofull osmall io]
    have o: "concat outs ! i = outs ! (i div ?b) ! (i mod ?b)" by simp
    from io rows have "concat outs ! i \<noteq> []" using assms(4) nth_mem by fastforce
    then have "first_argmax (concat outs ! i) (argmax_row (concat outs ! i))"
      by (rule argmax_row_first)
    with o io x show ?thesis by simp
  qed
  have stateless: "\<not> stateful \<longrightarrow> outs =
      map (\<lambda>b. fst (rs_logits sess w b 1 (rs_zero_state sess (int (length b))))) ?batches"
    using pass rnn_predict_pass_stateless [of sess w batch_size ?batches] by auto
  show ?thesis
  proof (intro exI conjI)
    show "gen_batch X_test batch_size = Inr ?batches" by (rule gen)
    show "rnn_predict sess stateful w X_test batch_size = Inr (map argmax_row (concat outs))"
      by (rule run)
    show "length (map argmax_row (concat outs)) = length X_test"
      using total by simp
    show "rnn_predict_loop sess stateful w batch_size (rs_zero_state sess batch_size) ?batches
        = Inr (st', outs)" by (rule loop)
    show "list_all2 (\<lambda>b out. \<exists>s. out = fst (rs_logits sess w b 1 s)) ?batches outs"
      by (rule rel)
    show "\<forall>i<length X_test.
        ?batches ! (i div ?b) ! (i mod ?b) = X_test ! i \<and>
        first_argmax (outs ! (i div ?b) ! (i mod ?b)) (map argmax_row (concat outs) ! i)"
      using each by blast
    show "\<not> stateful \<longrightarrow>
        outs = map (\<lambda>b. fst (rs_logits sess w b 1 (rs_zero_state sess (int (length b))))) ?batches"
      by (rule stateless)
  qed
qed

theorem rnn_predict_argmax_witness:
  "rnn_predict example_rnn_session True 4 [[1, 2], [3, 1], [0, 5 :: real]] 2 = Inr [1, 0, 0] \<and>
   (\<exists>outs preds.
      rnn_predict example_rnn_session True 4 [[1, 2], [3, 1], [0, 5 :: real]] 2 = Inr preds \<and>
      length preds = 3 \<and>
      (\<exists>st'. rnn_predict_loop example_rnn_session True 4 2 0 [[[1, 2], [3, 1]], [[0, 5]]]
               = Inr (st', outs)) \<and>
      first_argmax (outs ! 1 ! 0) (preds ! 2))"
proof -
  let ?X = "[[1, 2], [3, 1], [0, 5 :: real]]"
  have gen: "gen_batch ?X 2 = Inr [[[1, 2], [3, 1]], [[0, 5]]]"
    by (simp add: gen_batch_pos batches_from_step batches_from_done)
  have bs: "batches_from 0 ?X 2 = [[[1, 2], [3, 1]], [[0, 5]]]"
    by (simp add: batches_from_step batches_from_done)
  have i32: "int32 2" by (simp add: int32_def)
  have ev: "rnn_predict example_rnn_session True 4 ?X 2 = Inr [1, 0, 0]"
    by (simp add: rnn_predict_eq [OF _ i32] bs rnn_predict_pass_def rnn_predict_carry_def
        rnn_predict_fresh_def example_rnn_session_def np_vstack_def np_concatenate_def
        np_argmax1_def argmax_row_def)
  have z: "rs_zero_state example_rnn_session 2 = 0" by (simp add: example_rnn_session_def)
  have shape: "\<forall>X_batch st.
      length (fst (rs_logits example_rnn_session (4::real) X_batch 1 st)) = length X_batch \<and>
      (\<forall>row \<in> set (fst (rs_logits example_rnn_session 4 X_batch 1 st)). length row = 2)"
    by (auto simp: example_rnn_session_def)
  from rnn_predict_argmax [of ?X 2 2 example_rnn_session 4 True, OF _ _ _ _ shape]
  obtain batches outs preds where
    b: "gen_batch ?X 2 = Inr batches"
    and p: "rnn_predict example_rnn_session True 4 ?X 2 = Inr preds"
       "length preds = length ?X"
    and l: "\<exists>st'. rnn_predict_loop example_rnn_session True 4 2
                    (rs_zero_state example_rnn_session 2) batches = Inr (st', outs)"
    and a: "\<forall>i<length ?X.
       first_argmax (outs ! (i div nat 2) ! (i mod nat 2)) (preds ! i)"
    by auto
  from b gen have "batches = [[[1, 2], [3, 1]], [[0, 5]]]" by simp
  moreover from a [rule_format, of 2]
  have "first_argmax (outs ! (2 div nat 2) ! (2 mod nat 2)) (preds ! 2)" by simp
  ultimately show ?thesis using p l ev z by auto
qed

text \<open>
  Claim C7 as stated fails for a batch size that the \<^verbatim>\<open>int32\<close> placeholder cannot hold:
  with \<open>batch_size = 2^31\<close> the first run of \<^verbatim>\<open>predict\<close>, which fetches the zero
  state, is refused with \<^verbatim>\<open>TypeError\<close> and nothing is returned.
\<close>

theorem rnn_predict_batch_size_not_int32:
  "rnn_predict example_rnn_session True 4 [[1, 2], [3, 1], [0, 5 :: real]] 2147483648
     = Inl TypeError"
  by (simp add: rnn_predict_def rnn_initial_state_def int32_def)

text \<open>
  Claim C8, at the point where the code departs from it. \<^verbatim>\<open>Conv1DClassifier.predict\<close>
  applies no argmax: for a non-empty \<open>X_test\<close> and \<open>batch_size > 0\<close> it returns the matrix
  of raw logits, of shape \<open>(len(X_test), n_out)\<close>, the per-batch logits concatenated in
  input order, where \<^verbatim>\<open>RNNTextClassifier.predict\<close> on the same logits returns the
  row-wise argmax of that matrix. But it does so only when no batch has exactly one row
  (\<open>batch_size \<noteq> 1\<close> and \<open>len(X_test) mod batch_size \<noteq> 1\<close>) and there is more than one
  filter. Otherwise \<^verbatim>\<open>tf.squeeze\<close>, called without an axis in
  \<^verbatim>\<open>add_global_maxpool\<close>, drops the batch (or the channel) axis, the run of that batch
  fails in \<^verbatim>\<open>add_fc\<close>, and \<^verbatim>\<open>predict\<close> raises \<^verbatim>\<open>InvalidArgumentError\<close> instead of
  returning the logits.
\<close>

theorem cnn_predict_one_row_batch:
  assumes "X_test \<noteq> []" and "0 < batch_size"
    and shape: "\<forall>X_batch. length X_batch \<noteq> 1 \<longrightarrow>
                  length (cs_logits sess w X_batch 1) = length X_batch \<and>
                  (\<forall>row \<in> set (cs_logits sess w X_batch 1). length row = n_out)"
  shows "\<exists>batches.
           gen_batch X_test batch_size = Inr batches \<and>
           (if cnn_n_filters self \<noteq> 1 \<and> batch_size \<noteq> 1 \<and> int (length X_test) mod batch_size \<noteq> 1
            then \<exists>logits.
                   cnn_predict self sess w X_test batch_size = Inr logits \<and>
                   logits = concat (map (\<lambda>X_test_batch. cs_logits sess w X_test_batch 1) batches) \<and>
                   length logits = length X_test \<and>
                   list_all (\<lambda>row. length row = n_out) logits \<and>
                   (\<forall>i<length X_test.
                      batches ! (i div nat batch_size) ! (i mod nat batch_size) = X_test ! i \<and>
                      logits ! i =
                        cs_logits sess w (batches ! (i div nat batch_size)) 1
                          ! (i mod nat batch_size)) \<and>
                   (0 < n_out \<and> batch_size < 2147483648 \<and>
                    (\<forall>X_batch st. fst (rs_logits rsess rw X_batch 1 st) = cs_logits sess w X_batch 1)
                      \<longrightarrow> rnn_predict rsess stateful rw X_test batch_size
                            = Inr (map argmax_row logits))
            else cnn_predict self sess w X_test batch_size = Inl InvalidArgumentError)"
proof -
  let ?b = "nat batch_size"
  let ?batches = "batches_from 0 X_test ?b"
  let ?outs = "map (\<lambda>X_test_batch. cs_logits sess w X_test_batch 1) ?batches"
  have pos: "0 < ?b" using assms(2) by simp
  have gen: "gen_batch X_test batch_size = Inr ?batches"
    using assms(2) by (rule gen_batch_pos)
  have rows1: "(\<forall>b \<in> set ?batches. length b \<noteq> 1) \<longleftrightarrow>
      batch_size \<noteq> 1 \<and> int (length X_test) mod batch_size \<noteq> 1"
    using batches_one_row [OF assms(2), of X_test] assms(1) by simp
  have bne: "?batches \<noteq> []"
    using assms(1) batches_from_empty_iff [OF pos] by blast
  have runs: "(\<forall>b \<in> set ?batches. cnn_graph_runs self b) \<longleftrightarrow>
      cnn_n_filters self \<noteq> 1 \<and> batch_size \<noteq> 1 \<and> int (length X_test) mod batch_size \<noteq> 1"
    using rows1 bne by (cases ?batches) (auto simp: cnn_graph_runs_iff)
  have pred: "cnn_predict self sess w X_test batch_size =
      (if cnn_n_filters self \<noteq> 1 \<and> batch_size \<noteq> 1 \<and> int (length X_test) mod batch_size \<noteq> 1
       then np_concatenate ?outs else Inl InvalidArgumentError)"
    unfolding cnn_predict_def gen bind_err_Inr cnn_predict_loop_eq runs by simp
  show ?thesis
  proof (cases "cnn_n_filters self \<noteq> 1 \<and> batch_size \<noteq> 1 \<and> int (length X_test) mod batch_size \<noteq> 1")
    case False
    with pred gen show ?thesis by auto
  next
    case True
    with rows1 have two: "\<forall>b \<in> set ?batches. length b \<noteq> 1" by blast
    have cat: "concat ?batches = X_test"
      using concat_batches_from [OF pos, of 0 X_test] by simp
    have bfull: "\<forall>k. Suc k < length ?batches \<longrightarrow> length (?batches ! k) = ?b"
      using batches_from_full [OF pos, of _ 0 X_test] by blast
    have bsmall: "\<forall>xs \<in> set ?batches. length xs \<le> ?b"
      using batches_from_le by blast
    have shp: "length (cs_logits sess w b 1) = length b \<and>
        (\<forall>row \<in> set (cs_logits sess w b 1). length row = n_out)" if "b \<in> set ?batches" for b
      using that two shape by blast
    have lens: "list_all2 (\<lambda>b out. length out = length b) ?batches ?outs"
      using shp by (simp add: list_all2_conv_all_nth)
    have rows: "\<forall>row \<in> set (concat ?outs). length row = n_out"
      using shp by auto
    have ofull: "\<forall>k. Suc k < length ?outs \<longrightarrow> length (?outs ! k) = ?b"
      using bfull shp by simp
    have osmall: "\<forall>xs \<in> set ?outs. length xs \<le> ?b"
      using bsmall shp by auto
    have total: "length (concat ?outs) = length X_test"
      using list_all2_concat_length [OF lens] cat by simp
    have stack: "np_concatenate ?outs = Inr (concat ?outs)"
      using np_vstack_uniform [of ?outs n_out] bne rows by (simp add: np_vstack_def)
    have run: "cnn_predict self sess w X_test batch_size = Inr (concat ?outs)"
      using pred True stack by simp
    have each: "?batches ! (i div ?b) ! (i mod ?b) = X_test ! i \<and>
        concat ?outs ! i = cs_logits sess w (?batches ! (i div ?b)) 1 ! (i mod ?b)"
      if i: "i < length X_test" for i
    proof -
      from i cat have "i < length (concat ?batches)" by simp
      from concat_nth_uniform [OF pos bfull bsmall this] cat
      have x: "i div ?b < length ?batches" "?batches ! (i div ?b) ! (i mod ?b) = X_test ! i"
        by simp_all
      from i total have io: "i < length (concat ?outs)" by simp
      from concat_nth_uniform [OF pos ofull osmall io]
      have "concat ?outs ! i = ?outs ! (i div ?b) ! (i mod ?b)" by simp
      with x show ?thesis by simp
    qed
    have kinds: "rnn_predict rsess stateful rw X_test batch_size = Inr (map argmax_row (concat ?outs))"
      if n: "0 < n_out" and lt: "batch_size < 2147483648"
        and same: "\<forall>X_batch st. fst (rs_logits rsess rw X_batch 1 st) = cs_logits sess w X_batch 1"
    proof -
      have i32: "int32 batch_size" using assms(2) lt by (simp add: int32_def)
      obtain st' outs where pass: "rnn_predict_pass rsess stateful rw batch_size ?batches = (st', outs)"
        and rel: "list_all2 (\<lambda>b out. \<exists>s. out = fst (rs_logits rsess rw b 1 s)) ?batches outs"
        using rnn_predict_pass_outs [of rsess stateful rw batch_size ?batches] by blast
      from rel same have "list_all2 (\<lambda>b out. out = cs_logits sess w b 1) ?batches outs"
        by (auto elim!: list_all2_mono)
      then have outs: "outs = ?outs"
        by (simp add: list_all2_conv_all_nth list_eq_iff_nth_eq)
      have "\<not> list_ex (\<lambda>row. row = []) (concat ?outs)"
        using rows n unfolding list_ex_iff by auto
      then show ?thesis
        using pass stack outs
        by (simp add: rnn_predict_eq [OF assms(2) i32] np_argmax1_def np_vstack_def)
    qed
    have "\<exists>logits.
        cnn_predict self sess w X_test batch_size = Inr logits \<and>
        logits = concat ?outs \<and>
        length logits = length X_test \<and>
        list_all (\<lambda>row. length row = n_out) logits \<and>
        (\<forall>i<length X_test.
           ?batches ! (i div ?b) ! (i mod ?b) = X_test ! i \<and>
           logits ! i = cs_logits sess w (?batches ! (i div ?b)) 1 ! (i mod ?b)) \<and>
        (0 < n_out \<and> batch_size < 2147483648 \<and>
         (\<forall>X_batch st. fst (rs_logits rsess rw X_batch 1 st) = cs_logits sess w X_batch 1)
           \<longrightarrow> rnn_predict rsess stateful rw X_test batch_size = Inr (map argmax_row logits))"
    proof (intro exI conjI)
      show "cnn_predict self sess w X_test batch_size = Inr (concat ?outs)" by (rule run)
      show "concat ?outs = concat ?outs" by (rule refl)
      show "length (concat ?outs) = length X_test" by (rule total)
      show "list_all (\<lambda>row. length row = n_out) (concat ?outs)"
        using rows unfolding list_all_iff by blast
      show "\<forall>i<length X_test.
          ?batches ! (i div ?b) ! (i mod ?b) = X_test ! i \<and>
          concat ?outs ! i = cs_logits sess w (?batches ! (i div ?b)) 1 ! (i mod ?b)"
        using each by blast
      show "0 < n_out \<and> batch_size < 2147483648 \<and>
          (\<forall>X_batch st. fst (rs_logits rsess rw X_batch 1 st) = cs_logits sess w X_batch 1)
          \<longrightarrow> rnn_predict rsess stateful rw X_test batch_size = Inr (map argmax_row (concat ?outs))"
        using kinds by blast
    qed
    with True gen show ?thesis by (intro exI [of _ ?batches]) (simp only: if_True simp_thms)
  qed
qed

theorem cnn_predict_one_row_batch_witness:
  "\<exists>G. Conv1DClassifier_init 20 1000 2 50 250 3 ''VALID'' 250 = Inr G \<and>
     cnn_predict G example_cnn_session 4 [[1, 2], [3, 1], [0, 5 :: real]] 2
       = Inl InvalidArgumentError \<and>
     cnn_predict G example_cnn_session 4 [[1, 2], [3, 1], [0, 5], [2, 2 :: real]] 2
       = Inr [[3, 4], [4, 4], [5, 4], [4, 4]] \<and>
     rnn_predict example_stateless_rnn_session True 4 [[1, 2], [3, 1], [0, 5], [2, 2 :: real]] 2
       = Inr [1, 0, 0, 0]"
proof -
  let ?X3 = "[[1, 2], [3, 1], [0, 5 :: real]]"
  let ?X4 = "[[1, 2], [3, 1], [0, 5], [2, 2 :: real]]"
  from cnn_graph_valid [of 20 1000 2 50 250 3 250]
  obtain G where G: "Conv1DClassifier_init 20 1000 2 50 250 3 ''VALID'' 250 = Inr G"
    and nf: "cnn_n_filters G = 250"
    unfolding Let_def by auto
  have shape: "\<forall>X_batch. length X_batch \<noteq> 1 \<longrightarrow>
      length (cs_logits example_cnn_session (4::real) X_batch 1) = length X_batch \<and>
      (\<forall>row \<in> set (cs_logits example_cnn_session 4 X_batch 1). length row = 2)"
    by (auto simp: example_cnn_session_def)
  have gen4: "gen_batch ?X4 2 = Inr [[[1, 2], [3, 1]], [[0, 5], [2, 2]]]"
    by (simp add: gen_batch_pos batches_from_step batches_from_done)
  from cnn_predict_one_row_batch [where X_test = ?X3 and batch_size = 2 and self = G
      and sess = example_cnn_session and w = 4 and n_out = 2, OF _ _ shape]
  have bad: "cnn_predict G example_cnn_session 4 ?X3 2 = Inl InvalidArgumentError"
    by (simp add: nf)
  from cnn_predict_one_row_batch [where X_test = ?X4 and batch_size = 2 and self = G
      and sess = example_cnn_session and w = 4 and n_out = 2
      and rsess = example_stateless_rnn_session and rw = 4 and stateful = True, OF _ _ shape]
  obtain batches logits where b: "gen_batch ?X4 2 = Inr batches"
    and l: "cnn_predict G example_cnn_session 4 ?X4 2 = Inr logits"
      "logits = concat (map (\<lambda>X_test_batch. cs_logits example_cnn_session 4 X_test_batch 1) batches)"
    and r: "0 < (2::nat) \<and> (2::int) < 2147483648 \<and>
        (\<forall>X_batch st. fst (rs_logits example_stateless_rnn_session (4::real) X_batch 1 st)
            = cs_logits example_cnn_session 4 X_batch 1)
        \<longrightarrow> rnn_predict example_stateless_rnn_session True 4 ?X4 2 = Inr (map argmax_row logits)"
    by (auto simp: nf)
  from b gen4 have "batches = [[[1, 2], [3, 1]], [[0, 5], [2, 2]]]" by simp
  with l have lg: "logits = [[3, 4], [4, 4], [5, 4], [4, 4]]"
    by (simp add: example_cnn_session_def)
  have "\<forall>X_batch st. fst (rs_logits example_stateless_rnn_session (4::real) X_batch 1 st)
            = cs_logits example_cnn_session 4 X_batch 1"
    by (simp add: example_cnn_session_def example_stateless_rnn_session_def)
  with r have "rnn_predict example_stateless_rnn_session True 4 ?X4 2 = Inr (map argmax_row logits)"
    by simp
  then have rp: "rnn_predict example_stateless_rnn_session True 4 ?X4 2 = Inr [1, 0, 0, 0]"
    by (simp add: lg argmax_row_def)
  from G bad l(1) lg rp show ?thesis by blast
qed

text \<open>
  Claim C9, as amended. For both classifiers, when \<^verbatim>\<open>fit\<close> is called with
  \<open>n_epoch \<ge> 1\<close> and validation data whose inputs are empty, the first epoch raises and
  \<^verbatim>\<open>fit\<close> returns no log. When the steps of that epoch before the validation raise
  nothing, the exception is the \<^verbatim>\<open>ZeroDivisionError\<close> of \<^verbatim>\<open>list_avg\<close> on the empty list
  of validation losses; they raise nothing when \<open>batch_size > 0\<close> (for
  \<^verbatim>\<open>RNNTextClassifier\<close> also \<open>batch_size < 2^31\<close>), the training arrays have equal
  lengths, and, for \<^verbatim>\<open>Conv1DClassifier\<close>, the shuffle keeps lengths and every training
  batch runs (\<open>X\<close> is empty, or there is more than one filter, \<open>batch_size \<noteq> 1\<close> and
  \<open>len(X) mod batch_size \<noteq> 1\<close>). With \<open>n_epoch \<le> 0\<close> no epoch is run and \<^verbatim>\<open>fit\<close>
  returns the empty log.
\<close>

theorem fit_empty_validation_raises:
  "(0 < n_epoch \<longrightarrow>
      (\<exists>e. cnn_fit self sess shuffle w g X Y (Some ([], vY)) n_epoch batch_size keep_prob
              en_exp_decay en_shuffle = Inl e \<and>
           (0 < batch_size \<and> length X = length Y \<and>
            (\<forall>g X Y. length X = length Y \<longrightarrow>
               length (fst (fst (shuffle g X Y))) = length X \<and>
               length (snd (fst (shuffle g X Y))) = length Y) \<and>
            (X = [] \<or> cnn_n_filters self \<noteq> 1 \<and> batch_size \<noteq> 1 \<and>
                      int (length X) mod batch_size \<noteq> 1)
            \<longrightarrow> e = ZeroDivisionError)) \<and>
      (\<exists>e. rnn_fit rsess rshuffle stateful rw rg rX rY (Some ([], rvY)) n_epoch batch_size
              r_en_exp_decay r_en_shuffle rnn_keep_prob = Inl e \<and>
           (0 < batch_size \<and> batch_size < 2147483648 \<and>
            length rX = length rY
            \<longrightarrow> e = ZeroDivisionError))) \<and>
   (n_epoch \<le> 0 \<longrightarrow>
      cnn_fit self sess shuffle w g X Y (Some ([], vY)) n_epoch batch_size keep_prob
        en_exp_decay en_shuffle = Inr (empty_log, cs_global_variables_initializer sess w, g) \<and>
      rnn_fit rsess rshuffle stateful rw rg rX rY (Some ([], rvY)) n_epoch batch_size
        r_en_exp_decay r_en_shuffle rnn_keep_prob
        = Inr (empty_log, rs_global_variables_initializer rsess rw, rg))"
proof (intro conjI impI)
  let ?c0 = "\<lparr>fl_sess = cs_global_variables_initializer sess w, fl_rng = g, fl_X = X, fl_Y = Y,
        fl_log = empty_log, fl_global_step = 0, fl_loss_acc_lr = None\<rparr>"
  let ?r0 = "\<lparr>fl_sess = rs_global_variables_initializer rsess rw, fl_rng = rg, fl_X = rX,
        fl_Y = rY, fl_log = empty_log, fl_global_step = 0, fl_loss_acc_lr = None\<rparr>"
  {
    assume n: "0 < n_epoch"
    then have k: "0 < nat n_epoch" by simp
    from cnn_fit_epoch_empty_val_raises [of self sess shuffle vY n_epoch batch_size keep_prob
        en_exp_decay en_shuffle ?c0]
    obtain e where e: "cnn_fit_epoch self sess shuffle (Some ([], vY)) n_epoch batch_size keep_prob
        en_exp_decay en_shuffle ?c0 = Inl e"
      by blast
    have c: "cnn_fit self sess shuffle w g X Y (Some ([], vY)) n_epoch batch_size keep_prob
        en_exp_decay en_shuffle = Inl e"
      unfolding cnn_fit_def cnn_fit_epochs_def
      using repeat_err_first_fails [where f = "cnn_fit_epoch self sess shuffle (Some ([], vY))
          n_epoch batch_size keep_prob en_exp_decay en_shuffle" and s = ?c0 and k = "nat n_epoch",
          OF e k]
      by simp
    have ce: "e = ZeroDivisionError"
      if "0 < batch_size \<and> length X = length Y \<and>
            (\<forall>g X Y. length X = length Y \<longrightarrow>
               length (fst (fst (shuffle g X Y))) = length X \<and>
               length (snd (fst (shuffle g X Y))) = length Y) \<and>
            (X = [] \<or> cnn_n_filters self \<noteq> 1 \<and> batch_size \<noteq> 1 \<and>
                      int (length X) mod batch_size \<noteq> 1)"
    proof -
      from that have b: "0 < batch_size" and len: "length X = length Y"
        and sh: "\<forall>g X Y. length X = length Y \<longrightarrow>
               length (fst (fst (shuffle g X Y))) = length X \<and>
               length (snd (fst (shuffle g X Y))) = length Y"
        and runs': "X = [] \<or> cnn_n_filters self \<noteq> 1 \<and> batch_size \<noteq> 1 \<and>
                      int (length X) mod batch_size \<noteq> 1"
        by blast+
      have fx: "fl_X ?c0 = X" and fy: "fl_Y ?c0 = Y" by simp_all
      have eq: "en_shuffle \<longrightarrow> length (fl_X ?c0) = length (fl_Y ?c0)"
        unfolding fx fy using len by blast
      have runs: "fl_X ?c0 = [] \<or> cnn_n_filters self \<noteq> 1 \<and> batch_size \<noteq> 1 \<and>
                      int (length (fl_X ?c0)) mod batch_size \<noteq> 1"
        unfolding fx using runs' .
      from cnn_fit_epoch_empty_val [OF n b sh eq runs, of sess vY keep_prob en_exp_decay] e
      show ?thesis by simp
    qed
    from c ce show "\<exists>e. cnn_fit self sess shuffle w g X Y (Some ([], vY)) n_epoch batch_size
              keep_prob en_exp_decay en_shuffle = Inl e \<and>
           (0 < batch_size \<and> length X = length Y \<and>
            (\<forall>g X Y. length X = length Y \<longrightarrow>
               length (fst (fst (shuffle g X Y))) = length X \<and>
               length (snd (fst (shuffle g X Y))) = length Y) \<and>
            (X = [] \<or> cnn_n_filters self \<noteq> 1 \<and> batch_size \<noteq> 1 \<and>
                      int (length X) mod batch_size \<noteq> 1)
            \<longrightarrow> e = ZeroDivisionError)"
      by blast
    from rnn_fit_epoch_empty_val_raises [of rsess rshuffle stateful rvY n_epoch batch_size
        r_en_exp_decay r_en_shuffle rnn_keep_prob ?r0]
    obtain e' where e': "rnn_fit_epoch rsess rshuffle stateful (Some ([], rvY)) n_epoch batch_size
        r_en_exp_decay r_en_shuffle rnn_keep_prob ?r0 = Inl e'"
      by blast
    have r: "rnn_fit rsess rshuffle stateful rw rg rX rY (Some ([], rvY)) n_epoch batch_size
        r_en_exp_decay r_en_shuffle rnn_keep_prob = Inl e'"
      unfolding rnn_fit_def rnn_fit_epochs_def
      using repeat_err_first_fails [where f = "rnn_fit_epoch rsess rshuffle stateful
          (Some ([], rvY)) n_epoch batch_size r_en_exp_decay r_en_shuffle rnn_keep_prob"
          and s = ?r0 and k = "nat n_epoch", OF e' k]
      by simp
    have re: "e' = ZeroDivisionError"
      if "0 < batch_size \<and> batch_size < 2147483648 \<and> length rX = length rY"
    proof -
      from that have b: "0 < batch_size" and i: "int32 batch_size"
        and len: "length rX = length rY"
        by (simp_all add: int32_def)
      have fx: "fl_X ?r0 = rX" and fy: "fl_Y ?r0 = rY" by simp_all
      have eq: "r_en_shuffle \<longrightarrow> length (fl_X ?r0) = length (fl_Y ?r0)"
        unfolding fx fy using len by blast
      from rnn_fit_epoch_empty_val [OF n b i eq, of rsess rshuffle stateful rvY r_en_exp_decay
          rnn_keep_prob] e'
      show ?thesis by simp
    qed
    from r re show "\<exists>e. rnn_fit rsess rshuffle stateful rw rg rX rY (Some ([], rvY)) n_epoch
              batch_size r_en_exp_decay r_en_shuffle rnn_keep_prob = Inl e \<and>
           (0 < batch_size \<and> batch_size < 2147483648 \<and>
            length rX = length rY
            \<longrightarrow> e = ZeroDivisionError)"
      by blast
  }
  {
    assume "n_epoch \<le> 0"
    then have z: "nat n_epoch = 0" by simp
    show "cnn_fit self sess shuffle w g X Y (Some ([], vY)) n_epoch batch_size keep_prob
        en_exp_decay en_shuffle = Inr (empty_log, cs_global_variables_initializer sess w, g)"
      by (simp add: cnn_fit_def cnn_fit_epochs_def z)
    show "rnn_fit rsess rshuffle stateful rw rg rX rY (Some ([], rvY)) n_epoch batch_size
        r_en_exp_decay r_en_shuffle rnn_keep_prob
        = Inr (empty_log, rs_global_variables_initializer rsess rw, rg)"
      by (simp add: rnn_fit_def rnn_fit_epochs_def z)
  }
qed

theorem fit_empty_validation_raises_witness:
  "\<exists>G. Conv1DClassifier_init 20 1000 2 50 250 3 ''VALID'' 250 = Inr G \<and>
     cnn_fit G example_cnn_session example_shuffle 0 0 [[1], [2], [3], [4]] [0, 1, 0, 1]
       (Some ([], [])) 1 2 (1 / 2) True True = Inl ZeroDivisionError \<and>
     rnn_fit example_rnn_session example_shuffle True 0 0 [[1], [2], [3]] [0, 1, 0] (Some ([], []))
       1 2 True True 1 = Inl ZeroDivisionError"
proof -
  from cnn_graph_valid [of 20 1000 2 50 250 3 250]
  obtain G where G: "Conv1DClassifier_init 20 1000 2 50 250 3 ''VALID'' 250 = Inr G"
    and nf: "cnn_n_filters G = 250"
    unfolding Let_def by auto
  have sh: "\<forall>g X Y. length X = length Y \<longrightarrow>
      length (fst (fst (example_shuffle g X Y))) = length X \<and>
      length (snd (fst (example_shuffle g X Y))) = length Y"
    by (simp add: example_shuffle_def)
  from fit_empty_validation_raises [where n_epoch = 1 and batch_size = 2 and self = G
      and sess = example_cnn_session
      and shuffle = example_shuffle and w = 0 and g = 0 and X = "[[1], [2], [3], [4]]"
      and Y = "[0, 1, 0, 1]" and vY = "[]" and keep_prob = "1 / 2" and en_exp_decay = True
      and en_shuffle = True and rsess = example_rnn_session and rshuffle = example_shuffle
      and stateful = True and rw = 0 and rg = 0 and rX = "[[1], [2], [3]]" and rY = "[0, 1, 0]"
      and rvY = "[]" and r_en_exp_decay = True and r_en_shuffle = True and rnn_keep_prob = 1]
    sh nf
  have "cnn_fit G example_cnn_session example_shuffle 0 0 [[1], [2], [3], [4]] [0, 1, 0, 1]
       (Some ([], [])) 1 2 (1 / 2) True True = Inl ZeroDivisionError"
    and "rnn_fit example_rnn_session example_shuffle True 0 0 [[1], [2], [3]] [0, 1, 0]
       (Some ([], [])) 1 2 True True 1 = Inl ZeroDivisionError"
    by auto
  with G show ?thesis by blast
qed

text \<open>
  Claim C9 as stated fails when there is no epoch to run: with \<open>n_epoch = 0\<close> and
  empty validation inputs both classifiers return the (empty) log.
\<close>

theorem fit_empty_validation_zero_epochs:
  "(case Conv1DClassifier_init 20 1000 2 50 250 3 ''VALID'' 250 of
      Inl e \<Rightarrow> False
    | Inr G \<Rightarrow>
        cnn_fit G example_cnn_session example_shuffle 7 0 [[1], [2], [3]] [0, 1, 0]
          (Some ([], [])) 0 2 (1 / 2) True True = Inr (empty_log, 0, 0)) \<and>
   rnn_fit example_rnn_session example_shuffle True 7 0 [[1], [2], [3]] [0, 1, 0] (Some ([], []))
     0 2 True True 1 = Inr (empty_log, 0, 0)"
proof -
  from cnn_graph_valid [of 20 1000 2 50 250 3 250]
  obtain G where G: "Conv1DClassifier_init 20 1000 2 50 250 3 ''VALID'' 250 = Inr G"
    unfolding Let_def by auto
  show ?thesis
    unfolding G
    by (simp add: cnn_fit_def cnn_fit_epochs_def rnn_fit_def rnn_fit_epochs_def
        example_cnn_session_def example_rnn_session_def)
qed

text \<open>
  Claim C6. For both classifiers, whenever \<^verbatim>\<open>fit\<close>, called with validation data, returns
  its log, the log has one validation loss and one validation accuracy per epoch; the batch
  size is positive and \<^verbatim>\<open>gen_batch\<close> cuts the validation inputs and labels into at least
  one pair of batches; and the entry of epoch \<open>e\<close> is the sum of the scores of these
  batches divided by their number, each batch counting once whatever its size. The scores
  are the loss and the accuracy that the session evaluates on each validation batch, with
  keep probability 1, in the session state that the training pass of epoch \<open>e\<close> leaves:
  in \<^verbatim>\<open>Conv1DClassifier\<close> \<open>cs_eval\<close> on the batch; in \<^verbatim>\<open>RNNTextClassifier\<close> \<open>rs_eval\<close> on
  the batch from some state of the cell, the batches being scored in one pass
  (\<open>rnn_val_pass\<close>), which without \<^verbatim>\<open>stateful\<close> starts every batch from the zero state of
  its own size. And \<^verbatim>\<open>fit\<close> does return its log when the batch size is positive, the
  training and the validation arrays are non-empty, inputs and labels have the same
  length, and the shuffle keeps the lengths, provided that: in \<^verbatim>\<open>Conv1DClassifier\<close> there
  is more than one filter and no training or validation batch has exactly one row; in
  \<^verbatim>\<open>RNNTextClassifier\<close> the batch size is below \<open>2^31\<close>.
\<close>

theorem fit_validation_mean:
  "(\<forall>lg w' g'.
      cnn_fit self csess shuffle cw g X Y (Some (vX, vY)) n_epoch batch_size keep_prob
        en_exp_decay en_shuffle = Inr (lg, w', g') \<longrightarrow>
      length (log_val_loss lg) = nat n_epoch \<and> length (log_val_acc lg) = nat n_epoch \<and>
      (\<forall>e<nat n_epoch. \<exists>st X_batches Y_batches.
         cnn_fit_epochs self csess shuffle cw g X Y (Some (vX, vY)) n_epoch batch_size keep_prob
           en_exp_decay en_shuffle (Suc e) = Inr st \<and>
         0 < batch_size \<and>
         gen_batch vX batch_size = Inr X_batches \<and> gen_batch vY batch_size = Inr Y_batches \<and>
         zip X_batches Y_batches \<noteq> [] \<and>
         cnn_val_lists self csess (fl_sess st) (vX, vY) batch_size =
           Inr (map (\<lambda>(xb, yb). fst (cs_eval csess (fl_sess st) xb yb 1)) (zip X_batches Y_batches),
                map (\<lambda>(xb, yb). snd (cs_eval csess (fl_sess st) xb yb 1)) (zip X_batches Y_batches)) \<and>
         log_val_loss lg ! e =
           sum_list (map (\<lambda>(xb, yb). fst (cs_eval csess (fl_sess st) xb yb 1))
                       (zip X_batches Y_batches))
           / real (length (zip X_batches Y_batches)) \<and>
         log_val_acc lg ! e =
           sum_list (map (\<lambda>(xb, yb). snd (cs_eval csess (fl_sess st) xb yb 1))
                       (zip X_batches Y_batches))
           / real (length (zip X_batches Y_batches)))) \<and>
   (\<forall>lg w' g'.
      rnn_fit rsess rshuffle stateful rw rg rX rY (Some (rvX, rvY)) n_epoch batch_size
        r_en_exp_decay r_en_shuffle rnn_keep_prob = Inr (lg, w', g') \<longrightarrow>
      length (log_val_loss lg) = nat n_epoch \<and> length (log_val_acc lg) = nat n_epoch \<and>
      (\<forall>e<nat n_epoch. \<exists>st X_batches Y_batches final val_loss_list val_acc_list.
         rnn_fit_epochs rsess rshuffle stateful rw rg rX rY (Some (rvX, rvY)) n_epoch batch_size
           r_en_exp_decay r_en_shuffle rnn_keep_prob (Suc e) = Inr st \<and>
         0 < batch_size \<and> batch_size < 2147483648 \<and>
         gen_batch rvX batch_size = Inr X_batches \<and> gen_batch rvY batch_size = Inr Y_batches \<and>
         zip X_batches Y_batches \<noteq> [] \<and>
         rnn_val_lists rsess stateful (fl_sess st) (rvX, rvY) batch_size
           = Inr (val_loss_list, val_acc_list) \<and>
         rnn_val_pass rsess stateful (fl_sess st) batch_size (zip X_batches Y_batches)
           = (final, val_loss_list, val_acc_list) \<and>
         length val_loss_list = length (zip X_batches Y_batches) \<and>
         length val_acc_list = length (zip X_batches Y_batches) \<and>
         list_all2 (\<lambda>b la. \<exists>s. la = (fst (rs_eval rsess (fl_sess st) (fst b) (snd b) 1 s),
                                      fst (snd (rs_eval rsess (fl_sess st) (fst b) (snd b) 1 s))))
           (zip X_batches Y_batches) (zip val_loss_list val_acc_list) \<and>
         (\<not> stateful \<longrightarrow>
            val_loss_list =
              map (\<lambda>(xb, yb). fst (rs_eval rsess (fl_sess st) xb yb 1
                                     (rs_zero_state rsess (int (length xb)))))
                (zip X_batches Y_batches) \<and>
            val_acc_list =
              map (\<lambda>(xb, yb). fst (snd (rs_eval rsess (fl_sess st) xb yb 1
                                          (rs_zero_state rsess (int (length xb))))))
                (zip X_batches Y_batches)) \<and>
         log_val_loss lg ! e = sum_list val_loss_list / real (length (zip X_batches Y_batches)) \<and>
         log_val_acc lg ! e = sum_list val_acc_list / real (length (zip X_batches Y_batches)))) \<and>
   (0 < batch_size \<and> X \<noteq> [] \<and> vX \<noteq> [] \<and> length X = length Y \<and> length vX = length vY \<and>
    (\<forall>g X Y. length X = length Y \<longrightarrow>
       length (fst (fst (shuffle g X Y))) = length X \<and>
       length (snd (fst (shuffle g X Y))) = length Y) \<and>
    cnn_n_filters self \<noteq> 1 \<and> batch_size \<noteq> 1 \<and>
    int (length X) mod batch_size \<noteq> 1 \<and> int (length vX) mod batch_size \<noteq> 1
    \<longrightarrow> (\<exists>lg w' g'.
           cnn_fit self csess shuffle cw g X Y (Some (vX, vY)) n_epoch batch_size keep_prob
             en_exp_decay en_shuffle = Inr (lg, w', g'))) \<and>
   (0 < batch_size \<and> batch_size < 2147483648 \<and> rX \<noteq> [] \<and> rvX \<noteq> [] \<and>
    length rX = length rY \<and> length rvX = length rvY \<and>
    (\<forall>g X Y. length X = length Y \<longrightarrow>
       length (fst (fst (rshuffle g X Y))) = length X \<and>
       length (snd (fst (rshuffle g X Y))) = length Y)
    \<longrightarrow> (\<exists>lg w' g'.
           rnn_fit rsess rshuffle stateful rw rg rX rY (Some (rvX, rvY)) n_epoch batch_size
             r_en_exp_decay r_en_shuffle rnn_keep_prob = Inr (lg, w', g')))"
proof (intro conjI allI impI)
  fix lg w' g'
  assume fit: "cnn_fit self csess shuffle cw g X Y (Some (vX, vY)) n_epoch batch_size keep_prob
        en_exp_decay en_shuffle = Inr (lg, w', g')"
  let ?V = "zip (batches_from 0 vX (nat batch_size)) (batches_from 0 vY (nat batch_size))"
  note ent = cnn_fit_val_entries [OF fit]
  from ent show "length (log_val_loss lg) = nat n_epoch" by blast
  from ent show "length (log_val_acc lg) = nat n_epoch" by blast
  fix e assume e: "e < nat n_epoch"
  with ent obtain st where st:
    "cnn_fit_epochs self csess shuffle cw g X Y (Some (vX, vY)) n_epoch batch_size keep_prob
       en_exp_decay en_shuffle (Suc e) = Inr st"
    and pos: "0 < batch_size" and Vne: "?V \<noteq> []"
    and l: "log_val_loss lg ! e =
          sum_list (map (\<lambda>(xb, yb). fst (cs_eval csess (fl_sess st) xb yb 1)) ?V)
          / real (length ?V)"
    and a: "log_val_acc lg ! e =
          sum_list (map (\<lambda>(xb, yb). snd (cs_eval csess (fl_sess st) xb yb 1)) ?V)
          / real (length ?V)"
    by blast
  have gx: "gen_batch vX batch_size = Inr (batches_from 0 vX (nat batch_size))"
    and gy: "gen_batch vY batch_size = Inr (batches_from 0 vY (nat batch_size))"
    using pos by (simp_all add: gen_batch_pos)
  from st obtain s0 where ep: "cnn_fit_epoch self csess shuffle (Some (vX, vY)) n_epoch
      batch_size keep_prob en_exp_decay en_shuffle s0 = Inr st"
    unfolding cnn_fit_epochs_def by (blast dest: repeat_err_last)
  have lists: "cnn_val_lists self csess (fl_sess st) (vX, vY) batch_size =
      Inr (map (\<lambda>(xb, yb). fst (cs_eval csess (fl_sess st) xb yb 1)) ?V,
           map (\<lambda>(xb, yb). snd (cs_eval csess (fl_sess st) xb yb 1)) ?V)"
    using cnn_fit_epoch_val_lists [OF ep] .
  show "\<exists>st X_batches Y_batches.
         cnn_fit_epochs self csess shuffle cw g X Y (Some (vX, vY)) n_epoch batch_size keep_prob
           en_exp_decay en_shuffle (Suc e) = Inr st \<and>
         0 < batch_size \<and>
         gen_batch vX batch_size = Inr X_batches \<and> gen_batch vY batch_size = Inr Y_batches \<and>
         zip X_batches Y_batches \<noteq> [] \<and>
         cnn_val_lists self csess (fl_sess st) (vX, vY) batch_size =
           Inr (map (\<lambda>(xb, yb). fst (cs_eval csess (fl_sess st) xb yb 1)) (zip X_batches Y_batches),
                map (\<lambda>(xb, yb). snd (cs_eval csess (fl_sess st) xb yb 1)) (zip X_batches Y_batches)) \<and>
         log_val_loss lg ! e =
           sum_list (map (\<lambda>(xb, yb). fst (cs_eval csess (fl_sess st) xb yb 1))
                       (zip X_batches Y_batches))
           / real (length (zip X_batches Y_batches)) \<and>
         log_val_acc lg ! e =
           sum_list (map (\<lambda>(xb, yb). snd (cs_eval csess (fl_sess st) xb yb 1))
                       (zip X_batches Y_batches))
           / real (length (zip X_batches Y_batches))"
    apply (rule exI [of _ st], rule exI [of _ "batches_from 0 vX (nat batch_size)"],
        rule exI [of _ "batches_from 0 vY (nat batch_size)"])
    using st pos gx gy Vne lists l a by (simp only: simp_thms)
next
  fix lg w' g'
  assume fit: "rnn_fit rsess rshuffle stateful rw rg rX rY (Some (rvX, rvY)) n_epoch batch_size
        r_en_exp_decay r_en_shuffle rnn_keep_prob = Inr (lg, w', g')"
  let ?V = "zip (batches_from 0 rvX (nat batch_size)) (batches_from 0 rvY (nat batch_size))"
  note ent = rnn_fit_val_entries [OF fit]
  from ent show "length (log_val_loss lg) = nat n_epoch" by blast
  from ent show "length (log_val_acc lg) = nat n_epoch" by blast
  fix e assume e: "e < nat n_epoch"
  with ent obtain st where st:
    "rnn_fit_epochs rsess rshuffle stateful rw rg rX rY (Some (rvX, rvY)) n_epoch batch_size
       r_en_exp_decay r_en_shuffle rnn_keep_prob (Suc e) = Inr st"
    and pos: "0 < batch_size" and lt: "batch_size < 2147483648" and Vne: "?V \<noteq> []"
    and l: "log_val_loss lg ! e =
          sum_list (fst (snd (rnn_val_pass rsess stateful (fl_sess st) batch_size ?V)))
          / real (length ?V)"
    and a: "log_val_acc lg ! e =
          sum_list (snd (snd (rnn_val_pass rsess stateful (fl_sess st) batch_size ?V)))
          / real (length ?V)"
    by blast
  have i32: "int32 batch_size" using pos lt by (simp add: int32_def)
  have gx: "gen_batch rvX batch_size = Inr (batches_from 0 rvX (nat batch_size))"
    and gy: "gen_batch rvY batch_size = Inr (batches_from 0 rvY (nat batch_size))"
    using pos by (simp_all add: gen_batch_pos)
  from rnn_val_pass_scores [of rsess stateful "fl_sess st" batch_size ?V]
  obtain final ls as where pass: "rnn_val_pass rsess stateful (fl_sess st) batch_size ?V
      = (final, ls, as)"
    and len: "length ls = length ?V" "length as = length ?V"
    and rel: "list_all2 (\<lambda>b la. \<exists>s. la = (fst (rs_eval rsess (fl_sess st) (fst b) (snd b) 1 s),
                                      fst (snd (rs_eval rsess (fl_sess st) (fst b) (snd b) 1 s))))
           ?V (zip ls as)"
    by blast
  have lists: "rnn_val_lists rsess stateful (fl_sess st) (rvX, rvY) batch_size = Inr (ls, as)"
    by (simp add: rnn_val_lists_eq [OF pos i32] pass)
  have stateless: "\<not> stateful \<longrightarrow>
            ls = map (\<lambda>(xb, yb). fst (rs_eval rsess (fl_sess st) xb yb 1
                                     (rs_zero_state rsess (int (length xb))))) ?V \<and>
            as = map (\<lambda>(xb, yb). fst (snd (rs_eval rsess (fl_sess st) xb yb 1
                                          (rs_zero_state rsess (int (length xb)))))) ?V"
    using pass by (auto simp: rnn_val_pass_stateless)
  have l': "log_val_loss lg ! e = sum_list ls / real (length ?V)"
    and a': "log_val_acc lg ! e = sum_list as / real (length ?V)"
    using l a by (simp_all add: pass)
  show "\<exists>st X_batches Y_batches final val_loss_list val_acc_list.
         rnn_fit_epochs rsess rshuffle stateful rw rg rX rY (Some (rvX, rvY)) n_epoch batch_size
           r_en_exp_decay r_en_shuffle rnn_keep_prob (Suc e) = Inr st \<and>
         0 < batch_size \<and> batch_size < 2147483648 \<and>
         gen_batch rvX batch_size = Inr X_batches \<and> gen_batch rvY batch_size = Inr Y_batches \<and>
         zip X_batches Y_batches \<noteq> [] \<and>
         rnn_val_lists rsess stateful (fl_sess st) (rvX, rvY) batch_size
           = Inr (val_loss_list, val_acc_list) \<and>
         rnn_val_pass rsess stateful (fl_sess st) batch_size (zip X_batches Y_batches)
           = (final, val_loss_list, val_acc_list) \<and>
         length val_loss_list = length (zip X_batches Y_batches) \<and>
         length val_acc_list = length (zip X_batches Y_batches) \<and>
         list_all2 (\<lambda>b la. \<exists>s. la = (fst (rs_eval rsess (fl_sess st) (fst b) (snd b) 1 s),
                                      fst (snd (rs_eval rsess (fl_sess st) (fst b) (snd b) 1 s))))
           (zip X_batches Y_batches) (zip val_loss_list val_acc_list) \<and>
         (\<not> stateful \<longrightarrow>
            val_loss_list =
              map (\<lambda>(xb, yb). fst (rs_eval rsess (fl_sess st) xb yb 1
                                     (rs_zero_state rsess (int (length xb)))))
                (zip X_batches Y_batches) \<and>
            val_acc_list =
              map (\<lambda>(xb, yb). fst (snd (rs_eval rsess (fl_sess st) xb yb 1
                                          (rs_zero_state rsess (int (length xb))))))
                (zip X_batches Y_batches)) \<and>
         log_val_loss lg ! e = sum_list val_loss_list / real (length (zip X_batches Y_batches)) \<and>
         log_val_acc lg ! e = sum_list val_acc_list / real (length (zip X_batches Y_batches))"
    apply (rule exI [of _ st], rule exI [of _ "batches_from 0 rvX (nat batch_size)"],
        rule exI [of _ "batches_from 0 rvY (nat batch_size)"],
        rule exI [of _ final], rule exI [of _ ls], rule exI [of _ as])
    apply (intro conjI)
    using st pos lt gx gy Vne lists pass len rel stateless l' a' by blast+
next
  assume c: "0 < batch_size \<and> X \<noteq> [] \<and> vX \<noteq> [] \<and> length X = length Y \<and> length vX = length vY \<and>
    (\<forall>g X Y. length X = length Y \<longrightarrow>
       length (fst (fst (shuffle g X Y))) = length X \<and>
       length (snd (fst (shuffle g X Y))) = length Y) \<and>
    cnn_n_filters self \<noteq> 1 \<and> batch_size \<noteq> 1 \<and>
    int (length X) mod batch_size \<noteq> 1 \<and> int (length vX) mod batch_size \<noteq> 1"
  then have pos: "0 < batch_size" and X: "X \<noteq> []" and vX: "vX \<noteq> []"
    and xy: "length X = length Y" and vxy: "length vX = length vY"
    and sh: "\<forall>g X Y. length X = length Y \<longrightarrow>
       length (fst (fst (shuffle g X Y))) = length X \<and>
       length (snd (fst (shuffle g X Y))) = length Y"
    and runs: "cnn_n_filters self \<noteq> 1" "batch_size \<noteq> 1"
      "int (length X) mod batch_size \<noteq> 1" "int (length vX) mod batch_size \<noteq> 1"
    by blast+
  from X xy have Y: "Y \<noteq> []" by auto
  from vX vxy have vY: "vY \<noteq> []" by auto
  from xy have exy: "en_shuffle \<longrightarrow> length X = length Y" by blast
  show "\<exists>lg w' g'.
           cnn_fit self csess shuffle cw g X Y (Some (vX, vY)) n_epoch batch_size keep_prob
             en_exp_decay en_shuffle = Inr (lg, w', g')"
    by (rule cnn_fit_returns [OF pos X Y vX vY exy sh runs])
next
  assume c: "0 < batch_size \<and> batch_size < 2147483648 \<and> rX \<noteq> [] \<and> rvX \<noteq> [] \<and>
    length rX = length rY \<and> length rvX = length rvY \<and>
    (\<forall>g X Y. length X = length Y \<longrightarrow>
       length (fst (fst (rshuffle g X Y))) = length X \<and>
       length (snd (fst (rshuffle g X Y))) = length Y)"
  then have pos: "0 < batch_size" and lt: "batch_size < 2147483648"
    and X: "rX \<noteq> []" and vX: "rvX \<noteq> []"
    and xy: "length rX = length rY" and vxy: "length rvX = length rvY"
    and sh: "\<forall>g X Y. length X = length Y \<longrightarrow>
       length (fst (fst (rshuffle g X Y))) = length X \<and>
       length (snd (fst (rshuffle g X Y))) = length Y"
    by blast+
  from X xy have Y: "rY \<noteq> []" by auto
  from vX vxy have vY: "rvY \<noteq> []" by auto
  from xy have exy: "r_en_shuffle \<longrightarrow> length rX = length rY" by blast
  show "\<exists>lg w' g'.
           rnn_fit rsess rshuffle stateful rw rg rX rY (Some (rvX, rvY)) n_epoch batch_size
             r_en_exp_decay r_en_shuffle rnn_keep_prob = Inr (lg, w', g')"
    by (rule rnn_fit_returns [OF pos lt X Y vX vY exy sh])
qed

theorem fit_validation_mean_witness:
  "\<exists>G. Conv1DClassifier_init 20 1000 2 50 250 3 ''VALID'' 250 = Inr G \<and>
     (\<exists>lg w' g'.
        cnn_fit G example_cnn_session example_shuffle 0 0 [[1], [2], [3], [4], [5]] [0, 2, 0, 1, 1]
          (Some ([[1], [2], [3], [4], [5]], [0, 2, 2, 1, 0])) 2 3 (1 / 2) False True
          = Inr (lg, w', g') \<and>
        log_val_acc lg = [5 / 2, 5 / 2]) \<and>
     (\<exists>lg w' g'.
        rnn_fit example_rnn_session example_shuffle True 0 0 [[1], [2], [3], [4], [5]] [0, 2, 0, 1, 1]
          (Some ([[1], [2], [3], [4], [5]], [0, 2, 2, 1, 0])) 2 3 False True 1
          = Inr (lg, w', g') \<and>
        log_val_acc lg = [5 / 2, 5 / 2])"
proof -
  let ?X = "[[1], [2], [3], [4], [5 :: real]]"
  let ?Y = "[0, 2, 0, 1, 1 :: nat]"
  let ?vY = "[0, 2, 2, 1, 0 :: nat]"
  from cnn_graph_valid [of 20 1000 2 50 250 3 250]
  obtain G where G: "Conv1DClassifier_init 20 1000 2 50 250 3 ''VALID'' 250 = Inr G"
    and nf: "cnn_n_filters G = 250"
    unfolding Let_def by auto
  have gx: "gen_batch ?X 3 = Inr [[[1], [2], [3]], [[4], [5]]]"
    and gy: "gen_batch ?vY 3 = Inr [[0, 2, 2], [1, 0]]"
    by (simp_all add: gen_batch_pos batches_from_step batches_from_done)
  have sh: "\<forall>g X Y. length X = length Y \<longrightarrow>
      length (fst (fst (example_shuffle g X Y))) = length X \<and>
      length (snd (fst (example_shuffle g X Y))) = length Y"
    by (simp add: example_shuffle_def)
  have two: "l = [a, b]" if "length l = 2" "l ! 0 = a" "l ! 1 = b" for l :: "real list" and a b
    using that by (auto simp: list_eq_iff_nth_eq less_Suc_eq numeral_2_eq_2)
  have pass: "snd (snd (rnn_val_pass example_rnn_session True w 3
      [([[1], [2], [3]], [0, 2, 2]), ([[4], [5]], [1, 0])])) = [3, 2]" for w :: real
    by (simp add: rnn_val_pass_def rnn_val_carry_def rnn_val_fresh_def example_rnn_session_def)
  note t = fit_validation_mean [where self = G and csess = example_cnn_session
      and shuffle = example_shuffle and cw = 0 and g = 0 and X = ?X and Y = ?Y and vX = ?X
      and vY = ?vY and n_epoch = 2 and batch_size = 3 and keep_prob = "1 / 2"
      and en_exp_decay = False and en_shuffle = True
      and rsess = example_rnn_session and rshuffle = example_shuffle and stateful = True
      and rw = 0 and rg = 0 and rX = ?X and rY = ?Y and rvX = ?X and rvY = ?vY
      and r_en_exp_decay = False and r_en_shuffle = True and rnn_keep_prob = 1]
  from t [THEN conjunct2, THEN conjunct2, THEN conjunct1] sh nf
  obtain lg w' g' where
    cf: "cnn_fit G example_cnn_session example_shuffle 0 0 ?X ?Y (Some (?X, ?vY)) 2 3 (1 / 2)
           False True = Inr (lg, w', g')"
    by auto
  note c = t [THEN conjunct1, rule_format, OF cf]
  from c have cl: "length (log_val_acc lg) = nat 2" by (elim conjE)
  have c_each: "log_val_acc lg ! e = 5 / 2" if "e < nat 2" for e
  proof -
    from c [THEN conjunct2, THEN conjunct2, rule_format, OF that]
    obtain st X_batches Y_batches where
      "cnn_fit_epochs G example_cnn_session example_shuffle 0 0 ?X ?Y (Some (?X, ?vY)) 2 3
         (1 / 2) False True (Suc e) = Inr st"
      and b: "gen_batch ?X 3 = Inr X_batches" "gen_batch ?vY 3 = Inr Y_batches"
      and v: "log_val_acc lg ! e =
           sum_list (map (\<lambda>(xb, yb). snd (cs_eval example_cnn_session (fl_sess st) xb yb 1))
                       (zip X_batches Y_batches))
           / real (length (zip X_batches Y_batches))"
      by (elim exE conjE) blast
    from b(1) have xb: "X_batches = [[[1], [2], [3]], [[4], [5]]]" unfolding gx by simp
    from b(2) have yb: "Y_batches = [[0, 2, 2], [1, 0]]" unfolding gy by simp
    have z: "zip X_batches Y_batches
        = [([[1], [2], [3]], [0, 2, 2]), ([[4], [5]], [1, 0])]" unfolding xb yb by simp
    from v show ?thesis unfolding z by (simp add: example_cnn_session_def)
  qed
  have c0: "log_val_acc lg ! 0 = 5 / 2" and c1: "log_val_acc lg ! 1 = 5 / 2"
    by (rule c_each, simp)+
  from cl c0 c1 have cacc: "log_val_acc lg = [5 / 2, 5 / 2]" by (intro two) simp_all
  from t [THEN conjunct2, THEN conjunct2, THEN conjunct2] sh
  obtain rlg rw' rg' where
    rf: "rnn_fit example_rnn_session example_shuffle True 0 0 ?X ?Y (Some (?X, ?vY)) 2 3
           False True 1 = Inr (rlg, rw', rg')"
    by auto
  note r = t [THEN conjunct2, THEN conjunct1, rule_format, OF rf]
  from r have rlen: "length (log_val_acc rlg) = nat 2" by (elim conjE)
  have r_each: "log_val_acc rlg ! e = 5 / 2" if "e < nat 2" for e
  proof -
    from r [THEN conjunct2, THEN conjunct2, rule_format, OF that]
    obtain st X_batches Y_batches final val_loss_list val_acc_list where
      "rnn_fit_epochs example_rnn_session example_shuffle True 0 0 ?X ?Y (Some (?X, ?vY)) 2 3
         False True 1 (Suc e) = Inr st"
      and b: "gen_batch ?X 3 = Inr X_batches" "gen_batch ?vY 3 = Inr Y_batches"
      and p: "rnn_val_pass example_rnn_session True (fl_sess st) 3 (zip X_batches Y_batches)
           = (final, val_loss_list, val_acc_list)"
      and v: "log_val_acc rlg ! e = sum_list val_acc_list / real (length (zip X_batches Y_batches))"
      by (elim exE conjE) blast
    from b(1) have xb: "X_batches = [[[1], [2], [3]], [[4], [5]]]" unfolding gx by simp
    from b(2) have yb: "Y_batches = [[0, 2, 2], [1, 0]]" unfolding gy by simp
    have z: "zip X_batches Y_batches
        = [([[1], [2], [3]], [0, 2, 2]), ([[4], [5]], [1, 0])]" unfolding xb yb by simp
    from p pass [of "fl_sess st"] have "val_acc_list = [3, 2]" unfolding z by simp
    with v z show ?thesis by simp
  qed
  have r0: "log_val_acc rlg ! 0 = 5 / 2" and r1: "log_val_acc rlg ! 1 = 5 / 2"
    by (rule r_each, simp)+
  from rlen r0 r1 have racc: "log_val_acc rlg = [5 / 2, 5 / 2]" by (intro two) simp_all
  from G cf cacc rf racc show ?thesis by blast
qed

text \<open>
  Claim C10. In \<^verbatim>\<open>RNNTextClassifier\<close> with \<^verbatim>\<open>stateful=True\<close> and a batch size that
  \<^verbatim>\<open>predict\<close> and \<^verbatim>\<open>fit\<close> accept (\<open>0 < batch_size < 2^31\<close>), \<^verbatim>\<open>predict\<close> and every
  epoch of \<^verbatim>\<open>fit\<close> (training and validation) make one pass over their batches: the pass
  starts from the zero state of \<open>batch_size\<close> rows and runs every batch of exactly
  \<open>batch_size\<close> rows carrying the state, so that its initial state is the final state of
  the batch before it. A final batch of fewer rows is run fresh: from the zero state of its
  own size, the carried state being neither read nor changed. Such a list of full batches
  followed by one shorter batch is what \<^verbatim>\<open>gen_batch\<close> yields.
\<close>

theorem rnn_stateful_state_passing:
  assumes "0 < batch_size" and "batch_size < 2147483648"
    and "\<forall>b \<in> set fulls. int (length b) = batch_size"
    and "partial \<noteq> []" and "int (length partial) < batch_size"
    and "\<forall>b \<in> set pair_fulls. int (length (fst b)) = batch_size"
    and "int (length (fst pair_partial)) < batch_size"
  shows "gen_batch (concat fulls) batch_size = Inr fulls \<and>
         gen_batch (concat fulls @ partial) batch_size = Inr (fulls @ [partial]) \<and>
         rnn_predict_loop sess True w batch_size (rs_zero_state sess batch_size) fulls =
           Inr (foldl (rnn_predict_carry sess w) (rs_zero_state sess batch_size, []) fulls) \<and>
         rnn_predict_loop sess True w batch_size (rs_zero_state sess batch_size)
             (fulls @ [partial]) =
           Inr (rnn_predict_fresh sess w
                  (foldl (rnn_predict_carry sess w) (rs_zero_state sess batch_size, []) fulls)
                  partial) \<and>
         fst (rnn_predict_fresh sess w
                (foldl (rnn_predict_carry sess w) (rs_zero_state sess batch_size, []) fulls)
                partial) =
           fst (foldl (rnn_predict_carry sess w) (rs_zero_state sess batch_size, []) fulls) \<and>
         rnn_predict sess True w (concat fulls @ partial) batch_size =
           bind_err
             (np_vstack (snd (rnn_predict_fresh sess w
                (foldl (rnn_predict_carry sess w) (rs_zero_state sess batch_size, []) fulls)
                partial)))
             np_argmax1 \<and>
         rnn_train_loop sess True en_exp_decay n_epoch len_X batch_size rnn_keep_prob
             (w, rs_zero_state sess batch_size, global_step, prev) pair_fulls =
           fold_err (rnn_train_carry sess en_exp_decay n_epoch len_X batch_size rnn_keep_prob)
             (w, rs_zero_state sess batch_size, global_step, prev) pair_fulls \<and>
         rnn_train_loop sess True en_exp_decay n_epoch len_X batch_size rnn_keep_prob
             (w, rs_zero_state sess batch_size, global_step, prev) (pair_fulls @ [pair_partial]) =
           bind_err
             (fold_err (rnn_train_carry sess en_exp_decay n_epoch len_X batch_size rnn_keep_prob)
                (w, rs_zero_state sess batch_size, global_step, prev) pair_fulls)
             (\<lambda>st. rnn_train_fresh sess en_exp_decay n_epoch len_X batch_size rnn_keep_prob
                     st pair_partial) \<and>
         rnn_val_loop sess True w batch_size (rs_zero_state sess batch_size) pair_fulls =
           Inr (foldl (rnn_val_carry sess w) (rs_zero_state sess batch_size, [], []) pair_fulls) \<and>
         rnn_val_loop sess True w batch_size (rs_zero_state sess batch_size)
             (pair_fulls @ [pair_partial]) =
           Inr (rnn_val_fresh sess w
                  (foldl (rnn_val_carry sess w) (rs_zero_state sess batch_size, [], []) pair_fulls)
                  pair_partial) \<and>
         fst (rnn_val_fresh sess w
                (foldl (rnn_val_carry sess w) (rs_zero_state sess batch_size, [], []) pair_fulls)
                pair_partial) =
           fst (foldl (rnn_val_carry sess w) (rs_zero_state sess batch_size, [], []) pair_fulls) \<and>
         rnn_train_pass sess True en_exp_decay n_epoch len_X batch_size rnn_keep_prob
             (w, global_step, prev) (pair_fulls @ [pair_partial]) =
           bind_err
             (fold_err (rnn_train_carry sess en_exp_decay n_epoch len_X batch_size rnn_keep_prob)
                (w, rs_zero_state sess batch_size, global_step, prev) pair_fulls)
             (\<lambda>st. rnn_train_fresh sess en_exp_decay n_epoch len_X batch_size rnn_keep_prob
                     st pair_partial) \<and>
         rnn_val_pass sess True w batch_size (pair_fulls @ [pair_partial]) =
           rnn_val_fresh sess w
             (foldl (rnn_val_carry sess w) (rs_zero_state sess batch_size, [], []) pair_fulls)
             pair_partial \<and>
         rnn_fit_epoch sess shuffle True val_data n_epoch batch_size en_exp_decay en_shuffle
             rnn_keep_prob st =
           rnn_epoch_in_passes sess shuffle True val_data n_epoch batch_size en_exp_decay
             en_shuffle rnn_keep_prob st \<and>
         rnn_fit sess shuffle True w g X Y val_data n_epoch batch_size en_exp_decay en_shuffle
             rnn_keep_prob =
           bind_err
             (repeat_err (nat n_epoch)
                (rnn_epoch_in_passes sess shuffle True val_data n_epoch batch_size en_exp_decay
                   en_shuffle rnn_keep_prob)
                \<lparr>fl_sess = rs_global_variables_initializer sess w, fl_rng = g, fl_X = X,
                 fl_Y = Y, fl_log = empty_log, fl_global_step = 0, fl_loss_acc_lr = None\<rparr>)
             (\<lambda>st. Inr (fl_log st, fl_sess st, fl_rng st))"
proof -
  let ?b = "nat batch_size"
  let ?z = "rs_zero_state sess batch_size"
  have pos: "0 < ?b" using assms(1) by simp
  have i32: "int32 batch_size" using assms(1,2) by (simp add: int32_def)
  have lens: "\<forall>f \<in> set fulls. length f = ?b" using assms(3) by auto
  have lp: "length partial < ?b" using assms(5) by simp
  have lp0: "length ([] :: 'a list) < ?b" using pos by simp
  have np: "int (length partial) \<noteq> batch_size" using assms(5) by simp
  have npp: "int (length (fst pair_partial)) \<noteq> batch_size" using assms(7) by simp
  have le1: "\<forall>b \<in> set fulls. length b \<le> ?b" using lens by simp
  have le2: "\<forall>b \<in> set (fulls @ [partial]). length b \<le> ?b" using lens lp by auto
  have le3: "\<forall>b \<in> set pair_fulls. length (fst b) \<le> ?b" using assms(6) by auto
  have le4: "\<forall>b \<in> set (pair_fulls @ [pair_partial]). length (fst b) \<le> ?b"
    using assms(6,7) by auto
  have g1: "gen_batch (concat fulls) batch_size = Inr fulls"
    using batches_from_concat_full [OF pos lens lp0] assms(1) by (simp add: gen_batch_pos)
  have bf: "batches_from 0 (concat fulls @ partial) ?b = fulls @ [partial]"
    using batches_from_concat_full [OF pos lens lp] assms(4) by simp
  have g2: "gen_batch (concat fulls @ partial) batch_size = Inr (fulls @ [partial])"
    using bf assms(1) by (simp add: gen_batch_pos)
  have p1: "rnn_predict_loop sess True w batch_size ?z fulls =
      Inr (foldl (rnn_predict_carry sess w) (?z, []) fulls)"
    by (simp add: rnn_predict_loop_pass [OF assms(1) i32 le1] rnn_predict_pass_fulls [OF assms(3)])
  have p2: "rnn_predict_loop sess True w batch_size ?z (fulls @ [partial]) =
      Inr (rnn_predict_fresh sess w (foldl (rnn_predict_carry sess w) (?z, []) fulls) partial)"
    by (simp only: rnn_predict_loop_pass [OF assms(1) i32 le2]
        rnn_predict_pass_partial [OF assms(3) np])
  have p3: "fst (rnn_predict_fresh sess w (foldl (rnn_predict_carry sess w) (?z, []) fulls) partial)
      = fst (foldl (rnn_predict_carry sess w) (?z, []) fulls)"
    by (simp add: rnn_predict_fresh_def split: prod.splits)
  have p4: "rnn_predict sess True w (concat fulls @ partial) batch_size =
      bind_err (np_vstack (snd (rnn_predict_fresh sess w
          (foldl (rnn_predict_carry sess w) (?z, []) fulls) partial))) np_argmax1"
    by (simp only: rnn_predict_eq [OF assms(1) i32] bf rnn_predict_pass_partial [OF assms(3) np])
  have t1: "rnn_train_loop sess True en_exp_decay n_epoch len_X batch_size rnn_keep_prob
        (w, ?z, global_step, prev) pair_fulls =
      fold_err (rnn_train_carry sess en_exp_decay n_epoch len_X batch_size rnn_keep_prob)
        (w, ?z, global_step, prev) pair_fulls"
    by (simp only: rnn_train_loop_pass [OF assms(1) i32 le3] rnn_train_pass_fulls [OF assms(6)])
  have t2: "rnn_train_loop sess True en_exp_decay n_epoch len_X batch_size rnn_keep_prob
        (w, ?z, global_step, prev) (pair_fulls @ [pair_partial]) =
      bind_err
        (fold_err (rnn_train_carry sess en_exp_decay n_epoch len_X batch_size rnn_keep_prob)
           (w, ?z, global_step, prev) pair_fulls)
        (\<lambda>st. rnn_train_fresh sess en_exp_decay n_epoch len_X batch_size rnn_keep_prob
                st pair_partial)"
    by (simp only: rnn_train_loop_pass [OF assms(1) i32 le4]
        rnn_train_pass_partial [OF assms(6) npp])
  have v1: "rnn_val_loop sess True w batch_size ?z pair_fulls =
      Inr (foldl (rnn_val_carry sess w) (?z, [], []) pair_fulls)"
    by (simp only: rnn_val_loop_pass [OF assms(1) i32 le3] rnn_val_pass_fulls [OF assms(6)])
  have v2: "rnn_val_loop sess True w batch_size ?z (pair_fulls @ [pair_partial]) =
      Inr (rnn_val_fresh sess w (foldl (rnn_val_carry sess w) (?z, [], []) pair_fulls)
             pair_partial)"
    by (simp only: rnn_val_loop_pass [OF assms(1) i32 le4] rnn_val_pass_partial [OF assms(6) npp])
  have v3: "fst (rnn_val_fresh sess w (foldl (rnn_val_carry sess w) (?z, [], []) pair_fulls)
                pair_partial) =
      fst (foldl (rnn_val_carry sess w) (?z, [], []) pair_fulls)"
    by (simp add: rnn_val_fresh_def split: prod.splits)
  have s1: "rnn_train_pass sess True en_exp_decay n_epoch len_X batch_size rnn_keep_prob
        (w, global_step, prev) (pair_fulls @ [pair_partial]) =
      bind_err
        (fold_err (rnn_train_carry sess en_exp_decay n_epoch len_X batch_size rnn_keep_prob)
           (w, ?z, global_step, prev) pair_fulls)
        (\<lambda>st. rnn_train_fresh sess en_exp_decay n_epoch len_X batch_size rnn_keep_prob
                st pair_partial)"
    by (rule rnn_train_pass_partial [OF assms(6) npp])
  have s2: "rnn_val_pass sess True w batch_size (pair_fulls @ [pair_partial]) =
      rnn_val_fresh sess w (foldl (rnn_val_carry sess w) (?z, [], []) pair_fulls) pair_partial"
    by (rule rnn_val_pass_partial [OF assms(6) npp])
  note f1 = rnn_fit_epoch_eq [OF assms(1) i32, of sess shuffle True val_data n_epoch en_exp_decay
      en_shuffle rnn_keep_prob st]
  note f2 = rnn_fit_eq [OF assms(1) i32, of sess shuffle True w g X Y val_data n_epoch
      en_exp_decay en_shuffle rnn_keep_prob]
  from g1 g2 p1 p2 p3 p4 t1 t2 v1 v2 v3 s1 s2 f1 f2 show ?thesis by (intro conjI)
qed

theorem rnn_stateful_state_passing_witness:
  "gen_batch [[1, 2], [3, 1], [2, 1], [0, 0], [1, 2 :: real]] 2
     = Inr [[[1, 2], [3, 1]], [[2, 1], [0, 0]], [[1, 2]]] \<and>
   rnn_predict_loop example_rnn_session True 4 2 0 [[[1, 2], [3, 1]], [[2, 1], [0, 0]], [[1, 2]]]
     = Inr (2, [[[3, 4], [4, 4]], [[4, 4], [1, 4]], [[3, 4]]]) \<and>
   rnn_predict example_rnn_session True 4 [[1, 2], [3, 1], [2, 1], [0, 0], [1, 2 :: real]] 2
     = Inr [1, 0, 0, 1, 1] \<and>
   rnn_val_loop example_rnn_session True 4 2 0
       [([[1, 2], [3, 1]], [0, 2]), ([[2, 1], [0, 0]], [2, 0]), ([[1, 2]], [2])]
     = Inr (2, [4, 5, 4], [2, 2, 1]) \<and>
   rnn_train_loop example_rnn_session True False 1 5 2 1 (4, 0, 0, None)
       [([[1, 2], [3, 1]], [0, 2]), ([[2, 1], [0, 0]], [2, 0]), ([[1, 2]], [2])]
     = Inr (4003 / 1000, 2, 3, Some (4002 / 1000, 1, 1 / 1000)) \<and>
   rnn_fit example_rnn_session example_shuffle True 4 0
       [[1, 2], [3, 1], [2, 1], [0, 0], [1, 2]] [0, 2, 2, 0, 2]
       (Some ([[1, 2], [3, 1], [2, 1], [0, 0], [1, 2]], [0, 2, 2, 0, 2])) 1 2 False False 1
     = Inr (\<lparr>log_loss = [2 / 1000], log_acc = [1], log_val_loss = [1009 / 3000],
               log_val_acc = [5 / 3]\<rparr>, 3 / 1000, 0)"
proof -
  let ?X = "[[1, 2], [3, 1], [2, 1], [0, 0], [1, 2 :: real]]"
  let ?Y = "[0, 2, 2, 0, 2 :: nat]"
  have h: "(0::int) < 2" "(2::int) < 2147483648"
    "\<forall>b \<in> set [[[1, 2], [3, 1]], [[2, 1], [0, 0 :: real]]]. int (length b) = 2"
    "[[1, 2 :: real]] \<noteq> []" "int (length [[1, 2 :: real]]) < 2"
    "\<forall>b \<in> set [([[1, 2], [3, 1 :: real]], [0, 2 :: nat]), ([[2, 1], [0, 0]], [2, 0])].
       int (length (fst b)) = 2"
    "int (length (fst ([[1, 2 :: real]], [2 :: nat]))) < 2"
    by simp_all
  note t = rnn_stateful_state_passing [OF h, where sess = example_rnn_session and w = 4
      and en_exp_decay = False and n_epoch = 1 and len_X = 5 and rnn_keep_prob = 1
      and global_step = 0 and prev = None and shuffle = example_shuffle
      and val_data = "Some (?X, ?Y)" and en_shuffle = False
      and st = "\<lparr>fl_sess = 0, fl_rng = 0, fl_X = ?X, fl_Y = ?Y, fl_log = empty_log,
                fl_global_step = 0, fl_loss_acc_lr = None\<rparr>"
      and g = 0 and X = ?X and Y = ?Y]
  have bx: "batches_from 0 ?X 2 = [[[1, 2], [3, 1]], [[2, 1], [0, 0]], [[1, 2]]]"
    and bY: "batches_from 0 ?Y 2 = [[0, 2], [2, 0], [2]]"
    by (simp_all add: batches_from_step batches_from_done)
  have g: "gen_batch ?X 2 = Inr [[[1, 2], [3, 1]], [[2, 1], [0, 0]], [[1, 2]]]"
    using t by simp
  have p: "rnn_predict_loop example_rnn_session True 4 2 0
       [[[1, 2], [3, 1]], [[2, 1], [0, 0]], [[1, 2]]]
     = Inr (2, [[[3, 4], [4, 4]], [[4, 4], [1, 4]], [[3, 4]]])"
    using t by (simp add: rnn_predict_carry_def rnn_predict_fresh_def example_rnn_session_def)
  have pr: "rnn_predict example_rnn_session True 4 ?X 2 = Inr [1, 0, 0, 1, 1]"
    using t
    by (simp add: rnn_predict_carry_def rnn_predict_fresh_def example_rnn_session_def
        np_vstack_def np_concatenate_def np_argmax1_def argmax_row_def)
  have v: "rnn_val_loop example_rnn_session True 4 2 0
       [([[1, 2], [3, 1]], [0, 2]), ([[2, 1], [0, 0]], [2, 0]), ([[1, 2]], [2])]
     = Inr (2, [4, 5, 4], [2, 2, 1])"
    using t by (simp add: rnn_val_carry_def rnn_val_fresh_def example_rnn_session_def)
  have tr: "rnn_train_loop example_rnn_session True False 1 5 2 1 (4, 0, 0, None)
       [([[1, 2], [3, 1]], [0, 2]), ([[2, 1], [0, 0]], [2, 0]), ([[1, 2]], [2])]
     = Inr (4003 / 1000, 2, 3, Some (4002 / 1000, 1, 1 / 1000))"
    using t by (simp add: rnn_train_carry_def rnn_train_fresh_def example_rnn_session_def
        rnn_decrease_lr_def)
  have fe: "rnn_fit example_rnn_session example_shuffle True 4 0 ?X ?Y (Some (?X, ?Y)) 1 2
        False False 1 =
      bind_err
        (repeat_err (nat 1)
           (rnn_epoch_in_passes example_rnn_session example_shuffle True (Some (?X, ?Y)) 1 2
              False False 1)
           \<lparr>fl_sess = rs_global_variables_initializer example_rnn_session 4, fl_rng = 0,
            fl_X = ?X, fl_Y = ?Y, fl_log = empty_log, fl_global_step = 0,
            fl_loss_acc_lr = None\<rparr>)
        (\<lambda>st. Inr (fl_log st, fl_sess st, fl_rng st))"
    using t by blast
  have f: "rnn_fit example_rnn_session example_shuffle True 4 0 ?X ?Y (Some (?X, ?Y)) 1 2
        False False 1
     = Inr (\<lparr>log_loss = [2 / 1000], log_acc = [1], log_val_loss = [1009 / 3000],
               log_val_acc = [5 / 3]\<rparr>, 3 / 1000, 0)"
    unfolding fe
    by (simp add: rnn_epoch_in_passes_def bx bY rnn_train_pass_def rnn_val_pass_def
        rnn_train_carry_def rnn_train_fresh_def rnn_val_carry_def rnn_val_fresh_def
        example_rnn_session_def rnn_decrease_lr_def val_averages_def list_avg_def
        append_to_log_def empty_log_def)
  from g p pr v tr f show ?thesis by (intro conjI)
qed

text \<open>
  Claim C4. In the attention stage of \<^verbatim>\<open>RNNTextClassifier\<close>, for every batch of recurrent
  outputs of shape (batch, \<open>seq_len\<close>, \<open>cell_size\<close>) and final states of shape
  (batch, \<open>cell_size\<close>), with \<open>seq_len\<close> and \<open>cell_size\<close> positive, the weights that the
  custom softmax produces are positive and sum to 1 along the sequence axis of each
  example: the weight of position \<open>t\<close> is the exponential of the tanh of the product of the
  output at \<open>t\<close> with the final state, divided by the sum of these exponentials. Each channel
  of the attention output is the sum over the positions of the weight times the recurrent
  output at that position: a convex combination of the output vectors.
\<close>

theorem attention_is_convex_combination:
  assumes "0 < seq_len" and "0 < cell_size"
    and "length final_state_h = length pointer"
    and "\<forall>ex \<in> set pointer. int (length ex) = seq_len \<and> (\<forall>row \<in> set ex. length row = cell_size)"
    and "\<forall>v \<in> set final_state_h. length v = cell_size"
  shows "let weights = rnn_attention_weights seq_len pointer final_state_h;
             attended = rnn_add_attention_value seq_len pointer final_state_h
         in length weights = length pointer \<and> length attended = length pointer \<and>
            (\<forall>b<length pointer.
               int (length (weights ! b)) = seq_len \<and>
               (\<forall>t<nat seq_len.
                  0 < weights ! b ! t \<and>
                  weights ! b ! t =
                    exp (tanh (dot (pointer ! b ! t) (final_state_h ! b)))
                    / (\<Sum>u<nat seq_len. exp (tanh (dot (pointer ! b ! u) (final_state_h ! b))))) \<and>
               sum_list (weights ! b) = 1 \<and>
               length (attended ! b) = cell_size \<and>
               (\<forall>c<cell_size.
                  attended ! b ! c = (\<Sum>t<nat seq_len. weights ! b ! t * pointer ! b ! t ! c)))"
proof -
  let ?n = "nat seq_len"
  let ?score = "\<lambda>ex v. map (\<lambda>row. tanh (dot row v)) ex"
  let ?soft = "\<lambda>r :: real list. map (\<lambda>e. e / sum_list (map exp r)) (map exp r)"
  define weights where "weights = rnn_attention_weights seq_len pointer final_state_h"
  define attended where "attended = rnn_add_attention_value seq_len pointer final_state_h"
  have lens: "\<forall>ex \<in> set pointer. int (length ex) = seq_len" using assms(4) by blast
  have W: "weights = map (\<lambda>(ex, v). ?soft (?score ex v)) (zip pointer final_state_h)"
    unfolding weights_def by (rule attention_weights_closed [OF assms(1,2,3) lens assms(5)])
  have lw: "length weights = length pointer" using W assms(3) by simp
  have wb: "weights ! b = ?soft (?score (pointer ! b) (final_state_h ! b))"
    if "b < length pointer" for b
    using that assms(3) by (simp add: W)
  have exlen: "length (pointer ! b) = ?n" if "b < length pointer" for b
    using that lens by (metis nat_int nth_mem)
  have wlen: "length (weights ! b) = ?n" if "b < length pointer" for b
    using that by (simp add: wb exlen)
  have wall: "\<forall>w \<in> set weights. int (length w) = seq_len"
  proof
    fix w assume "w \<in> set weights"
    then obtain b where "b < length weights" "weights ! b = w" by (auto simp: in_set_conv_nth)
    with lw wlen [of b] assms(1) show "int (length w) = seq_len" by auto
  qed
  have A: "attended = map (\<lambda>(ex, w). map (\<lambda>col. dot col w) (transpose ex)) (zip pointer weights)"
    unfolding attended_def rnn_add_attention_value_def Let_def weights_def [symmetric]
    by (rule attention_value_closed [OF assms(1) lw wall])
  have la: "length attended = length pointer" using A lw by simp
  have each: "int (length (weights ! b)) = seq_len \<and>
       (\<forall>t<?n. 0 < weights ! b ! t \<and>
          weights ! b ! t =
            exp (tanh (dot (pointer ! b ! t) (final_state_h ! b)))
            / (\<Sum>u<?n. exp (tanh (dot (pointer ! b ! u) (final_state_h ! b))))) \<and>
       sum_list (weights ! b) = 1 \<and>
       length (attended ! b) = cell_size \<and>
       (\<forall>c<cell_size. attended ! b ! c = (\<Sum>t<?n. weights ! b ! t * pointer ! b ! t ! c))"
    if b: "b < length pointer" for b
  proof -
    let ?ex = "pointer ! b"
    let ?v = "final_state_h ! b"
    let ?r = "?score ?ex ?v"
    have n: "length ?ex = ?n" by (rule exlen [OF b])
    have npos: "0 < ?n" using assms(1) by simp
    have rne: "?r \<noteq> []" using n npos by auto
    note sm = softmax_row [OF rne]
    have sumexp: "sum_list (map exp ?r) = (\<Sum>u<?n. exp (tanh (dot (?ex ! u) ?v)))"
      using n by (simp add: sum_list_sum_nth atLeast0LessThan)
    have wt: "0 < weights ! b ! t \<and>
        weights ! b ! t = exp (tanh (dot (?ex ! t) ?v)) / (\<Sum>u<?n. exp (tanh (dot (?ex ! u) ?v)))"
      if "t < ?n" for t
    proof -
      have "weights ! b ! t \<in> set (weights ! b)" using that wlen [OF b] by simp
      then have "0 < weights ! b ! t" using sm(2) unfolding wb [OF b] by blast
      moreover have "weights ! b ! t = exp (tanh (dot (?ex ! t) ?v)) / sum_list (map exp ?r)"
        using that n by (simp add: wb [OF b])
      ultimately show ?thesis by (simp only: sumexp)
    qed
    have rect: "\<And>i. i < length ?ex \<Longrightarrow> length (?ex ! i) = cell_size"
      using assms(4) b by (metis nth_mem)
    have tr: "transpose ?ex = map (\<lambda>c. map (\<lambda>t. ?ex ! t ! c) [0..<length ?ex]) [0..<cell_size]"
      by (rule transpose_rectangle) (use n npos rect in auto)
    have ab: "attended ! b = map (\<lambda>col. dot col (weights ! b)) (transpose ?ex)"
      using b lw by (simp add: A)
    have ac: "attended ! b ! c = (\<Sum>t<?n. weights ! b ! t * ?ex ! t ! c)" if "c < cell_size" for c
    proof -
      have "attended ! b ! c = dot (map (\<lambda>t. ?ex ! t ! c) [0..<?n]) (weights ! b)"
        using that by (simp add: ab tr n)
      also have "\<dots> = (\<Sum>t<?n. map (\<lambda>t. ?ex ! t ! c) [0..<?n] ! t * weights ! b ! t)"
        by (rule dot_sum) (simp_all add: wlen [OF b])
      also have "\<dots> = (\<Sum>t<?n. weights ! b ! t * ?ex ! t ! c)"
        by (rule sum.cong) (simp_all add: mult.commute)
      finally show ?thesis .
    qed
    have "sum_list (weights ! b) = 1" using sm(1) by (simp add: wb [OF b])
    moreover have "length (attended ! b) = cell_size" by (simp add: ab tr)
    moreover have "int (length (weights ! b)) = seq_len" using wlen [OF b] assms(1) by simp
    ultimately show ?thesis using wt ac by blast
  qed
  from lw la each show ?thesis
    unfolding Let_def weights_def attended_def by blast
qed

theorem attention_is_convex_combination_witness:
  "rnn_attention_weights 2 [[[0, 0], [0, 0]], [[1, 2], [3, 4]]] [[5, 6], [0, 0]]
     = [[1 / 2, 1 / 2], [1 / 2, 1 / 2]] \<and>
   rnn_add_attention_value 2 [[[0, 0], [0, 0]], [[1, 2], [3, 4]]] [[5, 6], [0, 0]] ! 1 ! 0 = 2 \<and>
   sum_list (rnn_attention_weights 2 [[[0, 0], [0, 0]], [[1, 2], [3, 4]]] [[5, 6], [0, 0]] ! 1) = 1"
proof -
  let ?p = "[[[0, 0], [0, 0]], [[1, 2], [3, 4 :: real]]]"
  let ?h = "[[5, 6], [0, 0 :: real]]"
  have h: "(0::int) < 2" "(0::nat) < 2" "length ?h = length ?p"
    "\<forall>ex \<in> set ?p. int (length ex) = 2 \<and> (\<forall>row \<in> set ex. length row = 2)"
    "\<forall>v \<in> set ?h. length v = 2"
    by simp_all
  note t = attention_is_convex_combination [OF h, unfolded Let_def]
  have w: "rnn_attention_weights 2 ?p ?h = [[1 / 2, 1 / 2], [1 / 2, 1 / 2]]"
    by (simp add: attention_weights_closed [OF h(1,2,3) _ h(5)] dot_def)
  from t have "\<forall>b<length ?p. sum_list (rnn_attention_weights 2 ?p ?h ! b) = 1 \<and>
      (\<forall>c<2. rnn_add_attention_value 2 ?p ?h ! b ! c
         = (\<Sum>t<nat 2. rnn_attention_weights 2 ?p ?h ! b ! t * ?p ! b ! t ! c))"
    by blast
  from this [rule_format, of 1]
  have "sum_list (rnn_attention_weights 2 ?p ?h ! 1) = 1"
    and "\<forall>c<2. rnn_add_attention_value 2 ?p ?h ! 1 ! c
         = (\<Sum>t<nat 2. rnn_attention_weights 2 ?p ?h ! 1 ! t * ?p ! 1 ! t ! c)"
    by simp_all
  from this(1) this(2) [rule_format, of 0] w show ?thesis
    by (simp add: lessThan_Suc numeral_2_eq_2)
qed

text \<open>
  Claim C5. In \<^verbatim>\<open>Conv1DClassifier\<close> with padding \<^verbatim>\<open>'VALID'\<close> or \<^verbatim>\<open>'SAME'\<close>, a kernel of
  at least one tap (under \<^verbatim>\<open>'VALID'\<close> of at most \<open>seq_len\<close> taps) and inputs of
  \<open>seq_len \<ge> 1\<close> positions, the convolution stage yields for every example a sequence of
  \<open>seq_len - kernel_size + 1\<close> feature vectors under \<^verbatim>\<open>'VALID'\<close> and of \<open>seq_len\<close> under
  \<^verbatim>\<open>'SAME'\<close>, as \<^verbatim>\<open>current_seq_len\<close> records, each of \<open>n_filters\<close> channels; the global
  max-pool stage raises nothing and maps every such sequence to one vector whose channel
  \<open>c\<close> is the maximum over all positions of channel \<open>c\<close>. The result is these vectors
  after \<^verbatim>\<open>tf.squeeze\<close>: the values in row-major order are the maxima, and the result is
  the matrix of shape (batch, \<open>n_filters\<close>) when both sizes are at least two.
\<close>

theorem global_maxpool_is_channel_max:
  assumes "cnn_padding self = ''VALID'' \<or> cnn_padding self = ''SAME''"
    and "1 \<le> cnn_kernel_size self" and "1 \<le> cnn_seq_len self"
    and "cnn_padding self = ''VALID'' \<longrightarrow> cnn_kernel_size self \<le> cnn_seq_len self"
    and "\<forall>example \<in> set embedded. int (length example) = cnn_seq_len self"
    and "length b = nat (cnn_n_filters self)"
  shows "let filter_shape = [cnn_kernel_size self, cnn_embedding_dims self, cnn_n_filters self];
             self' = cnn_add_conv1d ''conv'' filter_shape 1 self;
             conv = cnn_add_conv1d_value (cnn_padding self) filter_shape 1 W b embedded;
             k = (if cnn_padding self = ''VALID''
                  then cnn_seq_len self - cnn_kernel_size self + 1 else cnn_seq_len self);
             pooled = map (\<lambda>example. map (\<lambda>c. Max ((\<lambda>t. example ! t ! c) ` {..<nat k}))
                                          [0..<nat (cnn_n_filters self)]) conv
         in cnn_current_seq_len self' = Some k \<and> cnn_padding self' = cnn_padding self \<and>
            length conv = length embedded \<and>
            (\<forall>example \<in> set conv.
               int (length example) = k \<and>
               (\<forall>row \<in> set example. length row = nat (cnn_n_filters self))) \<and>
            (\<exists>out. cnn_add_global_maxpool_value (cnn_padding self') (cnn_current_seq_len self') conv
                     = Inr out \<and>
                   out = squeeze (of_matrix pooled) \<and> flatten out = concat pooled \<and>
                   (2 \<le> length embedded \<and> 2 \<le> cnn_n_filters self \<longrightarrow> out = of_matrix pooled))"
proof -
  let ?shape = "[cnn_kernel_size self, cnn_embedding_dims self, cnn_n_filters self]"
  let ?pad = "cnn_padding self"
  let ?C = "nat (cnn_n_filters self)"
  define self' where "self' = cnn_add_conv1d ''conv'' ?shape 1 self"
  define conv where "conv = cnn_add_conv1d_value ?pad ?shape 1 W b embedded"
  define k where "k = (if ?pad = ''VALID''
      then cnn_seq_len self - cnn_kernel_size self + 1 else cnn_seq_len self)"
  define row_max where "row_max = (\<lambda>example :: matrix.
      map (\<lambda>c. Max ((\<lambda>t. example ! t ! c) ` {..<nat k})) [0..<?C])"
  have kpos: "0 < k" using assms(2,3,4) by (auto simp: k_def)
  have sym: "cnn_current_seq_len self' = Some k" "cnn_padding self' = ?pad"
    using assms(1) by (auto simp: self'_def k_def cnn_add_conv1d_def Let_def)
  have conv_eq: "conv = map (\<lambda>value. map (\<lambda>row. map (max 0) (map2 (+) row b))
                            (conv1d value W ?shape 1 ?pad)) embedded"
    by (simp add: conv_def cnn_add_conv1d_value_def Let_def comp_def)
  have lc: "length conv = length embedded" by (simp add: conv_eq)
  have shape: "int (length example) = k \<and> (\<forall>row \<in> set example. length row = ?C)"
    if "example \<in> set conv" for example
  proof -
    from that obtain v where v: "v \<in> set embedded"
      and ex: "example = map (\<lambda>row. map (max 0) (map2 (+) row b)) (conv1d v W ?shape 1 ?pad)"
      by (auto simp: conv_eq)
    from v assms(5) have lv: "int (length v) = cnn_seq_len self" by blast
    note cs = conv1d_shape [OF assms(1), of v W "cnn_kernel_size self" "cnn_embedding_dims self"
        "cnn_n_filters self"]
    have "int (length example) = k"
      using cs(1) lv assms(2,3,4) by (auto simp: ex k_def)
    moreover have "\<forall>row \<in> set example. length row = ?C"
      using cs(2) assms(6) by (auto simp: ex)
    ultimately show ?thesis by blast
  qed
  have pool_one: "max_pool_width example (nat k) (nat k) ?pad = [row_max example]"
      if "example \<in> set conv" for example
  proof -
    from shape [OF that] have l: "length example = nat k"
      and rows: "\<forall>row \<in> set example. length row = ?C" by auto
    have ne: "example \<noteq> []" using l kpos by auto
    have "max_pool_width example (nat k) (nat k) ?pad = [reduce_max example]"
      using l kpos assms(1) by (intro max_pool_global) simp_all
    also have "reduce_max example = row_max example"
      using reduce_max_columns [OF ne rows] by (simp add: row_max_def l)
    finally show ?thesis .
  qed
  have run: "cnn_add_global_maxpool_value ?pad (Some k) conv
      = Inr (squeeze (Array (map (\<lambda>example. of_tensor3 [[row_max example]]) conv)))"
  proof -
    have inner: "map (\<lambda>x. of_tensor3 [max_pool_width x (nat k) (nat k) ?pad]) conv
        = map (\<lambda>example. of_tensor3 [[row_max example]]) conv"
      by (rule map_cong [OF refl]) (simp add: pool_one)
    have "cnn_add_global_maxpool_value ?pad (Some k) conv
        = Inr (squeeze (Array (map (\<lambda>x. of_tensor3 [max_pool_width x (nat k) (nat k) ?pad]) conv)))"
      using kpos by (simp add: cnn_add_global_maxpool_value_def Let_def of_tensor4_def comp_def)
    then show ?thesis unfolding inner .
  qed
  have sq: "squeeze (Array (map (\<lambda>example. of_tensor3 [[row_max example]]) conv))
      = squeeze (Array (map (\<lambda>example. of_vector (row_max example)) conv))"
    by (rule squeeze_map_cong) (simp add: of_tensor3_def of_matrix_def)
  have om: "Array (map (\<lambda>example. of_vector (row_max example)) conv)
      = of_matrix (map row_max conv)"
    by (simp add: of_matrix_def comp_def)
  have out: "cnn_add_global_maxpool_value (cnn_padding self') (cnn_current_seq_len self') conv
      = Inr (squeeze (of_matrix (map row_max conv)))"
    unfolding sym run sq om ..
  have flat: "flatten (squeeze (of_matrix (map row_max conv))) = concat (map row_max conv)"
    by (simp add: flatten_squeeze flatten_of_matrix)
  have nondeg: "squeeze (of_matrix (map row_max conv)) = of_matrix (map row_max conv)"
    if "2 \<le> length embedded" "2 \<le> cnn_n_filters self"
    using that lc by (intro squeeze_of_matrix) (auto simp: row_max_def)
  show ?thesis
    unfolding Let_def self'_def [symmetric] conv_def [symmetric] k_def [symmetric]
    using sym lc shape out flat nondeg unfolding row_max_def by blast
qed

theorem global_maxpool_is_channel_max_witness:
  "cnn_add_conv1d_value ''VALID'' [2, 1, 2] 1 [[[1, 0]], [[0, 1]]] [0, 0]
       [[[1], [2], [3]], [[0], [1], [0]]]
     = [[[1, 2], [2, 3]], [[0, 1], [1, 0]]] \<and>
   cnn_add_global_maxpool_value ''VALID'' (Some 2) [[[1, 2], [2, 3]], [[0, 1], [1, 0]]]
     = Inr (Array [Array [Scalar 2, Scalar 3], Array [Scalar 1, Scalar 1]])"
proof -
  let ?self = "\<lparr>cnn_seq_len = 3, cnn_vocab_size = 10, cnn_embedding_dims = 1,
      cnn_n_filters = 2, cnn_kernel_size = 2, cnn_padding = ''VALID'', cnn_hidden_dims = 2,
      cnn_n_out = 2, cnn_current_layer = NoneNode, cnn_current_seq_len = None,
      cnn_X = NoneNode, cnn_Y = NoneNode, cnn_keep_prob = NoneNode, cnn_logits = NoneNode,
      cnn_lr = NoneNode, cnn_loss = NoneNode, cnn_train_op = NoneNode, cnn_acc = NoneNode\<rparr>"
  let ?x = "[[[1], [2], [3]], [[0], [1], [0 :: real]]]"
  let ?W = "[[[1, 0]], [[0, 1 :: real]]]"
  let ?conv = "[[[1, 2], [2, 3]], [[0, 1], [1, 0 :: real]]]"
  have h: "cnn_padding ?self = ''VALID'' \<or> cnn_padding ?self = ''SAME''"
    "1 \<le> cnn_kernel_size ?self" "1 \<le> cnn_seq_len ?self"
    "cnn_padding ?self = ''VALID'' \<longrightarrow> cnn_kernel_size ?self \<le> cnn_seq_len ?self"
    "\<forall>example \<in> set ?x. int (length example) = cnn_seq_len ?self"
    "length [0, 0 :: real] = nat (cnn_n_filters ?self)"
    by simp_all
  have up: "[0..<2] = [0, 1]" by (simp add: upt_rec)
  have conv: "cnn_add_conv1d_value ''VALID'' [2, 1, 2] 1 ?W [0, 0] ?x = ?conv"
    by (simp add: cnn_add_conv1d_value_def conv1d_def Let_def window_product_def dot_def up)
  have set2: "{..<nat 2} = {0, Suc 0}" by auto
  from global_maxpool_is_channel_max [OF h, of ?W, unfolded Let_def]
  have "cnn_add_global_maxpool_value ''VALID'' (Some 2)
          (cnn_add_conv1d_value ''VALID'' [2, 1, 2] 1 ?W [0, 0] ?x)
      = Inr (of_matrix (map (\<lambda>example. map (\<lambda>c. Max ((\<lambda>t. example ! t ! c) ` {..<nat 2})) [0..<nat 2])
               (cnn_add_conv1d_value ''VALID'' [2, 1, 2] 1 ?W [0, 0] ?x)))"
    by (auto simp: cnn_add_conv1d_def Let_def)
  then have "cnn_add_global_maxpool_value ''VALID'' (Some 2) ?conv
      = Inr (Array [Array [Scalar 2, Scalar 3], Array [Scalar 1, Scalar 1]])"
    unfolding conv set2 by (simp add: of_matrix_def of_vector_def up)
  with conv show ?thesis by simp
qed

end
